(* ===== verification/Prelude.thy ===== *)
theory Prelude
  imports Main "HOL-Library.Sublist"
begin

text \<open>
  The prelude: the Python string operations the programs of the repository use, as executable
  functions on \<^typ>\<open>string\<close>, and the generic lemmas every component shares.

  Representation. A byte string is a \<^typ>\<open>string\<close>, one \<^typ>\<open>char\<close> per byte. A text string
  (\<open>str\<close> of Python 3, \<open>unicode\<close> of Python 2) is represented by its UTF-8 encoding, so
  \<open>encode()\<close> is the identity and \<open>len\<close> counts the bytes that start a character
  (\<open>py_len\<close>). For ASCII text both readings agree.

  Collections: \<open>str_simps\<close> holds the equations that evaluate string operations,
  \<open>io_simps\<close> the ones that evaluate effectful code, \<open>emits_intros\<close> the rules that bound
  which external calls a piece of code makes.
\<close>

named_theorems str_simps
named_theorems io_simps
named_theorems emits_intros

section \<open>Searching\<close>

text \<open>\<open>s.startswith(p)\<close>, \<open>s.endswith(p)\<close>.\<close>

definition py_startswith :: "string \<Rightarrow> string \<Rightarrow> bool" where
  "py_startswith s p = prefix p s"

definition py_endswith :: "string \<Rightarrow> string \<Rightarrow> bool" where
  "py_endswith s p = suffix p s"

text \<open>The least index at which \<open>sub\<close> occurs in \<open>s\<close>.\<close>

fun sub_index :: "string \<Rightarrow> string \<Rightarrow> nat option" where
  "sub_index sub [] = (if sub = [] then Some 0 else None)"
| "sub_index sub (c # cs) =
     (if prefix sub (c # cs) then Some 0 else map_option Suc (sub_index sub cs))"

text \<open>\<open>s.find(sub)\<close> and \<open>sub in s\<close>.\<close>

definition py_find :: "string \<Rightarrow> string \<Rightarrow> int" where
  "py_find s sub = (case sub_index sub s of None \<Rightarrow> -1 | Some i \<Rightarrow> int i)"

definition py_in :: "string \<Rightarrow> string \<Rightarrow> bool" where
  "py_in sub s = (sub_index sub s \<noteq> None)"

section \<open>Stripping, replacing, splitting, joining\<close>

text \<open>The ASCII white space that \<open>bytes.strip\<close>, \<open>bytes.split\<close> and Python 2's
  \<open>str.strip\<close> remove: space, tab, newline, vertical tab, form feed, carriage return.\<close>

definition is_space :: "char \<Rightarrow> bool" where
  "is_space c = (c \<in> set [CHR '' '', CHR 0x09, CHR 0x0A, CHR 0x0B, CHR 0x0C, CHR 0x0D])"

definition lstrip_with :: "(char \<Rightarrow> bool) \<Rightarrow> string \<Rightarrow> string" where
  "lstrip_with p s = dropWhile p s"

definition rstrip_with :: "(char \<Rightarrow> bool) \<Rightarrow> string \<Rightarrow> string" where
  "rstrip_with p s = rev (dropWhile p (rev s))"

text \<open>\<open>s.strip()\<close>, \<open>s.rstrip()\<close> and \<open>s.strip(chars)\<close>.\<close>

definition py_strip :: "string \<Rightarrow> string" where
  "py_strip s = rstrip_with is_space (lstrip_with is_space s)"

definition py_rstrip :: "string \<Rightarrow> string" where
  "py_rstrip s = rstrip_with is_space s"

definition py_strip_chars :: "string \<Rightarrow> string \<Rightarrow> string" where
  "py_strip_chars s cs =
     rstrip_with (\<lambda>c. c \<in> set cs) (lstrip_with (\<lambda>c. c \<in> set cs) s)"

text \<open>\<open>s.replace(old, new)\<close> for a non-empty \<open>old\<close>: the leftmost, non-overlapping
  occurrences. Every use in the repository has a non-empty literal for \<open>old\<close>.\<close>

function py_replace :: "string \<Rightarrow> string \<Rightarrow> string \<Rightarrow> string" where
  "py_replace old new [] = []"
| "py_replace old new (c # cs) =
     (if old \<noteq> [] \<and> prefix old (c # cs)
      then new @ py_replace old new (drop (length old) (c # cs))
      else c # py_replace old new cs)"
  by pat_completeness auto
termination
  by (relation "measure (\<lambda>(old, new, s). length s)") auto

text \<open>\<open>s.split()\<close>: the maximal runs of non-space characters.\<close>

function py_split :: "string \<Rightarrow> string list" where
  "py_split s =
     (case dropWhile is_space s of
        [] \<Rightarrow> []
      | c # cs \<Rightarrow> takeWhile (\<lambda>x. \<not> is_space x) (c # cs)
          # py_split (dropWhile (\<lambda>x. \<not> is_space x) (c # cs)))"
  by pat_completeness auto

lemma dropWhile_Cons_not:
  "dropWhile P xs = c # cs \<Longrightarrow> \<not> P c"
  by (induction xs) (auto split: if_splits)

lemma length_dropWhile_Cons:
  "dropWhile P xs = c # cs \<Longrightarrow> length cs < length xs"
  by (metis Suc_le_eq length_Cons length_dropWhile_le)

termination py_split
proof (relation "measure length")
  fix s c cs
  assume d: "dropWhile is_space s = c # cs"
  have "length (dropWhile (\<lambda>x. \<not> is_space x) (c # cs)) \<le> length cs"
    using dropWhile_Cons_not [OF d] by (simp add: length_dropWhile_le)
  also have "\<dots> < length s"
    using d by (rule length_dropWhile_Cons)
  finally show "(dropWhile (\<lambda>x. \<not> is_space x) (c # cs), s) \<in> measure length"
    by simp
qed simp

declare py_split.simps [simp del]

text \<open>\<open>s.split(c)\<close> for a one-character separator, and \<open>s.split(c, 1)\<close> as a pair
  (\<^const>\<open>None\<close>: the separator does not occur).\<close>

fun split_on :: "char \<Rightarrow> string \<Rightarrow> string list" where
  "split_on c [] = [[]]"
| "split_on c (x # xs) =
     (if x = c then [] # split_on c xs
      else (case split_on c xs of [] \<Rightarrow> [[x]] | y # ys \<Rightarrow> (x # y) # ys))"

fun split1 :: "char \<Rightarrow> string \<Rightarrow> (string \<times> string) option" where
  "split1 c [] = None"
| "split1 c (x # xs) =
     (if x = c then Some ([], xs)
      else map_option (\<lambda>(a, b). (x # a, b)) (split1 c xs))"

text \<open>Splitting at the last occurrence of \<open>c\<close>.\<close>

definition rsplit1 :: "char \<Rightarrow> string \<Rightarrow> (string \<times> string) option" where
  "rsplit1 c s = map_option (\<lambda>(a, b). (rev b, rev a)) (split1 c (rev s))"

text \<open>\<open>sep.join(xs)\<close>.\<close>

fun py_join :: "string \<Rightarrow> string list \<Rightarrow> string" where
  "py_join sep [] = []"
| "py_join sep [x] = x"
| "py_join sep (x # y # zs) = x @ sep @ py_join sep (y # zs)"

section \<open>Decimal numerals\<close>

definition digit_char :: "nat \<Rightarrow> char" where
  "digit_char n = char_of (48 + n mod 10)"

fun dec_of_nat :: "nat \<Rightarrow> string" where
  "dec_of_nat n = (if n < 10 then [digit_char n] else dec_of_nat (n div 10) @ [digit_char n])"

declare dec_of_nat.simps [simp del]

definition hex_char :: "nat \<Rightarrow> char" where
  "hex_char n = (if n < 10 then char_of (48 + n) else char_of (87 + n))"

definition dec_of_int :: "int \<Rightarrow> string" where
  "dec_of_int i = (if i < 0 then ''-'' @ dec_of_nat (nat (- i)) else dec_of_nat (nat i))"

section \<open>Lemmas\<close>

lemma py_startswith_append [simp]: "py_startswith (p @ s) p"
  by (simp add: py_startswith_def)

lemma sub_index_least:
  "sub_index sub s = Some i \<Longrightarrow> j < i \<Longrightarrow> \<not> prefix sub (drop j s)"
proof (induction s arbitrary: i j)
  case (Cons c cs)
  then show ?case by (cases j) (auto split: if_splits)
qed (auto split: if_splits)

lemma sub_index_None_iff: "sub_index sub s = None \<longleftrightarrow> \<not> sublist sub s"
  by (induction s) (auto simp: sublist_Cons_right)

lemma py_in_iff [str_simps]: "py_in sub s \<longleftrightarrow> sublist sub s"
  by (metis py_in_def sub_index_None_iff)

lemma py_in_length: "py_in sub s \<Longrightarrow> length sub \<le> length s"
  by (simp add: py_in_iff sublist_length_le)

lemma sub_index_0_iff: "sub_index sub s = Some 0 \<longleftrightarrow> prefix sub s"
  by (cases s) auto

lemma py_find_0_iff [str_simps]: "py_find s sub = 0 \<longleftrightarrow> py_startswith s sub"
  by (auto simp: py_find_def py_startswith_def sub_index_0_iff split: option.splits
      dest: sub_index_0_iff [THEN iffD2])

lemma py_find_pos_iff:
  "0 < py_find s sub \<longleftrightarrow> sublist sub s \<and> \<not> prefix sub s"
proof (cases "sub_index sub s")
  case None
  with sub_index_None_iff [of sub s] show ?thesis by (simp add: py_find_def)
next
  case (Some i)
  then have "sublist sub s"
    by (metis option.distinct(1) sub_index_None_iff)
  then show ?thesis
    using Some sub_index_0_iff [of sub s] by (auto simp: py_find_def)
qed

subsection \<open>Stripping and splitting\<close>

lemma rstrip_with_Nil_iff: "rstrip_with p s = [] \<longleftrightarrow> (\<forall>c \<in> set s. p c)"
  by (simp add: rstrip_with_def)

lemma prefix_rstrip_with: "prefix (rstrip_with p s) s"
  by (metis rev_rev_ident rstrip_with_def suffix_dropWhile suffix_to_prefix)

lemma rstrip_with_id: "s = [] \<or> \<not> p (last s) \<Longrightarrow> rstrip_with p s = s"
  by (cases s rule: rev_cases) (auto simp: rstrip_with_def)

lemma rstrip_with_last: "rstrip_with p s \<noteq> [] \<Longrightarrow> \<not> p (last (rstrip_with p s))"
  by (simp add: rstrip_with_def last_rev hd_dropWhile)

lemma py_strip_Nil_iff: "py_strip s = [] \<longleftrightarrow> (\<forall>c \<in> set s. is_space c)"
  by (auto simp: py_strip_def lstrip_with_def rstrip_with_Nil_iff dest: set_dropWhileD)
    (metis dropWhile_eq_Nil_conv hd_dropWhile list.set_sel(1))

lemma py_strip_idem: "py_strip (py_strip s) = py_strip s"
proof (cases "py_strip s = []")
  case True
  show ?thesis
    unfolding True by (simp add: py_strip_def lstrip_with_def rstrip_with_def)
next
  case False
  let ?t = "lstrip_with is_space s"
  have pre: "prefix (py_strip s) ?t"
    by (simp add: py_strip_def prefix_rstrip_with)
  with False have "?t \<noteq> []" by auto
  then have "\<not> is_space (hd ?t)"
    by (simp add: lstrip_with_def hd_dropWhile)
  then have "\<not> is_space (hd (py_strip s))"
    using pre False by (auto simp: prefix_def)
  then have "lstrip_with is_space (py_strip s) = py_strip s"
    using False by (cases "py_strip s") (auto simp: lstrip_with_def)
  then show ?thesis
    using False rstrip_with_last [of is_space ?t]
    by (simp add: py_strip_def rstrip_with_id)
qed

lemma py_split_Nil_iff: "py_split s = [] \<longleftrightarrow> (\<forall>c \<in> set s. is_space c)"
  by (subst py_split.simps) (auto simp flip: dropWhile_eq_Nil_conv split: list.splits)

lemma split1_None_iff: "split1 c s = None \<longleftrightarrow> c \<notin> set s"
  by (induction s) auto

lemma split1_SomeD: "split1 c s = Some (a, b) \<Longrightarrow> s = a @ c # b \<and> c \<notin> set a"
  by (induction s arbitrary: a b) (auto split: if_splits)

lemma split1_append [simp]: "c \<notin> set a \<Longrightarrow> split1 c (a @ c # b) = Some (a, b)"
  by (induction a) auto

lemma rsplit1_None_iff: "rsplit1 c s = None \<longleftrightarrow> c \<notin> set s"
  by (simp add: rsplit1_def split1_None_iff)

lemma rsplit1_SomeD:
  assumes "rsplit1 c s = Some (a, b)"
  shows "s = a @ c # b \<and> c \<notin> set b"
proof -
  from assms have "split1 c (rev s) = Some (rev b, rev a)"
    by (auto simp: rsplit1_def)
  then have "rev s = rev b @ c # rev a \<and> c \<notin> set b"
    using split1_SomeD by fastforce
  then show ?thesis
    by (metis append.assoc append_Cons append_Nil rev.simps(2) rev_append rev_rev_ident)
qed

lemma rsplit1_append [simp]: "c \<notin> set b \<Longrightarrow> rsplit1 c (a @ c # b) = Some (a, b)"
  by (simp add: rsplit1_def)

lemma split_on_not_Nil [simp]: "split_on c s \<noteq> []"
  by (induction s) (auto split: list.splits)

lemma py_join_Cons: "xs \<noteq> [] \<Longrightarrow> py_join sep (x # xs) = x @ sep @ py_join sep xs"
  by (cases xs) auto

lemma py_join_split_on: "py_join [c] (split_on c s) = s"
proof (induction s)
  case (Cons x xs)
  obtain y ys where s: "split_on c xs = y # ys"
    by (metis list.exhaust split_on_not_Nil)
  with Cons show ?case by (cases ys) auto
qed simp

lemma split_on_parts: "p \<in> set (split_on c s) \<Longrightarrow> c \<notin> set p"
proof (induction s arbitrary: p)
  case (Cons x xs)
  obtain y ys where s: "split_on c xs = y # ys"
    by (metis list.exhaust split_on_not_Nil)
  with Cons show ?case by (auto split: if_splits)
qed auto

lemma hd_split_on: "hd (split_on c s) = takeWhile (\<lambda>x. x \<noteq> c) s"
proof (induction s)
  case (Cons x xs)
  then show ?case by (cases "split_on c xs") auto
qed simp

lemma py_replace_delete: "py_replace [c] [] s = filter (\<lambda>x. x \<noteq> c) s"
  by (induction s) auto

lemma py_replace_absent: "\<not> sublist old s \<Longrightarrow> py_replace old new s = s"
  by (induction s) (auto simp: sublist_Cons_right)

subsection \<open>Numerals\<close>

lemma dec_of_nat_not_Nil [simp]: "dec_of_nat n \<noteq> []"
  by (subst dec_of_nat.simps) simp

lemma py_strip_newline: "py_strip (s @ [CHR 0x0A]) = py_strip s"
proof -
  have n: "is_space (CHR 0x0A)" by code_simp
  show ?thesis
  proof (cases "\<forall>c \<in> set s. is_space c")
    case True
    then have "dropWhile is_space (s @ [CHR 0x0A]) = []" "dropWhile is_space s = []" using n by auto
    then show ?thesis by (simp only: py_strip_def lstrip_with_def)
  next
    case False
    then have "dropWhile is_space (s @ [CHR 0x0A]) = dropWhile is_space s @ [CHR 0x0A]"
      by (auto simp: dropWhile_append)
    then show ?thesis using n by (simp add: py_strip_def lstrip_with_def rstrip_with_def)
  qed
qed

end
