(* ===== verification/PyValues.thy ===== *)
theory PyValues
  imports Prelude
begin

text \<open>
  The Python values that cross the interfaces of the programs (module parameters, decoded JSON
  documents, keyword arguments), the exceptions they raise, and the text encoding they rely on.

  \<^item> \<open>pyval\<close>: \<open>None\<close>, booleans, integers, floats, text, lists and dictionaries. A
    dictionary is the list of its items with distinct keys, in iteration order. A finite float
    is written \<open>PFloat m e\<close> for the binary64 number nearest to \<open>m * 10 ^ e\<close>.
  \<^item> \<open>exn\<close>: the exceptions the code raises or distinguishes. \<open>is_Exception\<close>,
    \<open>is_ValueError\<close> and \<open>is_IOError\<close> are the class tests of \<open>except\<close> clauses;
    \<open>SystemExit\<close> and \<open>KeyboardInterrupt\<close> are not subclasses of \<open>Exception\<close>.
  \<^item> \<open>py_decode\<close>, \<open>py_decode_replace\<close>, \<open>py_len\<close>: UTF-8.
\<close>

section \<open>Values\<close>

datatype pyval =
    PNone
  | PBool bool
  | PInt int
  | PFloat int int
  | PInf bool
  | PNaN
  | PStr string
  | PList "pyval list"
  | PDict "(string \<times> pyval) list"

type_synonym pydict = "(string \<times> pyval) list"
type_synonym kwargs = "(string \<times> pyval) list"

text \<open>\<open>bool(v)\<close>. A finite float is true unless it rounds to zero, that is unless its
  magnitude is at most half the least subnormal number, \<open>2 ^ -1075\<close>.\<close>

fun truthy :: "pyval \<Rightarrow> bool" where
  "truthy PNone = False"
| "truthy (PBool b) = b"
| "truthy (PInt i) = (i \<noteq> 0)"
| "truthy (PFloat m e) =
     (if 0 \<le> e then m \<noteq> 0 else 10 ^ nat (- e) < \<bar>m\<bar> * 2 ^ 1075)"
| "truthy (PInf _) = True"
| "truthy PNaN = True"
| "truthy (PStr s) = (s \<noteq> [])"
| "truthy (PList xs) = (xs \<noteq> [])"
| "truthy (PDict d) = (d \<noteq> [])"

text \<open>The dictionary operations in use: \<open>d.get(k)\<close> (as an option), \<open>d[k] = v\<close>,
  \<open>del d[k]\<close> and iteration over the keys.\<close>

definition dict_get :: "pydict \<Rightarrow> string \<Rightarrow> pyval option" where
  "dict_get d k = map_of d k"

fun dict_set :: "string \<Rightarrow> 'v \<Rightarrow> (string \<times> 'v) list \<Rightarrow> (string \<times> 'v) list" where
  "dict_set k v [] = [(k, v)]"
| "dict_set k v ((k', v') # d) =
     (if k' = k then (k, v) # d else (k', v') # dict_set k v d)"

definition dict_del :: "string \<Rightarrow> (string \<times> 'v) list \<Rightarrow> (string \<times> 'v) list" where
  "dict_del k d = filter (\<lambda>(k', v). k' \<noteq> k) d"

definition dict_keys :: "(string \<times> 'v) list \<Rightarrow> string list" where
  "dict_keys d = map fst d"

section \<open>Exceptions\<close>

datatype exn =
    SystemExit int
  | KeyboardInterrupt
  | ValidationError string string int
  | ValueError string
  | UnicodeDecodeError
  | KeyError string
  | IndexError string
  | TypeError string
  | AttributeError string
  | IOError string
  | CalledProcessError string
  | RuntimeError string
  | AssertionError
  | NotImplementedError
  | ZabbixAPIException string
  | OtherException string

fun is_Exception :: "exn \<Rightarrow> bool" where
  "is_Exception (SystemExit _) = False"
| "is_Exception KeyboardInterrupt = False"
| "is_Exception _ = True"

fun is_ValueError :: "exn \<Rightarrow> bool" where
  "is_ValueError (ValidationError _ _ _) = True"
| "is_ValueError (ValueError _) = True"
| "is_ValueError UnicodeDecodeError = True"
| "is_ValueError _ = False"

fun is_TypeError :: "exn \<Rightarrow> bool" where
  "is_TypeError (TypeError _) = True"
| "is_TypeError _ = False"

fun is_KeyError :: "exn \<Rightarrow> bool" where
  "is_KeyError (KeyError _) = True"
| "is_KeyError _ = False"

fun is_IndexError :: "exn \<Rightarrow> bool" where
  "is_IndexError (IndexError _) = True"
| "is_IndexError _ = False"

fun is_IOError :: "exn \<Rightarrow> bool" where
  "is_IOError (IOError _) = True"
| "is_IOError _ = False"

definition quoted :: "string \<Rightarrow> string" where
  "quoted s = CHR 0x27 # s @ [CHR 0x27]"

text \<open>\<open>str(exc)\<close>, as \<open>'%s' % exc\<close> prints it.\<close>

fun exn_str :: "exn \<Rightarrow> string" where
  "exn_str (SystemExit n) = dec_of_int n"
| "exn_str KeyboardInterrupt = ''''"
| "exn_str (ValidationError a d n) =
     ''('' @ quoted a @ '', '' @ quoted d @ '')''"
| "exn_str (ValueError s) = s"
| "exn_str UnicodeDecodeError = ''invalid byte sequence''"
| "exn_str (KeyError k) = quoted k"
| "exn_str (IndexError s) = s"
| "exn_str (TypeError s) = s"
| "exn_str (AttributeError s) = s"
| "exn_str (IOError s) = s"
| "exn_str (CalledProcessError s) = s"
| "exn_str (RuntimeError s) = s"
| "exn_str AssertionError = ''''"
| "exn_str NotImplementedError = ''''"
| "exn_str (ZabbixAPIException s) = s"
| "exn_str (OtherException s) = s"

text \<open>The result of a computation that may raise.\<close>

datatype 'a res = Ret 'a | Exc exn

primrec res_bind :: "'a res \<Rightarrow> ('a \<Rightarrow> 'b res) \<Rightarrow> 'b res" where
  "res_bind (Ret x) f = f x"
| "res_bind (Exc e) f = Exc e"

section \<open>Subscripts\<close>

text \<open>\<open>v[k]\<close> for a string key and \<open>v[0]\<close>, with the exceptions of the types that
  do not support them.\<close>

fun py_getitem :: "pyval \<Rightarrow> string \<Rightarrow> pyval res" where
  "py_getitem (PDict d) k =
     (case dict_get d k of None \<Rightarrow> Exc (KeyError k) | Some v \<Rightarrow> Ret v)"
| "py_getitem v k = Exc (TypeError ''object is not subscriptable by a string'')"

fun py_getitem0 :: "pyval \<Rightarrow> pyval res" where
  "py_getitem0 (PList []) = Exc (IndexError ''list index out of range'')"
| "py_getitem0 (PList (v # vs)) = Ret v"
| "py_getitem0 (PStr []) = Exc (IndexError ''string index out of range'')"
| "py_getitem0 (PStr (c # cs)) = Ret (PStr [c])"
| "py_getitem0 (PDict d) = Exc (KeyError ''0'')"
| "py_getitem0 v = Exc (TypeError ''object is not subscriptable'')"

section \<open>Printing\<close>

text \<open>\<open>'%s' % v\<close>. The text of floats and containers is the interpreter's \<open>repr\<close>
  (float digits, dictionary order and the \<open>u''\<close> prefix depend on its version), which is the
  argument \<open>rep\<close>.\<close>

fun py_str :: "(pyval \<Rightarrow> string) \<Rightarrow> pyval \<Rightarrow> string" where
  "py_str rep PNone = ''None''"
| "py_str rep (PBool b) = (if b then ''True'' else ''False'')"
| "py_str rep (PInt i) = dec_of_int i"
| "py_str rep (PStr s) = s"
| "py_str rep v = rep v"

section \<open>UTF-8\<close>

text \<open>The ranges of the continuation bytes a lead byte asks for; \<^const>\<open>None\<close> for a byte
  that starts no character.\<close>

definition utf8_tail :: "nat \<Rightarrow> (nat \<times> nat) list option" where
  "utf8_tail b =
     (if b < 0x80 then Some []
      else if b < 0xC2 then None
      else if b < 0xE0 then Some [(0x80, 0xBF)]
      else if b = 0xE0 then Some [(0xA0, 0xBF), (0x80, 0xBF)]
      else if b = 0xED then Some [(0x80, 0x9F), (0x80, 0xBF)]
      else if b < 0xF0 then Some [(0x80, 0xBF), (0x80, 0xBF)]
      else if b = 0xF0 then Some [(0x90, 0xBF), (0x80, 0xBF), (0x80, 0xBF)]
      else if b < 0xF4 then Some [(0x80, 0xBF), (0x80, 0xBF), (0x80, 0xBF)]
      else if b = 0xF4 then Some [(0x80, 0x8F), (0x80, 0xBF), (0x80, 0xBF)]
      else None)"

text \<open>How many of the leading bytes lie in the given ranges.\<close>

fun utf8_match :: "(nat \<times> nat) list \<Rightarrow> string \<Rightarrow> nat" where
  "utf8_match ((lo, hi) # rs) (c # cs) =
     (if lo \<le> of_char c \<and> of_char c \<le> hi then Suc (utf8_match rs cs) else 0)"
| "utf8_match _ _ = 0"

text \<open>Whether a character starts at the head of the string, and how many bytes it (or, when
  malformed, its longest well-formed part) takes.\<close>

fun utf8_head :: "string \<Rightarrow> bool \<times> nat" where
  "utf8_head [] = (False, 0)"
| "utf8_head (c # cs) =
     (case utf8_tail (of_char c) of
        None \<Rightarrow> (False, 1)
      | Some rs \<Rightarrow> (let k = utf8_match rs cs in (k = length rs, Suc k)))"

lemma utf8_head_pos [simp]: "0 < snd (utf8_head (c # cs))"
  by (auto simp: Let_def split: option.splits)

function utf8_valid :: "string \<Rightarrow> bool" where
  "utf8_valid [] = True"
| "utf8_valid (c # cs) =
     (fst (utf8_head (c # cs)) \<and> utf8_valid (drop (snd (utf8_head (c # cs))) (c # cs)))"
  by pat_completeness auto
termination
  using utf8_head_pos by (relation "measure length") (auto simp del: utf8_head.simps)

function utf8_replace :: "string \<Rightarrow> string" where
  "utf8_replace [] = []"
| "utf8_replace (c # cs) =
     (if fst (utf8_head (c # cs)) then take (snd (utf8_head (c # cs))) (c # cs)
      else [CHR 0xEF, CHR 0xBF, CHR 0xBD])
     @ utf8_replace (drop (snd (utf8_head (c # cs))) (c # cs))"
  by pat_completeness auto
termination
  using utf8_head_pos by (relation "measure length") (auto simp del: utf8_head.simps)

text \<open>\<open>b.decode()\<close>, \<open>b.decode('utf-8', 'replace')\<close>, \<open>len(s)\<close> and \<open>s[0]\<close>
  of text.\<close>

definition py_decode :: "string \<Rightarrow> string res" where
  "py_decode b = (if utf8_valid b then Ret b else Exc UnicodeDecodeError)"

definition py_decode_replace :: "string \<Rightarrow> string" where
  "py_decode_replace b = utf8_replace b"

definition py_len :: "string \<Rightarrow> nat" where
  "py_len s = length (filter (\<lambda>c. \<not> (0x80 \<le> (of_char c :: nat) \<and> (of_char c :: nat) < 0xC0)) s)"

definition py_char0 :: "string \<Rightarrow> string res" where
  "py_char0 s = (if s = [] then Exc (IndexError ''string index out of range'')
                 else Ret (take (snd (utf8_head s)) s))"

text \<open>\<open>s[:n]\<close> of text: the bytes of the first \<open>n\<close> characters.\<close>

fun py_take :: "nat \<Rightarrow> string \<Rightarrow> string" where
  "py_take n [] = []"
| "py_take n (c # cs) =
     (if 0x80 \<le> (of_char c :: nat) \<and> (of_char c :: nat) < 0xC0 then c # py_take n cs
      else if n = 0 then [] else c # py_take (n - 1) cs)"

section \<open>Lemmas\<close>

lemma res_bind_Ret_iff:
  "res_bind m f = Ret y \<longleftrightarrow> (\<exists>x. m = Ret x \<and> f x = Ret y)"
  by (cases m) auto

lemma py_getitem_Ret: "py_getitem v k = Ret x \<Longrightarrow> \<exists>d. v = PDict d \<and> dict_get d k = Some x"
  by (cases v) (auto split: option.splits)

lemma dict_keys_set [simp]: "set (dict_keys (dict_set k v d)) = insert k (set (dict_keys d))"
  by (induction k v d rule: dict_set.induct) (auto simp: dict_keys_def)

lemma map_of_dict_set: "map_of (dict_set k v d) = (map_of d)(k \<mapsto> v)"
  by (induction k v d rule: dict_set.induct) auto

lemma distinct_dict_set:
  "distinct (dict_keys d) \<Longrightarrow> distinct (dict_keys (dict_set k v d))"
proof (induction k v d rule: dict_set.induct)
  case (2 k v k' v' d)
  have "k' \<noteq> k \<Longrightarrow> k' \<notin> set (dict_keys d) \<Longrightarrow> k' \<notin> set (dict_keys (dict_set k v d))"
    by simp
  with 2 show ?case by (auto simp: dict_keys_def)
qed (simp add: dict_keys_def)

lemma dict_get_None_iff: "dict_get d k = None \<longleftrightarrow> k \<notin> set (dict_keys d)"
  by (simp add: dict_get_def dict_keys_def map_of_eq_None_iff)

lemma length_dict_del:
  "k \<in> set (dict_keys d) \<Longrightarrow> length (dict_del k d) < length d"
  by (auto simp: dict_del_def dict_keys_def intro!: length_filter_less)

lemma utf8_tail_length: "utf8_tail b = Some rs \<Longrightarrow> length rs \<le> 3"
  by (auto simp: utf8_tail_def split: if_splits)

lemma utf8_match_le: "utf8_match rs s \<le> length rs"
  by (induction rs s rule: utf8_match.induct) auto

lemma utf8_head_le4: "snd (utf8_head s) \<le> 4"
proof (cases s)
  case (Cons c cs)
  then show ?thesis
    using utf8_tail_length [of "of_char c"] le_trans [OF utf8_match_le, of _ 3]
    by (auto simp: Let_def split: option.splits)
qed simp

lemma py_char0_length: "py_char0 s = Ret t \<Longrightarrow> length t \<le> 4"
  using utf8_head_le4 [of s] by (auto simp: py_char0_def split: if_splits)

lemma utf8_replace_valid: "utf8_valid s \<Longrightarrow> utf8_replace s = s"
  by (induction s rule: utf8_valid.induct) (auto simp del: utf8_head.simps)

lemma utf8_valid_ascii: "\<forall>c \<in> set s. of_char c < (0x80 :: nat) \<Longrightarrow> utf8_valid s"
  by (induction s) (auto simp: utf8_tail_def)

lemma py_len_ascii: "\<forall>c \<in> set s. of_char c < (0x80 :: nat) \<Longrightarrow> py_len s = length s"
  by (induction s) (auto simp: py_len_def)

lemma py_len_le: "py_len s \<le> length s"
  by (simp add: py_len_def)

lemma py_len_append [simp]: "py_len (s @ t) = py_len s + py_len t"
  by (simp add: py_len_def)

lemma prefix_py_take: "prefix (py_take n s) s"
  by (induction n s rule: py_take.induct) simp_all

lemma py_len_Cons:
  "py_len (c # cs) = (if 0x80 \<le> (of_char c :: nat) \<and> (of_char c :: nat) < 0xC0 then py_len cs
     else Suc (py_len cs))"
  by (simp add: py_len_def)

lemma py_len_Nil [simp]: "py_len [] = 0"
  by (simp add: py_len_def)

lemma py_len_take: "py_len (py_take n s) = min n (py_len s)"
  by (induction n s rule: py_take.induct) (auto simp: py_len_Cons)

lemma py_take_all: "py_len s \<le> n \<Longrightarrow> py_take n s = s"
  by (induction n s rule: py_take.induct) (auto simp: py_len_Cons split: if_splits)

end
