(* ===== verification/PyIO.thy ===== *)
theory PyIO
  imports PyValues
begin

text \<open>
  Effectful Python code as world-passing functions with exceptions.

  A program of type \<open>('w, 'a) io\<close> takes the world, returns normally (\<open>Ret x\<close>) or by an
  exception (\<open>Exc e\<close>), and returns the new world. The world of the programs that run on a
  host (\<open>world\<close>) holds the file system the process sees, an abstract state \<open>host\<close> of
  everything outside the process (hypervisor, ZooKeeper, Zabbix, policy store), and the list
  \<open>calls\<close> of the calls the process has made to code outside the repository, oldest first.
  \<open>ext c f\<close> is such a call: \<open>f\<close> is an arbitrary function supplied as a parameter of
  the model, which may change files and host but not the record of calls.

  \<open>emits P f\<close> states that every external call \<open>f\<close> makes, from any world, satisfies
  \<open>P\<close>; the collection \<open>emits_intros\<close> proves it along the structure of the code.
\<close>

section \<open>Actions\<close>

type_synonym ('w, 'a) io = "'w \<Rightarrow> 'a res \<times> 'w"

definition ret :: "'a \<Rightarrow> ('w, 'a) io" where
  "ret x = (\<lambda>w. (Ret x, w))"

definition raise :: "exn \<Rightarrow> ('w, 'a) io" where
  "raise e = (\<lambda>w. (Exc e, w))"

definition lift_res :: "'a res \<Rightarrow> ('w, 'a) io" where
  "lift_res r = (\<lambda>w. (r, w))"

definition gets :: "('w \<Rightarrow> 'a) \<Rightarrow> ('w, 'a) io" where
  "gets f = (\<lambda>w. (Ret (f w), w))"

definition bnd :: "('w, 'a) io \<Rightarrow> ('a \<Rightarrow> ('w, 'b) io) \<Rightarrow> ('w, 'b) io" where
  "bnd f g = (\<lambda>w. case f w of (Ret x, w') \<Rightarrow> g x w' | (Exc e, w') \<Rightarrow> (Exc e, w'))"

definition sq :: "('w, 'a) io \<Rightarrow> ('w, 'b) io \<Rightarrow> ('w, 'b) io" where
  "sq f g = bnd f (\<lambda>_. g)"

text \<open>\<open>try: f except C as e: h(e)\<close>, where \<open>p\<close> tests whether \<open>e\<close> is a \<open>C\<close>.\<close>

definition try_except ::
  "('w, 'a) io \<Rightarrow> (exn \<Rightarrow> bool) \<Rightarrow> (exn \<Rightarrow> ('w, 'a) io) \<Rightarrow> ('w, 'a) io" where
  "try_except f p h =
     (\<lambda>w. case f w of (Ret x, w') \<Rightarrow> (Ret x, w')
          | (Exc e, w') \<Rightarrow> if p e then h e w' else (Exc e, w'))"

text \<open>\<open>try: f except C as e: h(e) else: k(x)\<close>, where the \<open>except\<close> clause leaves
  the enclosing function: exceptions of \<open>k\<close> are not caught.\<close>

definition try_else ::
  "('w, 'a) io \<Rightarrow> (exn \<Rightarrow> bool) \<Rightarrow> (exn \<Rightarrow> ('w, 'b) io) \<Rightarrow> ('a \<Rightarrow> ('w, 'b) io) \<Rightarrow> ('w, 'b) io" where
  "try_else f p h k =
     (\<lambda>w. case f w of (Ret x, w') \<Rightarrow> k x w'
          | (Exc e, w') \<Rightarrow> if p e then h e w' else (Exc e, w'))"

text \<open>Python's \<open>if c: f\<close> without an \<open>else\<close>.\<close>

definition if_then :: "bool \<Rightarrow> ('w, unit) io \<Rightarrow> ('w, unit) io" where
  "if_then c f = (if c then f else ret ())"

section \<open>The world of a process\<close>

datatype fnode = RegularFile string | UnreadableFile | Directory

type_synonym fsys = "string \<rightharpoonup> fnode"

datatype call =
    GetBinPath string
  | RunCommand string
  | FailJson kwargs
  | ExitJson kwargs
  | Popen "string list"
  | LibCall string "pyval list"

record 'h world =
  files :: fsys
  host :: 'h
  calls :: "call list"

type_synonym ('h, 'a) outside = "fsys \<times> 'h \<Rightarrow> 'a res \<times> (fsys \<times> 'h)"

definition after_call ::
  "('h, 'z) world_scheme \<Rightarrow> call \<Rightarrow> fsys \<times> 'h \<Rightarrow> ('h, 'z) world_scheme" where
  "after_call w c s = w\<lparr>files := fst s, host := snd s, calls := calls w @ [c]\<rparr>"

definition ext :: "call \<Rightarrow> ('h, 'a) outside \<Rightarrow> (('h, 'z) world_scheme, 'a) io" where
  "ext c f = (\<lambda>w. case f (files w, host w) of (r, s) \<Rightarrow> (r, after_call w c s))"

text \<open>\<open>os.path.isfile\<close>, \<open>os.path.exists\<close>, \<open>open(p).read()\<close> and
  \<open>open(p, 'w').write(s)\<close>.\<close>

definition os_path_isfile :: "string \<Rightarrow> (('h, 'z) world_scheme, bool) io" where
  "os_path_isfile p = (\<lambda>w. (Ret (case files w p of
     Some (RegularFile _) \<Rightarrow> True | Some UnreadableFile \<Rightarrow> True | _ \<Rightarrow> False), w))"

definition os_path_exists :: "string \<Rightarrow> (('h, 'z) world_scheme, bool) io" where
  "os_path_exists p = (\<lambda>w. (Ret (files w p \<noteq> None), w))"

definition read_file :: "string \<Rightarrow> (('h, 'z) world_scheme, string) io" where
  "read_file p = (\<lambda>w. (case files w p of
       Some (RegularFile s) \<Rightarrow> Ret s
     | Some UnreadableFile \<Rightarrow> Exc (IOError (''[Errno 13] Permission denied: '' @ quoted p))
     | Some Directory \<Rightarrow> Exc (IOError (''[Errno 21] Is a directory: '' @ quoted p))
     | None \<Rightarrow> Exc (IOError (''[Errno 2] No such file or directory: '' @ quoted p)), w))"

definition write_file ::
  "(string \<Rightarrow> bool) \<Rightarrow> string \<Rightarrow> string \<Rightarrow> (('h, 'z) world_scheme, unit) io" where
  "write_file writable p s = (\<lambda>w. case files w p of
       Some Directory \<Rightarrow> (Exc (IOError (''[Errno 21] Is a directory: '' @ quoted p)), w)
     | _ \<Rightarrow> if writable p then (Ret (), w\<lparr>files := (files w)(p \<mapsto> RegularFile s)\<rparr>)
           else (Exc (IOError (''[Errno 13] Permission denied: '' @ quoted p)), w))"

section \<open>Services of the interpreter\<close>

text \<open>The JSON decoder, \<open>repr\<close>, and \<open>hashlib.sha1(s).hexdigest()\<close>, which raises a
  \<open>TypeError\<close> for text under Python 3, are parameters: nothing below depends on which
  decoder, representation or digest is used.\<close>

record pyrt =
  rt_loads :: "string \<Rightarrow> pyval res"
  rt_repr :: "pyval \<Rightarrow> string"
  rt_sha1 :: "string \<Rightarrow> string res"

abbreviation fmt_s :: "pyrt \<Rightarrow> pyval \<Rightarrow> string" where
  "fmt_s rt v \<equiv> py_str (rt_repr rt) v"

fun path_of :: "pyval \<Rightarrow> string res" where
  "path_of (PStr s) = Ret s"
| "path_of v = Exc (TypeError ''path should be a string'')"

fun str_of :: "pyval \<Rightarrow> string" where
  "str_of (PStr s) = s"
| "str_of v = []"

section \<open>Laws of the actions\<close>

lemma ret_app [io_simps]: "ret x w = (Ret x, w)"
  by (simp add: ret_def)

lemma raise_app [io_simps]: "raise e w = (Exc e, w)"
  by (simp add: raise_def)

lemma gets_app [io_simps]: "gets f w = (Ret (f w), w)"
  by (simp add: gets_def)

lemma lift_res_app [io_simps]: "lift_res r w = (r, w)"
  by (simp add: lift_res_def)

lemma bnd_app [io_simps]:
  "bnd f g w = (case f w of (Ret x, w') \<Rightarrow> g x w' | (Exc e, w') \<Rightarrow> (Exc e, w'))"
  by (simp add: bnd_def)

lemma sq_app [io_simps]:
  "sq f g w = (case f w of (Ret x, w') \<Rightarrow> g w' | (Exc e, w') \<Rightarrow> (Exc e, w'))"
  by (simp add: sq_def bnd_def)

lemma try_except_app [io_simps]:
  "try_except f p h w =
     (case f w of (Ret x, w') \<Rightarrow> (Ret x, w')
      | (Exc e, w') \<Rightarrow> if p e then h e w' else (Exc e, w'))"
  by (simp add: try_except_def)

lemma try_else_app [io_simps]:
  "try_else f p h k w =
     (case f w of (Ret x, w') \<Rightarrow> k x w'
      | (Exc e, w') \<Rightarrow> if p e then h e w' else (Exc e, w'))"
  by (simp add: try_else_def)

lemma if_then_app [io_simps]: "if_then c f w = (if c then f w else (Ret (), w))"
  by (simp add: if_then_def ret_def)

lemma after_call_simps [simp]:
  "files (after_call w c s) = fst s"
  "host (after_call w c s) = snd s"
  "calls (after_call w c s) = calls w @ [c]"
  by (simp_all add: after_call_def)

lemma ext_app [io_simps]:
  "ext c f w = (fst (f (files w, host w)), after_call w c (snd (f (files w, host w))))"
  by (simp add: ext_def split: prod.splits)

lemma os_path_exists_app [io_simps]:
  "os_path_exists p w = (Ret (files w p \<noteq> None), w)"
  by (simp add: os_path_exists_def)

lemma bnd_ret [simp]: "bnd (ret x) g = g x"
  by (simp add: bnd_def ret_def)

lemma bnd_raise [simp]: "bnd (raise e) g = raise e"
  by (simp add: bnd_def raise_def)

lemma bnd_assoc: "bnd (bnd f g) h = bnd f (\<lambda>x. bnd (g x) h)"
  by (rule HOL.ext) (auto simp: io_simps split: prod.splits res.splits)

lemma sq_ret [simp]: "sq (ret x) g = g"
  by (simp add: sq_def)

lemma sq_raise [simp]: "sq (raise e) g = raise e"
  by (simp add: sq_def)

lemma try_except_ret [simp]: "try_except (ret x) p h = ret x"
  by (simp add: try_except_def ret_def)

section \<open>Bounding the external calls\<close>

definition emits :: "(call \<Rightarrow> bool) \<Rightarrow> (('h, 'z) world_scheme, 'a) io \<Rightarrow> bool" where
  "emits P f = (\<forall>w. \<exists>cs. calls (snd (f w)) = calls w @ cs \<and> (\<forall>c \<in> set cs. P c))"

lemma emitsI:
  "(\<And>w. \<exists>cs. calls (snd (f w)) = calls w @ cs \<and> (\<forall>c \<in> set cs. P c)) \<Longrightarrow> emits P f"
  by (simp add: emits_def)

lemma emitsD:
  assumes "emits P f" and "f w = (r, w')"
  obtains cs where "calls w' = calls w @ cs" and "\<forall>c \<in> set cs. P c"
  using assms unfolding emits_def by (metis snd_conv)

lemma emits_silent: "(\<And>w. snd (f w) = w) \<Longrightarrow> emits P f"
  by (rule emitsI) simp

lemma emits_ret [emits_intros]: "emits P (ret x)"
  by (rule emits_silent) (simp add: io_simps)

lemma emits_raise [emits_intros]: "emits P (raise e)"
  by (rule emits_silent) (simp add: io_simps)

lemma emits_gets [emits_intros]: "emits P (gets f)"
  by (rule emits_silent) (simp add: io_simps)

lemma emits_lift_res [emits_intros]: "emits P (lift_res r)"
  by (rule emits_silent) (simp add: io_simps)

lemma emits_isfile [emits_intros]: "emits P (os_path_isfile p)"
  by (rule emits_silent) (simp add: os_path_isfile_def)

lemma emits_exists [emits_intros]: "emits P (os_path_exists p)"
  by (rule emits_silent) (simp add: os_path_exists_def)

lemma emits_read_file [emits_intros]: "emits P (read_file p)"
  by (rule emits_silent) (simp add: read_file_def)

lemma emits_write_file [emits_intros]: "emits P (write_file ok p s)"
  by (rule emitsI) (auto simp: write_file_def split: option.splits fnode.splits)

lemma emits_ext [emits_intros]: "P c \<Longrightarrow> emits P (ext c f)"
  by (rule emitsI) (simp add: io_simps)

lemma emits_case_res:
  assumes "emits P f" and "\<And>x. emits P (g x)" and "\<And>e. emits P (h e)"
  shows "emits P (\<lambda>w. case f w of (Ret x, w') \<Rightarrow> g x w' | (Exc e, w') \<Rightarrow> h e w')"
proof (rule emitsI)
  fix w
  obtain r w' where f: "f w = (r, w')" by fastforce
  define k where "k = (case r of Ret x \<Rightarrow> g x | Exc e \<Rightarrow> h e)"
  have "emits P k"
    using assms(2,3) by (simp add: k_def split: res.splits)
  moreover obtain r2 w2 where k: "k w' = (r2, w2)" by fastforce
  ultimately obtain ds where "calls w2 = calls w' @ ds" "\<forall>c \<in> set ds. P c"
    by (rule emitsD)
  moreover obtain cs where "calls w' = calls w @ cs" "\<forall>c \<in> set cs. P c"
    using emitsD [OF assms(1) f] .
  moreover have "(case f w of (Ret x, w') \<Rightarrow> g x w' | (Exc e, w') \<Rightarrow> h e w') = (r2, w2)"
    using f k by (simp add: k_def split: res.splits)
  ultimately show "\<exists>cs. calls (snd (case f w of (Ret x, w') \<Rightarrow> g x w' | (Exc e, w') \<Rightarrow> h e w'))
      = calls w @ cs \<and> (\<forall>c \<in> set cs. P c)"
    by auto
qed

lemma emits_bnd [emits_intros]:
  "emits P f \<Longrightarrow> (\<And>x. emits P (g x)) \<Longrightarrow> emits P (bnd f g)"
  unfolding bnd_def by (rule emits_case_res) (auto simp: raise_def [symmetric] intro: emits_raise)

lemma emits_bnd_lift_res:
  "(\<And>x. r = Ret x \<Longrightarrow> emits P (g x)) \<Longrightarrow> emits P (bnd (lift_res r) g)"
  by (cases r) (auto simp: emits_def io_simps)

lemma emits_sq [emits_intros]: "emits P f \<Longrightarrow> emits P g \<Longrightarrow> emits P (sq f g)"
  unfolding sq_def by (rule emits_bnd)

lemma emits_try_except [emits_intros]:
  assumes "emits P f" and "\<And>e. emits P (h e)"
  shows "emits P (try_except f p h)"
proof -
  have eq: "try_except f p h =
      (\<lambda>w. case f w of (Ret x, w') \<Rightarrow> ret x w' | (Exc e, w') \<Rightarrow> (if p e then h e else raise e) w')"
    by (rule HOL.ext) (auto simp: io_simps split: prod.splits res.splits)
  show ?thesis
    unfolding eq
    by (rule emits_case_res [OF assms(1) emits_ret]) (simp add: assms(2) emits_raise)
qed

lemma emits_try_else [emits_intros]:
  assumes "emits P f" and "\<And>e. emits P (h e)" and "\<And>x. emits P (k x)"
  shows "emits P (try_else f p h k)"
proof -
  have eq: "try_else f p h k =
      (\<lambda>w. case f w of (Ret x, w') \<Rightarrow> k x w' | (Exc e, w') \<Rightarrow> (if p e then h e else raise e) w')"
    by (rule HOL.ext) (auto simp: io_simps split: prod.splits res.splits)
  show ?thesis
    unfolding eq by (rule emits_case_res [OF assms(1,3)]) (simp add: assms(2) emits_raise)
qed

lemma emits_if_then [emits_intros]: "(c \<Longrightarrow> emits P f) \<Longrightarrow> emits P (if_then c f)"
  by (simp add: if_then_def emits_ret)

lemma emits_if [emits_intros]:
  "(b \<Longrightarrow> emits P f) \<Longrightarrow> (\<not> b \<Longrightarrow> emits P g) \<Longrightarrow> emits P (if b then f else g)"
  by simp

lemma emits_case_option [emits_intros]:
  "(x = None \<Longrightarrow> emits P f) \<Longrightarrow> (\<And>y. x = Some y \<Longrightarrow> emits P (g y)) \<Longrightarrow>
   emits P (case x of None \<Rightarrow> f | Some y \<Rightarrow> g y)"
  by (cases x) auto

lemma emits_case_prod [emits_intros]:
  "(\<And>a b. x = (a, b) \<Longrightarrow> emits P (f a b)) \<Longrightarrow> emits P (case x of (a, b) \<Rightarrow> f a b)"
  by (cases x) auto

section \<open>Counting the external calls\<close>

text \<open>\<open>silent f\<close>: \<open>f\<close> makes no external call; \<open>once f\<close>: it makes at most one.\<close>

definition makes :: "nat \<Rightarrow> (('h, 'z) world_scheme, 'a) io \<Rightarrow> bool" where
  "makes n f = (\<forall>w. length (calls (snd (f w))) \<le> length (calls w) + n)"

abbreviation silent :: "(('h, 'z) world_scheme, 'a) io \<Rightarrow> bool" where
  "silent f \<equiv> makes 0 f"

abbreviation once :: "(('h, 'z) world_scheme, 'a) io \<Rightarrow> bool" where
  "once f \<equiv> makes 1 f"

named_theorems makes_intros

lemma makes_unchanged: "(\<And>w. calls (snd (f w)) = calls w) \<Longrightarrow> makes n f"
  by (simp add: makes_def)

lemma makes_pure [makes_intros]:
  "makes n (ret x)" "makes n (raise e)" "makes n (gets h)" "makes n (lift_res r)"
  by (simp_all add: makes_def io_simps)

lemma once_ext [makes_intros]: "once (ext c f)"
  by (simp add: makes_def io_simps)

lemma makes_case_res:
  assumes "makes a f" and "\<And>x. makes b (g x)" and "\<And>e. makes b (h e)"
  shows "makes (a + b) (\<lambda>w. case f w of (Ret x, w') \<Rightarrow> g x w' | (Exc e, w') \<Rightarrow> h e w')"
  unfolding makes_def
proof
  fix w
  obtain r w' where f: "f w = (r, w')" by (cases "f w") simp
  with assms(1) have w': "length (calls w') \<le> length (calls w) + a"
    unfolding makes_def by (metis snd_conv)
  define k where "k = (case r of Ret x \<Rightarrow> g x | Exc e \<Rightarrow> h e)"
  have "makes b k"
    using assms(2,3) by (simp add: k_def split: res.splits)
  then have "length (calls (snd (k w'))) \<le> length (calls w') + b"
    unfolding makes_def by blast
  moreover have "(case f w of (Ret x, w') \<Rightarrow> g x w' | (Exc e, w') \<Rightarrow> h e w') = k w'"
    using f by (simp add: k_def split: res.splits)
  ultimately show "length (calls (snd (case f w of (Ret x, w') \<Rightarrow> g x w' | (Exc e, w') \<Rightarrow> h e w')))
      \<le> length (calls w) + (a + b)"
    using w' by simp
qed

lemma makes_bnd: "makes a f \<Longrightarrow> (\<And>x. makes b (g x)) \<Longrightarrow> makes (a + b) (bnd f g)"
  unfolding bnd_def
  by (rule makes_case_res) (auto simp: raise_def [symmetric] intro: makes_pure)

lemma makes_try_except: "makes a f \<Longrightarrow> (\<And>e. makes b (h e)) \<Longrightarrow> makes (a + b) (try_except f p h)"
proof -
  assume f: "makes a f" and h: "\<And>e. makes b (h e)"
  have eq: "try_except f p h =
      (\<lambda>w. case f w of (Ret x, w') \<Rightarrow> ret x w' | (Exc e, w') \<Rightarrow> (if p e then h e else raise e) w')"
    by (rule HOL.ext) (auto simp: io_simps split: prod.splits res.splits)
  show ?thesis
    unfolding eq by (rule makes_case_res [OF f makes_pure(1)]) (simp add: h makes_pure)
qed

lemma makes_try_else:
  assumes "makes a f" and "\<And>e. makes b (h e)" and "\<And>x. makes b (k x)"
  shows "makes (a + b) (try_else f p h k)"
proof -
  have eq: "try_else f p h k =
      (\<lambda>w. case f w of (Ret x, w') \<Rightarrow> k x w' | (Exc e, w') \<Rightarrow> (if p e then h e else raise e) w')"
    by (rule HOL.ext) (auto simp: io_simps split: prod.splits res.splits)
  show ?thesis
    unfolding eq by (rule makes_case_res [OF assms(1,3)]) (simp add: assms(2) makes_pure)
qed

lemma makes_if [makes_intros]:
  "(b \<Longrightarrow> makes n f) \<Longrightarrow> (\<not> b \<Longrightarrow> makes n g) \<Longrightarrow> makes n (if b then f else g)"
  by simp

lemma makes_case_option [makes_intros]:
  "(x = None \<Longrightarrow> makes n f) \<Longrightarrow> (\<And>y. x = Some y \<Longrightarrow> makes n (g y)) \<Longrightarrow>
   makes n (case x of None \<Rightarrow> f | Some y \<Rightarrow> g y)"
  by (cases x) auto

lemma makes_case_prod [makes_intros]:
  "(\<And>a b. x = (a, b) \<Longrightarrow> makes n (f a b)) \<Longrightarrow> makes n (case x of (a, b) \<Rightarrow> f a b)"
  by (cases x) auto

text \<open>At most one of two steps makes the call.\<close>

lemma silent_bnd [makes_intros]: "silent f \<Longrightarrow> (\<And>x. silent (g x)) \<Longrightarrow> silent (bnd f g)"
  using makes_bnd [of 0 f 0 g] by simp

lemma silent_try_else:
  "silent f \<Longrightarrow> (\<And>e. once (h e)) \<Longrightarrow> (\<And>x. once (k x)) \<Longrightarrow> once (try_else f p h k)"
  using makes_try_else [of 0 f 1 h k p] by simp

lemma once_then_silent: "once f \<Longrightarrow> (\<And>x. silent (g x)) \<Longrightarrow> once (bnd f g)"
  using makes_bnd [of 1 f 0 g] by simp

lemma silent_then_once: "silent f \<Longrightarrow> (\<And>x. once (g x)) \<Longrightarrow> once (bnd f g)"
  using makes_bnd [of 0 f 1 g] by simp

lemma once_except_silent: "once f \<Longrightarrow> (\<And>e. silent (h e)) \<Longrightarrow> once (try_except f p h)"
  using makes_try_except [of 1 f 0 h p] by simp

end
