(* ===== verification/Ansible.thy ===== *)
theory Ansible
  imports PyIO
begin

text \<open>
  The interface between the Ansible modules of the repository (\<open>vmadm\<close>, \<open>imgadm\<close>,
  \<open>zabbix\<close>, \<open>zabbix_template\<close>, \<open>selinux_permissive\<close>) and the class
  \<open>AnsibleModule\<close>, which is not part of the repository.

  An \<open>ansible_module\<close> record is a parameter of every module: the validated parameters, the
  check-mode flag, and the methods the modules call, as arbitrary functions. What the modules rely
  on is stated in two named hypotheses, both documented behaviour of Ansible:
  \<^item> \<open>ansible_contract\<close>: \<open>fail_json\<close> ends the process with status 1 and
    \<open>exit_json\<close> with status 0;
  \<^item> \<open>conforms\<close>: the parameters satisfy the \<open>argument_spec\<close>.

  The locale \<open>ansible_program\<close> is the contract of a module's \<open>main\<close>: it never returns
  to its caller and reports at most once. Each module interprets it.
\<close>

section \<open>Argument specifications\<close>

datatype argtype = TStr | TBool | TInt | TDict | TList

record argument =
  arg_name :: string
  arg_type :: argtype
  arg_required :: bool
  arg_default :: pyval
  arg_choices :: "pyval list"

fun has_type :: "argtype \<Rightarrow> pyval \<Rightarrow> bool" where
  "has_type TStr (PStr s) = True"
| "has_type TBool (PBool b) = True"
| "has_type TInt (PInt i) = True"
| "has_type TDict (PDict d) = True"
| "has_type TList (PList l) = True"
| "has_type _ _ = False"

definition given :: "pydict \<Rightarrow> string \<Rightarrow> bool" where
  "given p k = (dict_get p k \<noteq> None \<and> dict_get p k \<noteq> Some PNone)"

text \<open>What \<open>AnsibleModule(argument_spec = ..., mutually_exclusive = ...)\<close> guarantees about
  \<open>module.params\<close>: every specified name is present; its value has the type and lies among
  the choices, or is the default of an optional argument.\<close>

fun conforms_arg :: "pydict \<Rightarrow> argument \<Rightarrow> bool" where
  "conforms_arg p a =
     (case dict_get p (arg_name a) of
        None \<Rightarrow> False
      | Some v \<Rightarrow> (\<not> arg_required a \<and> v = arg_default a)
          \<or> (has_type (arg_type a) v \<and> (arg_choices a = [] \<or> v \<in> set (arg_choices a))))"

definition conforms :: "argument list \<Rightarrow> string list list \<Rightarrow> pydict \<Rightarrow> bool" where
  "conforms spec excl p =
     (list_all (conforms_arg p) spec
      \<and> list_all (\<lambda>ks. length (filter (given p) ks) \<le> 1) excl)"

section \<open>The module object\<close>

record 'h ansible_module =
  params :: pydict
  check_mode :: bool
  m_get_bin_path :: "string \<Rightarrow> ('h, string) outside"
  m_run_command :: "string \<Rightarrow> ('h, int \<times> string \<times> string) outside"
  m_fail_json :: "kwargs \<Rightarrow> ('h, unit) outside"
  m_exit_json :: "kwargs \<Rightarrow> ('h, unit) outside"

definition get_bin_path :: "'h ansible_module \<Rightarrow> string \<Rightarrow> ('h world, string) io" where
  "get_bin_path m name = ext (GetBinPath name) (m_get_bin_path m name)"

definition run_command ::
  "'h ansible_module \<Rightarrow> string \<Rightarrow> ('h world, int \<times> string \<times> string) io" where
  "run_command m cmd = ext (RunCommand cmd) (m_run_command m cmd)"

definition fail_json :: "'h ansible_module \<Rightarrow> kwargs \<Rightarrow> ('h world, unit) io" where
  "fail_json m kw = ext (FailJson kw) (m_fail_json m kw)"

definition exit_json :: "'h ansible_module \<Rightarrow> kwargs \<Rightarrow> ('h world, unit) io" where
  "exit_json m kw = ext (ExitJson kw) (m_exit_json m kw)"

text \<open>\<open>module.fail_json(msg = s)\<close>.\<close>

definition fail_msg :: "'h ansible_module \<Rightarrow> string \<Rightarrow> ('h world, unit) io" where
  "fail_msg m s = fail_json m [(''msg'', PStr s)]"

text \<open>\<open>p[k]\<close> and \<open>p.get(k, d)\<close>.\<close>

definition param :: "'h ansible_module \<Rightarrow> string \<Rightarrow> ('h world, pyval) io" where
  "param m k = lift_res (py_getitem (PDict (params m)) k)"

definition param_get :: "'h ansible_module \<Rightarrow> string \<Rightarrow> pyval \<Rightarrow> pyval" where
  "param_get m k d = (case dict_get (params m) k of None \<Rightarrow> d | Some v \<Rightarrow> v)"

definition ansible_contract :: "'h ansible_module \<Rightarrow> bool" where
  "ansible_contract m =
     (\<forall>kw s. m_fail_json m kw s = (Exc (SystemExit 1), s)
           \<and> m_exit_json m kw s = (Exc (SystemExit 0), s))"

abbreviation msg_fail :: "string \<Rightarrow> call" where
  "msg_fail s \<equiv> FailJson [(''msg'', PStr s)]"

section \<open>Reporting discipline\<close>

fun is_report :: "call \<Rightarrow> bool" where
  "is_report (FailJson _) = True"
| "is_report (ExitJson _) = True"
| "is_report _ = False"

fun report_status :: "call \<Rightarrow> int" where
  "report_status (FailJson _) = 1"
| "report_status _ = 0"

text \<open>\<open>disc w r w'\<close>: between \<open>w\<close> and \<open>w'\<close> nothing was reported, or the last
  call, and only that one, was a report and the process left with its status.\<close>

definition disc :: "('h, 'z) world_scheme \<Rightarrow> 'a res \<Rightarrow> ('h, 'z) world_scheme \<Rightarrow> bool" where
  "disc w r w' = (\<exists>cs. calls w' = calls w @ cs \<and>
     (filter is_report cs = [] \<or>
      (\<exists>pre c. cs = pre @ [c] \<and> filter is_report pre = [] \<and> is_report c
             \<and> r = Exc (SystemExit (report_status c)))))"

definition disciplined :: "(('h, 'z) world_scheme, 'a) io \<Rightarrow> bool" where
  "disciplined f = (\<forall>w. disc w (fst (f w)) (snd (f w)))"

definition never_returns :: "('w, 'a) io \<Rightarrow> bool" where
  "never_returns f = (\<forall>w. \<exists>e. fst (f w) = Exc e)"

named_theorems disc_intros
named_theorems ends_intros

lemma disc_trans: "disc w (Ret x) w' \<Longrightarrow> disc w' r w'' \<Longrightarrow> disc w r w''"
  unfolding disc_def by fastforce

lemma disc_refl: "disc w r w"
  unfolding disc_def by simp

lemma disc_Exc_cast: "disc w (Exc e :: 'a res) w' \<Longrightarrow> disc w (Exc e :: 'b res) w'"
  unfolding disc_def by simp

lemma disciplined_case_res:
  fixes f :: "(('h, 'z) world_scheme, 'a) io"
  assumes "disciplined f" and "\<And>x. disciplined (g x)"
    and "\<And>e. (\<And>w w'. disc w (Exc e :: 'a res) w' \<Longrightarrow> disc w (fst (h e w')) (snd (h e w')))"
  shows "disciplined (\<lambda>w. case f w of (Ret x, w') \<Rightarrow> g x w' | (Exc e, w') \<Rightarrow> h e w')"
  unfolding disciplined_def
proof
  fix w
  obtain r w' where f: "f w = (r, w')" by fastforce
  with assms(1) have d: "disc w r w'"
    unfolding disciplined_def by (metis fst_conv snd_conv)
  show "disc w (fst (case f w of (Ret x, w') \<Rightarrow> g x w' | (Exc e, w') \<Rightarrow> h e w'))
       (snd (case f w of (Ret x, w') \<Rightarrow> g x w' | (Exc e, w') \<Rightarrow> h e w'))"
  proof (cases r)
    case (Ret x)
    with f d assms(2) [of x] show ?thesis
      by (auto simp: disciplined_def intro: disc_trans)
  next
    case (Exc e)
    with f d assms(3) show ?thesis by simp
  qed
qed

lemma disciplined_ret [disc_intros]: "disciplined (ret x)"
  by (simp add: disciplined_def io_simps disc_refl)

lemma disciplined_raise [disc_intros]: "disciplined (raise e)"
  by (simp add: disciplined_def io_simps disc_refl)

lemma disciplined_silent: "(\<And>w. calls (snd (f w)) = calls w) \<Longrightarrow> disciplined f"
  by (simp add: disciplined_def disc_def)

lemma disciplined_lift_res [disc_intros]: "disciplined (lift_res r)"
  by (rule disciplined_silent) (simp add: io_simps)

lemma disciplined_ext: "\<not> is_report c \<Longrightarrow> disciplined (ext c f)"
  by (simp add: disciplined_def disc_def io_simps)

lemma disciplined_bnd [disc_intros]:
  assumes "disciplined f" and "\<And>x. disciplined (g x)"
  shows "disciplined (bnd f g)"
  unfolding bnd_def by (rule disciplined_case_res [OF assms]) (auto intro: disc_Exc_cast)

lemma disciplined_sq [disc_intros]: "disciplined f \<Longrightarrow> disciplined g \<Longrightarrow> disciplined (sq f g)"
  unfolding sq_def by (rule disciplined_bnd)

lemma disciplined_if [disc_intros]:
  "(b \<Longrightarrow> disciplined f) \<Longrightarrow> (\<not> b \<Longrightarrow> disciplined g) \<Longrightarrow> disciplined (if b then f else g)"
  by simp

lemma disciplined_if_then [disc_intros]: "(b \<Longrightarrow> disciplined f) \<Longrightarrow> disciplined (if_then b f)"
  by (simp add: if_then_def disciplined_ret)

lemma disciplined_case_option [disc_intros]:
  "(x = None \<Longrightarrow> disciplined f) \<Longrightarrow> (\<And>y. x = Some y \<Longrightarrow> disciplined (g y)) \<Longrightarrow>
   disciplined (case x of None \<Rightarrow> f | Some y \<Rightarrow> g y)"
  by (cases x) auto

lemma disciplined_case_prod [disc_intros]:
  "(\<And>a b. x = (a, b) \<Longrightarrow> disciplined (f a b)) \<Longrightarrow> disciplined (case x of (a, b) \<Rightarrow> f a b)"
  by (cases x) auto

text \<open>An \<open>except\<close> clause keeps the discipline when it does not catch \<open>SystemExit\<close>, or
  when its body reports nothing.\<close>

lemma disciplined_try_except [disc_intros]:
  fixes f :: "(('h, 'z) world_scheme, 'a) io"
  assumes "disciplined f" and "\<And>e. disciplined (h e)" and "\<And>n. \<not> p (SystemExit n)"
  shows "disciplined (try_except f p h)"
proof -
  have eq: "try_except f p h =
      (\<lambda>w. case f w of (Ret x, w') \<Rightarrow> ret x w' | (Exc e, w') \<Rightarrow> (if p e then h e else raise e) w')"
    by (rule HOL.ext) (auto simp: io_simps split: prod.splits res.splits)
  have trans: "disc w r w''" if "disc w (Exc e :: 'a res) w'" "p e" "disc w' r w''"
    for w w' w'' e and r :: "'a res"
    using that assms(3) unfolding disc_def by fastforce
  show ?thesis
    unfolding eq using assms(2)
    by (intro disciplined_case_res [OF assms(1) disciplined_ret])
      (auto simp: io_simps disciplined_def intro: trans)
qed

lemma disciplined_try_quiet:
  fixes f :: "(('h, 'z) world_scheme, 'a) io"
  assumes "emits (\<lambda>c. \<not> is_report c) f" and "\<And>e. disciplined (h e)"
  shows "disciplined (try_except f p h)"
  unfolding disciplined_def
proof
  fix w
  obtain r w' where f: "f w = (r, w')" by (cases "f w") simp
  from assms(1) f obtain cs where cs: "calls w' = calls w @ cs" "\<forall>c \<in> set cs. \<not> is_report c"
    by (rule emitsD)
  have trans: "disc w x w''" if "disc w' x w''" for x :: "'a res" and w''
    using that cs unfolding disc_def by (fastforce simp: filter_empty_conv)
  show "disc w (fst (try_except f p h w)) (snd (try_except f p h w))"
    using f assms(2) trans [OF disc_refl]
    by (auto simp: io_simps disciplined_def intro: trans split: res.split)
qed

lemma disciplined_try_ext [disc_intros]:
  "\<not> is_report c \<Longrightarrow> (\<And>e. disciplined (h e)) \<Longrightarrow> disciplined (try_except (ext c f) p h)"
  by (intro disciplined_try_quiet emits_ext)

lemma disciplined_get_bin_path [disc_intros]: "disciplined (get_bin_path m n)"
  unfolding get_bin_path_def by (rule disciplined_ext) simp

lemma disciplined_run_command [disc_intros]: "disciplined (run_command m n)"
  unfolding run_command_def by (rule disciplined_ext) simp

lemma disciplined_param [disc_intros]: "disciplined (param m k)"
  unfolding param_def by (rule disciplined_lift_res)

lemma disciplined_isfile [disc_intros]: "disciplined (os_path_isfile p)"
  by (rule disciplined_silent) (simp add: os_path_isfile_def)

lemma disciplined_exists [disc_intros]: "disciplined (os_path_exists p)"
  by (rule disciplined_silent) (simp add: os_path_exists_def)

lemma disciplined_read_file [disc_intros]: "disciplined (read_file p)"
  by (rule disciplined_silent) (simp add: read_file_def)

lemma disciplined_write_file [disc_intros]: "disciplined (write_file ok p s)"
  by (rule disciplined_silent) (simp add: write_file_def split: option.splits fnode.splits)

lemma disciplined_fail_json [disc_intros]: "ansible_contract m \<Longrightarrow> disciplined (fail_json m kw)"
  by (simp add: disciplined_def disc_def fail_json_def io_simps ansible_contract_def)

lemma disciplined_exit_json [disc_intros]: "ansible_contract m \<Longrightarrow> disciplined (exit_json m kw)"
  by (simp add: disciplined_def disc_def exit_json_def io_simps ansible_contract_def)

lemma disciplined_fail_msg [disc_intros]: "ansible_contract m \<Longrightarrow> disciplined (fail_msg m s)"
  unfolding fail_msg_def by (rule disciplined_fail_json)

section \<open>Code that never returns\<close>

lemma ends_raise [ends_intros]: "never_returns (raise e)"
  by (simp add: never_returns_def io_simps)

lemma ends_fail_json [ends_intros]: "ansible_contract m \<Longrightarrow> never_returns (fail_json m kw)"
  by (simp add: never_returns_def fail_json_def io_simps ansible_contract_def)

lemma ends_exit_json [ends_intros]: "ansible_contract m \<Longrightarrow> never_returns (exit_json m kw)"
  by (simp add: never_returns_def exit_json_def io_simps ansible_contract_def)

lemma ends_fail_msg [ends_intros]: "ansible_contract m \<Longrightarrow> never_returns (fail_msg m s)"
  unfolding fail_msg_def by (rule ends_fail_json)

lemma ends_bnd [ends_intros]: "(\<And>x. never_returns (g x)) \<Longrightarrow> never_returns (bnd f g)"
  by (auto simp: never_returns_def io_simps split: prod.splits res.splits)

lemma ends_sq [ends_intros]: "never_returns g \<Longrightarrow> never_returns (sq f g)"
  unfolding sq_def by (rule ends_bnd)

lemma ends_if [ends_intros]:
  "never_returns f \<Longrightarrow> never_returns g \<Longrightarrow> never_returns (if b then f else g)"
  by simp

lemma ends_case_prod [ends_intros]:
  "(\<And>a b. never_returns (f a b)) \<Longrightarrow> never_returns (case x of (a, b) \<Rightarrow> f a b)"
  by (cases x) auto

text \<open>What follows a guard whose body never returns runs only when the guard is false.\<close>

lemma emits_guard:
  assumes "b \<Longrightarrow> never_returns f \<and> emits P f" and "\<not> b \<Longrightarrow> emits P g"
  shows "emits P (sq (if_then b f) g)"
proof (cases b)
  case True
  with assms(1) have f: "never_returns f" "emits P f" by simp_all
  have "calls (snd (sq f g w)) = calls (snd (f w))" for w
    using f(1) unfolding never_returns_def
    by (drule_tac x = w in spec) (auto simp: io_simps split: prod.splits)
  with f(2) True show ?thesis
    by (simp add: emits_def if_then_def)
qed (simp add: assms(2) if_then_def sq_def)

lemma emits_fail_msg: "P (msg_fail s) \<Longrightarrow> emits P (fail_msg m s)"
  by (simp add: fail_msg_def fail_json_def emits_ext)

lemma emits_exit_json: "P (ExitJson kw) \<Longrightarrow> emits P (exit_json m kw)"
  by (simp add: exit_json_def emits_ext)

lemma emits_param [emits_intros]: "emits P (param m k)"
  unfolding param_def by (rule emits_lift_res)

lemmas ansible_defs = get_bin_path_def run_command_def fail_json_def exit_json_def fail_msg_def
  param_def

lemma contract_fail [io_simps]:
  "ansible_contract m \<Longrightarrow> m_fail_json m kw s = (Exc (SystemExit 1), s)"
  unfolding ansible_contract_def by blast

lemma contract_exit [io_simps]:
  "ansible_contract m \<Longrightarrow> m_exit_json m kw s = (Exc (SystemExit 0), s)"
  unfolding ansible_contract_def by blast

lemma fail_msg_app:
  "ansible_contract m \<Longrightarrow>
   fail_msg m s w = (Exc (SystemExit 1), after_call w (msg_fail s) (files w, host w))"
  by (simp add: fail_msg_def fail_json_def io_simps)

lemma exit_json_app:
  "ansible_contract m \<Longrightarrow>
   exit_json m kw w = (Exc (SystemExit 0), after_call w (ExitJson kw) (files w, host w))"
  by (simp add: exit_json_def io_simps)

lemma has_type_TStr [simp]: "has_type TStr v \<longleftrightarrow> (\<exists>s. v = PStr s)"
  by (cases v) auto

lemma has_type_TBool [simp]: "has_type TBool v \<longleftrightarrow> (\<exists>b. v = PBool b)"
  by (cases v) auto

section \<open>The contract of a module's main function\<close>

locale ansible_program =
  fixes main :: "'h ansible_module \<Rightarrow> ('h world, unit) io"
  assumes main_disciplined: "ansible_contract m \<Longrightarrow> disciplined (main m)"
    and main_ends: "ansible_contract m \<Longrightarrow> never_returns (main m)"
begin

text \<open>The process ends, and its exit status agrees with the one report it makes; if it makes
  none, it was ended by an exception of its own or of a callee.\<close>

lemma main_outcome:
  assumes "ansible_contract m"
  shows "\<exists>e cs. fst (main m w) = Exc e \<and> calls (snd (main m w)) = calls w @ cs \<and>
     (filter is_report cs = [] \<or>
      (\<exists>pre c. cs = pre @ [c] \<and> filter is_report pre = [] \<and> is_report c
             \<and> e = SystemExit (report_status c)))"
proof -
  from main_ends [OF assms] obtain e where "fst (main m w) = Exc e"
    unfolding never_returns_def by blast
  moreover from main_disciplined [OF assms] have "disc w (fst (main m w)) (snd (main m w))"
    by (simp add: disciplined_def)
  ultimately show ?thesis
    unfolding disc_def by auto
qed

lemma main_reports_le_1:
  assumes "ansible_contract m"
  shows "\<exists>cs. calls (snd (main m w)) = calls w @ cs \<and> length (filter is_report cs) \<le> 1"
  using main_outcome [OF assms, of w] by fastforce

end

end
