(* ===== verification/AnsiblePlay.thy ===== *)
theory AnsiblePlay
  imports Ansible
begin

text \<open>
  Plays: runs of a module one after the other against one outside. The locale \<open>play\<close> is what a module's
  theory promises: single runs implement the steps of a specification and keep what it needs of the
  outside; it gives the same for whole plays. \<open>VmadmPlay\<close>, \<open>TemplatePlay\<close> and \<open>ImgadmPlay\<close>
  interpret it.
\<close>

section \<open>Reports\<close>

datatype task_report = Changed | Unchanged | Failed

text \<open>The report of a run is its last call.\<close>

fun report_of :: "call \<Rightarrow> task_report" where
  "report_of (ExitJson kw) = (if dict_get kw ''changed'' = Some (PBool True) then Changed else Unchanged)"
| "report_of c = Failed"

fun play_runs ::
  "('h ansible_module \<Rightarrow> ('h world, unit) io) \<Rightarrow> 'h ansible_module list \<Rightarrow> 'h world
   \<Rightarrow> task_report list \<times> 'h world" where
  "play_runs main [] w = ([], w)"
| "play_runs main (m # ms) w =
     (let w1 = snd (main m w); (rs, w2) = play_runs main ms w1
      in (report_of (last (calls w1)) # rs, w2))"

section \<open>Steps\<close>

inductive task_steps ::
  "('t \<Rightarrow> 'h \<Rightarrow> task_report \<Rightarrow> 'h \<Rightarrow> bool) \<Rightarrow> 't list \<Rightarrow> 'h \<Rightarrow> task_report list \<Rightarrow> 'h \<Rightarrow> bool"
  for step where
  steps_Nil: "task_steps step [] h [] h"
| steps_Cons: "step t h r h' \<Longrightarrow> task_steps step ts h' rs h'' \<Longrightarrow> task_steps step (t # ts) h (r # rs) h''"

inductive_simps task_steps_simps [simp]:
  "task_steps step [] h rs h'" "task_steps step (t # ts) h rs h'"

lemma task_steps_last:
  assumes "\<And>t h r h'. step t h r h' \<Longrightarrow> okay h \<Longrightarrow> okay h' \<and> (r \<noteq> Failed \<longrightarrow> goal t h')"
  shows "task_steps step ts h rs h' \<Longrightarrow> okay h \<Longrightarrow>
    okay h' \<and> (ts = [] \<or> last rs = Failed \<or> goal (last ts) h')"
proof (induction rule: task_steps.induct)
  case (steps_Cons t h r h' ts rs h'')
  then show ?case
    using assms [OF steps_Cons(1)] by (cases ts) auto
qed simp

lemma task_steps_all2:
  "task_steps step ts h rs h' \<Longrightarrow> (\<And>t h r h'. t \<in> set ts \<Longrightarrow> step t h r h' \<Longrightarrow> P t r) \<Longrightarrow> list_all2 P ts rs"
  by (induction rule: task_steps.induct) auto

section \<open>The contract\<close>

locale play =
  fixes main :: "'h ansible_module \<Rightarrow> ('h world, unit) io"
    and asks :: "fsys \<Rightarrow> 'h ansible_module \<Rightarrow> 't \<Rightarrow> bool"
    and step :: "'t \<Rightarrow> 'h \<Rightarrow> task_report \<Rightarrow> 'h \<Rightarrow> bool"
    and okay :: "'h \<Rightarrow> bool"
  assumes runs: "asks (files w) m t \<Longrightarrow> okay (host w) \<Longrightarrow> snd (main m w) = w' \<Longrightarrow>
      files w' = files w \<and> step t (host w) (report_of (last (calls w'))) (host w')"
    and keeps: "step t h r h' \<Longrightarrow> okay h \<Longrightarrow> okay h'"
begin

lemma refines:
  "list_all2 (asks (files w)) ms ts \<Longrightarrow> okay (host w) \<Longrightarrow> play_runs main ms w = (rs, w') \<Longrightarrow>
   files w' = files w \<and> task_steps step ts (host w) rs (host w')"
proof (induction ms arbitrary: ts w rs)
  case (Cons m ms)
  obtain t ts' where ts: "ts = t # ts'" "asks (files w) m t" "list_all2 (asks (files w)) ms ts'"
    using Cons.prems(1) by (auto simp: list_all2_Cons1)
  obtain w1 where w1: "snd (main m w) = w1"
    by blast
  obtain rs' where rs: "rs = report_of (last (calls w1)) # rs'" "play_runs main ms w1 = (rs', w')"
    using Cons.prems(3) by (auto simp: w1 Let_def split: prod.splits)
  have step: "files w1 = files w" "step t (host w) (report_of (last (calls w1))) (host w1)"
    using runs [OF ts(2) Cons.prems(2) w1] by simp_all
  have "files w' = files w1 \<and> task_steps step ts' (host w1) rs' (host w')"
    using Cons.IH [OF _ _ rs(2)] ts(3) step(1) keeps [OF step(2) Cons.prems(2)] by simp
  with step show ?case
    by (auto simp: ts(1) rs(1))
qed simp

end

end
