(* ===== verification/Vmadm.thy ===== *)
theory Vmadm
  imports Ansible
begin

text \<open>
  The Ansible module \<open>ansible/library/vmadm.py\<close>: creating, starting, stopping, rebooting,
  deleting and updating SmartOS virtual machines through the command \<open>vmadm\<close>.

  Parameters of the model: the \<open>ansible_module\<close> record (with the hypervisor behind
  \<open>run_command\<close>) and the interpreter's services \<open>pyrt\<close>. Everything else is translated
  from the source.
\<close>

section \<open>Decoding with an object hook\<close>

text \<open>\<open>json.loads(s, object_hook = hook)\<close> passes every decoded object, innermost first, to
  the hook and uses the result in its place.\<close>

fun apply_hook :: "(pydict \<Rightarrow> pyval res) \<Rightarrow> pyval \<Rightarrow> pyval res"
  and apply_hook_list :: "(pydict \<Rightarrow> pyval res) \<Rightarrow> pyval list \<Rightarrow> pyval list res"
  and apply_hook_items :: "(pydict \<Rightarrow> pyval res) \<Rightarrow> pydict \<Rightarrow> pydict res" where
  "apply_hook hook (PList vs) = res_bind (apply_hook_list hook vs) (\<lambda>vs'. Ret (PList vs'))"
| "apply_hook hook (PDict d) = res_bind (apply_hook_items hook d) hook"
| "apply_hook hook v = Ret v"
| "apply_hook_list hook [] = Ret []"
| "apply_hook_list hook (v # vs) =
     res_bind (apply_hook hook v) (\<lambda>v'. res_bind (apply_hook_list hook vs) (\<lambda>vs'. Ret (v' # vs')))"
| "apply_hook_items hook [] = Ret []"
| "apply_hook_items hook ((k, v) # d) =
     res_bind (apply_hook hook v) (\<lambda>v'. res_bind (apply_hook_items hook d) (\<lambda>d'. Ret ((k, v') # d')))"

definition json_loads_hook ::
  "(string \<Rightarrow> pyval res) \<Rightarrow> (pydict \<Rightarrow> pyval res) \<Rightarrow> string \<Rightarrow> pyval res" where
  "json_loads_hook loads hook s = res_bind (loads s) (apply_hook hook)"

section \<open>The module\<close>

text \<open>The argument specification of \<open>main\<close>.\<close>

definition vmadm_spec :: "argument list" where
  "vmadm_spec =
     [\<lparr>arg_name = ''state'', arg_type = TStr, arg_required = True, arg_default = PNone,
       arg_choices = map PStr [''present'', ''absent'', ''rebooted'', ''started'', ''stopped'',
         ''updated'']\<rparr>,
      \<lparr>arg_name = ''uuid'', arg_type = TStr, arg_required = False, arg_default = PNone,
       arg_choices = []\<rparr>,
      \<lparr>arg_name = ''alias'', arg_type = TStr, arg_required = False, arg_default = PNone,
       arg_choices = []\<rparr>,
      \<lparr>arg_name = ''manifest'', arg_type = TStr, arg_required = False, arg_default = PNone,
       arg_choices = []\<rparr>,
      \<lparr>arg_name = ''proplist'', arg_type = TStr, arg_required = False, arg_default = PNone,
       arg_choices = []\<rparr>]"

definition vmadm_exclusive :: "string list list" where
  "vmadm_exclusive = [[''alias'', ''uuid''], [''proplist'', ''manifest'']]"

definition vmadm_check_subparam ::
  "'h ansible_module \<Rightarrow> string \<Rightarrow> string \<Rightarrow> ('h world, unit) io" where
  "vmadm_check_subparam m subparam state =
     if_then (\<not> truthy (param_get m subparam (PBool False)))
       (fail_msg m (subparam @ '' subparam required when state='' @ state))"

definition vmadm_alias_lookup ::
  "pyrt \<Rightarrow> 'h ansible_module \<Rightarrow> string \<Rightarrow> pyval \<Rightarrow> ('h world, pyval) io" where
  "vmadm_alias_lookup rt m vmadm_path vm_alias =
     bnd (run_command m (vmadm_path @ '' lookup alias='' @ fmt_s rt vm_alias))
       (\<lambda>(rc, so, se). ret (if so = [] then PNone else PStr so))"

text \<open>The loop of \<open>strip_keys_from_json\<close>. The iterator compares the size of the dictionary
  with the size \<open>n\<close> it started from before it yields the next key or stops.\<close>

fun strip_keys_loop :: "string list \<Rightarrow> nat \<Rightarrow> string list \<Rightarrow> pydict \<Rightarrow> pydict res" where
  "strip_keys_loop strip_keys n ks payload =
     (if length payload \<noteq> n
      then Exc (RuntimeError ''dictionary changed size during iteration'')
      else case ks of
          [] \<Rightarrow> Ret payload
        | key # ks' \<Rightarrow> strip_keys_loop strip_keys n ks'
            (if key \<in> set strip_keys then dict_del key payload else payload))"

declare strip_keys_loop.simps [simp del]

definition strip_keys_from_json :: "pydict \<Rightarrow> pyval res" where
  "strip_keys_from_json payload =
     res_bind (strip_keys_loop [''last_modified''] (length payload) (dict_keys payload) payload)
       (\<lambda>d. Ret (PDict d))"

definition vmadm_get_vm_json_description ::
  "pyrt \<Rightarrow> 'h ansible_module \<Rightarrow> string \<Rightarrow> pyval \<Rightarrow> ('h world, string) io" where
  "vmadm_get_vm_json_description rt m vmadm_path uuid =
     bnd (run_command m (vmadm_path @ '' get '' @ fmt_s rt uuid))
       (\<lambda>(rc, so, se).
          sq (if_then (rc \<noteq> 0) (fail_msg m
                (''vmadm_get_vm_json_description(): failed to get json description for uuid ''
                 @ fmt_s rt uuid)))
             (bnd (lift_res (json_loads_hook (rt_loads rt) strip_keys_from_json so))
                (\<lambda>v. ret (fmt_s rt v))))"

text \<open>If \<open>fail_json\<close> came back, the second \<open>try\<close> would find \<open>json_data\<close> unbound.\<close>

definition open_and_load_json_data ::
  "pyrt \<Rightarrow> 'h ansible_module \<Rightarrow> string \<Rightarrow> ('h world, pyval) io" where
  "open_and_load_json_data rt m manifest =
     bnd (try_except (bnd (read_file manifest) (\<lambda>s. ret (Some s))) is_IOError
            (\<lambda>exc. sq (fail_msg m (''could not open '' @ manifest @ '' for reading: '' @ exn_str exc))
                       (ret None)))
       (\<lambda>json_data. try_except
          (case json_data of
             None \<Rightarrow> raise (OtherException ''local variable json_data referenced before assignment'')
           | Some s \<Rightarrow> lift_res (rt_loads rt s)) is_Exception
          (\<lambda>exc. sq (fail_msg m (''could not parse json in manifest file: '' @ manifest
                                  @ '' ('' @ exn_str exc @ '')'')) (ret PNone)))"

text \<open>The variables \<open>rc\<close>, \<open>so\<close>, \<open>se\<close> and \<open>changed\<close> of \<open>main\<close>.\<close>

type_synonym outcome = "int \<times> string \<times> string \<times> bool"

text \<open>The branch \<open>state == 'present'\<close>.\<close>

definition vmadm_present ::
  "pyrt \<Rightarrow> 'h ansible_module \<Rightarrow> string \<Rightarrow> pyval \<Rightarrow> pyval \<Rightarrow> ('h world, outcome) io" where
  "vmadm_present rt m vmadm_path state manifest =
     sq (vmadm_check_subparam m ''manifest'' (fmt_s rt state))
     (bnd (lift_res (path_of manifest)) (\<lambda>mf.
      bnd (os_path_isfile mf) (\<lambda>found.
      sq (if_then (\<not> found) (fail_msg m (''could not locate manifest file: '' @ mf)))
     (bnd (open_and_load_json_data rt m mf) (\<lambda>data.
      bnd (try_except (bnd (lift_res (py_getitem data ''alias'')) (\<lambda>vm_alias. ret (Some vm_alias)))
             is_KeyError
             (\<lambda>e. sq (fail_msg m ''manifest file must provide an alias for the vm'') (ret None)))
        (\<lambda>x. case x of
            None \<Rightarrow> ret (1, [], [], False)
          | Some vm_alias \<Rightarrow>
              bnd (vmadm_alias_lookup rt m vmadm_path vm_alias) (\<lambda>vm.
                if \<not> truthy vm
                then bnd (run_command m (vmadm_path @ '' create -f '' @ mf))
                       (\<lambda>(rc, so, se). ret (rc, so, se, True))
                else ret (0, [], [], False))))))))"

definition vmadm_subcommand :: "string \<Rightarrow> string" where
  "vmadm_subcommand state =
     (if state = ''absent'' then ''delete''
      else py_replace ''opp'' ''op'' (py_strip_chars state ''ed''))"

text \<open>The branch \<open>state in ('started', 'stopped', 'rebooted', 'absent')\<close>.\<close>

definition vmadm_simple ::
  "pyrt \<Rightarrow> 'h ansible_module \<Rightarrow> string \<Rightarrow> pyval \<Rightarrow> pyval \<Rightarrow> ('h world, outcome) io" where
  "vmadm_simple rt m vmadm_path state uuid =
     bnd (run_command m (vmadm_path @ '' '' @ vmadm_subcommand (str_of state) @ '' '' @ fmt_s rt uuid))
       (\<lambda>(rc, so, se). ret (rc, so, se, py_find se ''Successfully'' = 0))"

text \<open>The branch \<open>state == 'updated'\<close>.\<close>

definition vmadm_updated ::
  "pyrt \<Rightarrow> 'h ansible_module \<Rightarrow> string \<Rightarrow> pyval \<Rightarrow> pyval \<Rightarrow> pyval \<Rightarrow> ('h world, outcome) io" where
  "vmadm_updated rt m vmadm_path uuid proplist manifest =
     sq (if_then (\<not> truthy proplist \<and> \<not> truthy manifest)
          (fail_msg m (''one of '' @ quoted ''manifest'' @ '' or '' @ quoted ''proplist''
                       @ '' required when state='' @ quoted ''updated'')))
     (bnd (vmadm_get_vm_json_description rt m vmadm_path uuid) (\<lambda>old.
      bnd (lift_res (rt_sha1 rt old)) (\<lambda>vm_json_hash.
      bnd (if truthy proplist
           then run_command m (vmadm_path @ '' update '' @ fmt_s rt uuid @ '' '' @ fmt_s rt proplist)
           else run_command m (vmadm_path @ '' update '' @ fmt_s rt uuid @ '' -f '' @ fmt_s rt manifest))
        (\<lambda>(rc, so, se).
      bnd (vmadm_get_vm_json_description rt m vmadm_path uuid) (\<lambda>new.
      bnd (lift_res (rt_sha1 rt new)) (\<lambda>vm_json_newhash.
        ret (if rc = 0
             then (if vm_json_hash = vm_json_newhash then (0, [], [], False) else (rc, so, se, True))
             else (rc, so, se, False))))))))"

text \<open>The common part of all states except \<open>present\<close>.\<close>

definition vmadm_other ::
  "pyrt \<Rightarrow> 'h ansible_module \<Rightarrow> string \<Rightarrow> pyval \<Rightarrow> pyval \<Rightarrow> pyval \<Rightarrow> pyval \<Rightarrow> pyval
   \<Rightarrow> ('h world, outcome) io" where
  "vmadm_other rt m vmadm_path state uuid0 alias manifest proplist =
     sq (if_then (\<not> truthy uuid0 \<and> \<not> truthy alias)
          (fail_msg m (''one of '' @ quoted ''alias'' @ '' or '' @ quoted ''uuid''
                       @ '' required when state is not '' @ quoted ''present'')))
     (bnd (if truthy alias
           then bnd (vmadm_alias_lookup rt m vmadm_path alias) (\<lambda>uuid.
                  sq (if_then (\<not> truthy uuid) (fail_msg m
                       (''could not locate a matching uuid for vm alias '' @ quoted (fmt_s rt alias))))
                     (ret uuid))
           else ret uuid0) (\<lambda>uuid.
        if state \<in> set (map PStr [''started'', ''stopped'', ''rebooted'', ''absent''])
        then vmadm_simple rt m vmadm_path state uuid
        else if state = PStr ''updated''
        then vmadm_updated rt m vmadm_path uuid proplist manifest
        else ret (1, [], [], False)))"

definition vmadm_finish :: "'h ansible_module \<Rightarrow> outcome \<Rightarrow> ('h world, unit) io" where
  "vmadm_finish m oc = (case oc of (rc, so, se, changed) \<Rightarrow>
     if rc \<noteq> 0 then fail_msg m se
     else exit_json m [(''changed'', PBool changed), (''msg'', PStr so)])"

definition vmadm_main :: "pyrt \<Rightarrow> 'h ansible_module \<Rightarrow> ('h world, unit) io" where
  "vmadm_main rt m =
     bnd (get_bin_path m ''vmadm'') (\<lambda>vmadm_path.
     bnd (param m ''state'') (\<lambda>state.
     bnd (param m ''uuid'') (\<lambda>uuid.
     bnd (param m ''alias'') (\<lambda>alias.
     bnd (param m ''manifest'') (\<lambda>manifest.
     bnd (param m ''proplist'') (\<lambda>proplist.
     bnd (if state = PStr ''present'' then vmadm_present rt m vmadm_path state manifest
          else vmadm_other rt m vmadm_path state uuid alias manifest proplist)
       (vmadm_finish m)))))))"

section \<open>The key stripping hook\<close>

abbreviation dict_resized :: exn where
  "dict_resized \<equiv> RuntimeError ''dictionary changed size during iteration''"

lemma strip_keys_loop_none:
  "set ks \<inter> set sk = {} \<Longrightarrow> strip_keys_loop sk (length d) ks d = Ret d"
  by (induction ks) (auto simp: strip_keys_loop.simps)

lemma strip_keys_loop_some:
  "set ks \<inter> set sk \<noteq> {} \<Longrightarrow> set ks \<subseteq> set (dict_keys d) \<Longrightarrow>
   strip_keys_loop sk (length d) ks d = Exc dict_resized"
proof (induction ks)
  case (Cons k ks)
  show ?case
  proof (cases "k \<in> set sk")
    case True
    with Cons.prems have "length (dict_del k d) < length d"
      by (auto intro: length_dict_del)
    with True show ?thesis
      by (simp add: strip_keys_loop.simps [of _ _ "k # ks"]
          strip_keys_loop.simps [of _ _ _ "dict_del k d"])
  next
    case False
    with Cons have "strip_keys_loop sk (length d) ks d = Exc dict_resized"
      by auto
    with False show ?thesis
      by (simp add: strip_keys_loop.simps [of _ _ "k # ks"])
  qed
qed simp

lemma strip_keys_cases [simp]:
  "strip_keys_from_json d =
     (if ''last_modified'' \<in> set (dict_keys d) then Exc dict_resized else Ret (PDict d))"
  by (simp add: strip_keys_from_json_def strip_keys_loop_none strip_keys_loop_some)

text \<open>Whether a key occurs in some object of a document.\<close>

fun mentions :: "string \<Rightarrow> pyval \<Rightarrow> bool"
  and mentions_list :: "string \<Rightarrow> pyval list \<Rightarrow> bool"
  and mentions_items :: "string \<Rightarrow> pydict \<Rightarrow> bool" where
  "mentions k (PList vs) = mentions_list k vs"
| "mentions k (PDict d) = (k \<in> set (dict_keys d) \<or> mentions_items k d)"
| "mentions k v = False"
| "mentions_list k [] = False"
| "mentions_list k (v # vs) = (mentions k v \<or> mentions_list k vs)"
| "mentions_items k [] = False"
| "mentions_items k ((k', v) # d) = (mentions k v \<or> mentions_items k d)"

lemma apply_hook_strip:
  "hook = strip_keys_from_json \<Longrightarrow> apply_hook hook v =
     (if mentions ''last_modified'' v then Exc dict_resized else Ret v)"
  "hook = strip_keys_from_json \<Longrightarrow> apply_hook_list hook vs =
     (if mentions_list ''last_modified'' vs then Exc dict_resized else Ret vs)"
  "hook = strip_keys_from_json \<Longrightarrow> apply_hook_items hook d =
     (if mentions_items ''last_modified'' d then Exc dict_resized else Ret d)"
  by (induction hook v and hook vs and hook d
      rule: apply_hook_apply_hook_list_apply_hook_items.induct) auto

lemma json_loads_strip:
  "json_loads_hook loads strip_keys_from_json s =
     res_bind (loads s) (\<lambda>v. if mentions ''last_modified'' v then Exc dict_resized else Ret v)"
  by (cases "loads s") (simp_all add: json_loads_hook_def apply_hook_strip)

section \<open>Sub-commands\<close>

lemma vmadm_subcommand_values [simp]:
  "vmadm_subcommand ''started'' = ''start''"
  "vmadm_subcommand ''stopped'' = ''stop''"
  "vmadm_subcommand ''rebooted'' = ''reboot''"
  "vmadm_subcommand ''absent'' = ''delete''"
  by (simp_all add: vmadm_subcommand_def py_strip_chars_def lstrip_with_def rstrip_with_def)

section \<open>Running main\<close>

lemma vmadm_conforms_cases:
  assumes "conforms vmadm_spec vmadm_exclusive (params m)"
  obtains st uu al mf pl where
    "dict_get (params m) ''state'' = Some (PStr st)"
    "st \<in> set [''present'', ''absent'', ''rebooted'', ''started'', ''stopped'', ''updated'']"
    "dict_get (params m) ''uuid'' = Some uu" "dict_get (params m) ''alias'' = Some al"
    "dict_get (params m) ''manifest'' = Some mf" "dict_get (params m) ''proplist'' = Some pl"
  using assms
  by (auto simp: conforms_def vmadm_spec_def split: option.splits)

lemma vmadm_main_run:
  assumes "conforms vmadm_spec vmadm_exclusive (params m)"
    and "m_get_bin_path m ''vmadm'' (files w, host w) = (Ret path, s)"
    and "dict_get (params m) ''state'' = Some st"
  shows "vmadm_main rt m w =
    bnd (if st = PStr ''present''
         then vmadm_present rt m path st (param_get m ''manifest'' PNone)
         else vmadm_other rt m path st (param_get m ''uuid'' PNone) (param_get m ''alias'' PNone)
                (param_get m ''manifest'' PNone) (param_get m ''proplist'' PNone))
      (vmadm_finish m)
      (after_call w (GetBinPath ''vmadm'') s)"
proof -
  obtain st' uu al mf pl where
    "dict_get (params m) ''uuid'' = Some uu" "dict_get (params m) ''alias'' = Some al"
    "dict_get (params m) ''manifest'' = Some mf" "dict_get (params m) ''proplist'' = Some pl"
    using assms(1) by (rule vmadm_conforms_cases)
  with assms(2,3) show ?thesis
    by (simp add: vmadm_main_def get_bin_path_def param_def param_get_def io_simps)
qed

section \<open>Creating a machine\<close>

text \<open>The machine's alias, as the manifest file gives it.\<close>

definition manifest_alias :: "pyrt \<Rightarrow> fsys \<Rightarrow> string \<Rightarrow> pyval \<Rightarrow> bool" where
  "manifest_alias rt fs mf a =
     (\<exists>body d. fs mf = Some (RegularFile body) \<and> rt_loads rt body = Ret (PDict d)
             \<and> dict_get d ''alias'' = Some a)"

abbreviation lookup_cmd :: "pyrt \<Rightarrow> string \<Rightarrow> pyval \<Rightarrow> string" where
  "lookup_cmd rt path a \<equiv> path @ '' lookup alias='' @ fmt_s rt a"

abbreviation create_cmd :: "string \<Rightarrow> string \<Rightarrow> string" where
  "create_cmd path mf \<equiv> path @ '' create -f '' @ mf"

lemma vmadm_check_subparam_pass:
  "truthy (param_get m k (PBool False)) \<Longrightarrow> vmadm_check_subparam m k st w = (Ret (), w)"
  by (simp add: vmadm_check_subparam_def io_simps)

lemma open_and_load_ok:
  "files w mf = Some (RegularFile body) \<Longrightarrow> rt_loads rt body = Ret v \<Longrightarrow>
   open_and_load_json_data rt m mf w = (Ret v, w)"
  by (simp add: open_and_load_json_data_def read_file_def io_simps)

lemma vmadm_present_run:
  assumes "param_get m ''manifest'' (PBool False) = PStr mf" and "mf \<noteq> []"
    and "manifest_alias rt (files w) mf a"
    and "m_run_command m (lookup_cmd rt path a) (files w, host w) = (Ret (rc, so, se), s)"
  shows "vmadm_present rt m path st (PStr mf) w =
     (let w1 = after_call w (RunCommand (lookup_cmd rt path a)) s in
      if so \<noteq> [] then (Ret (0, [], [], False), w1)
      else bnd (run_command m (create_cmd path mf)) (\<lambda>(rc, so, se). ret (rc, so, se, True)) w1)"
proof -
  obtain body d where f: "files w mf = Some (RegularFile body)" "rt_loads rt body = Ret (PDict d)"
    "dict_get d ''alias'' = Some a"
    using assms(3) by (auto simp: manifest_alias_def)
  have sub: "vmadm_check_subparam m ''manifest'' (fmt_s rt st) w = (Ret (), w)"
    using assms(1,2) by (simp add: vmadm_check_subparam_pass)
  show ?thesis
    using f assms(4) sub open_and_load_ok [OF f(1,2), of m]
    by (simp add: vmadm_present_def os_path_isfile_def vmadm_alias_lookup_def run_command_def
        Let_def io_simps)
qed

section \<open>Reports\<close>

text \<open>What the module may rely on from its environment: Ansible's contract, conforming
  parameters, and a search for the \<open>vmadm\<close> executable that finds it and changes nothing.\<close>

definition vmadm_ready :: "'h ansible_module \<Rightarrow> string \<Rightarrow> bool" where
  "vmadm_ready m path =
     (ansible_contract m \<and> conforms vmadm_spec vmadm_exclusive (params m)
      \<and> (\<forall>s. m_get_bin_path m ''vmadm'' s = (Ret path, s)))"

lemma vmadm_readyD:
  assumes "vmadm_ready m path"
  shows "ansible_contract m" "conforms vmadm_spec vmadm_exclusive (params m)"
    "m_get_bin_path m ''vmadm'' s = (Ret path, s)"
  using assms unfolding vmadm_ready_def by blast+

abbreviation vmadm_exit :: "bool \<Rightarrow> string \<Rightarrow> call" where
  "vmadm_exit ch so \<equiv> ExitJson [(''changed'', PBool ch), (''msg'', PStr so)]"

lemma vmadm_finish_app:
  "ansible_contract m \<Longrightarrow> vmadm_finish m (rc, so, se, ch) w =
     (if rc = 0 then (Exc (SystemExit 0), after_call w (vmadm_exit ch so) (files w, host w))
      else (Exc (SystemExit 1), after_call w (msg_fail se) (files w, host w)))"
  by (simp add: vmadm_finish_def fail_msg_app exit_json_def io_simps)

lemma vmadm_main_present:
  assumes ready: "vmadm_ready m path"
    and st: "dict_get (params m) ''state'' = Some (PStr ''present'')"
    and mf: "dict_get (params m) ''manifest'' = Some (PStr mf)" "mf \<noteq> []"
    and a: "manifest_alias rt (files w) mf a"
    and l: "m_run_command m (lookup_cmd rt path a) (files w, host w) = (Ret (rc, so, se), s)"
  shows "vmadm_main rt m w =
     (let w1 = after_call (after_call w (GetBinPath ''vmadm'') (files w, host w))
                 (RunCommand (lookup_cmd rt path a)) s in
      if so \<noteq> [] then (Exc (SystemExit 0), after_call w1 (vmadm_exit False []) s)
      else bnd (run_command m (create_cmd path mf))
             (\<lambda>(rc, so, se). vmadm_finish m (rc, so, se, True)) w1)"
proof -
  let ?w0 = "after_call w (GetBinPath ''vmadm'') (files w, host w)"
  have p: "param_get m ''manifest'' (PBool False) = PStr mf" "param_get m ''manifest'' PNone = PStr mf"
    using mf by (simp_all add: param_get_def)
  have l0: "m_run_command m (lookup_cmd rt path a) (files ?w0, host ?w0) = (Ret (rc, so, se), s)"
    using l by simp
  have a0: "manifest_alias rt (files ?w0) mf a"
    using a by simp
  show ?thesis
    using vmadm_main_run [OF vmadm_readyD(2,3) [OF ready] st]
      vmadm_present_run [OF p(1) mf(2) a0 l0] vmadm_readyD(1) [OF ready] p(2)
    by (simp add: bnd_app Let_def vmadm_finish_app ret_app split: prod.splits res.splits)
qed

text \<open>C11. Creating a machine is idempotent: once a run with \<open>state=present\<close> has ended
  with status 0, a second run with the same manifest issues only the alias lookup, runs no
  \<open>create\<close>, reports \<open>changed=false\<close> and leaves files and hypervisor as they are. The
  hypotheses say that \<open>vmadm lookup\<close> only queries and that a successful \<open>vmadm create\<close>
  makes the alias known.\<close>

theorem vmadm_present_idempotent:
  assumes ready: "vmadm_ready m path"
    and st: "dict_get (params m) ''state'' = Some (PStr ''present'')"
    and mf: "dict_get (params m) ''manifest'' = Some (PStr mf)" "mf \<noteq> []"
    and a: "manifest_alias rt (files w) mf a"
    and lookup: "\<And>s. \<exists>rc so se. m_run_command m (lookup_cmd rt path a) s = (Ret (rc, so, se), s)"
    and create: "\<And>s. \<exists>rc so se s'. m_run_command m (create_cmd path mf) s = (Ret (rc, so, se), s')
        \<and> (rc = 0 \<longrightarrow> fst s' mf = fst s mf \<and>
            (\<exists>rc so se. m_run_command m (lookup_cmd rt path a) s' = (Ret (rc, so, se), s') \<and> so \<noteq> []))"
    and run1: "vmadm_main rt m w = (Exc (SystemExit 0), w1)"
  shows "\<exists>w2. vmadm_main rt m w1 = (Exc (SystemExit 0), w2)
     \<and> calls w2 = calls w1 @ [GetBinPath ''vmadm'', RunCommand (lookup_cmd rt path a), vmadm_exit False []]
     \<and> files w2 = files w1 \<and> host w2 = host w1"
proof -
  obtain rc so se where l: "m_run_command m (lookup_cmd rt path a) (files w, host w)
      = (Ret (rc, so, se), (files w, host w))"
    using lookup by blast
  note main1 = vmadm_main_present [OF ready st mf a l]
  have "\<exists>rc so se. m_run_command m (lookup_cmd rt path a) (files w1, host w1)
      = (Ret (rc, so, se), (files w1, host w1)) \<and> so \<noteq> [] \<and> files w1 mf = files w mf"
  proof (cases "so = []")
    case False
    with run1 main1 have "files w1 = files w" "host w1 = host w"
      by (auto simp: Let_def)
    with l False show ?thesis by auto
  next
    case True
    obtain rc2 so2 se2 s2 where c: "m_run_command m (create_cmd path mf) (files w, host w)
        = (Ret (rc2, so2, se2), s2)"
      and ok: "rc2 = 0 \<longrightarrow> fst s2 mf = files w mf \<and> (\<exists>rc so se.
        m_run_command m (lookup_cmd rt path a) s2 = (Ret (rc, so, se), s2) \<and> so \<noteq> [])"
      using create [of "(files w, host w)"] by auto
    from run1 main1 True c vmadm_readyD(1) [OF ready]
    have "rc2 = 0" "files w1 = fst s2" "host w1 = snd s2"
      by (auto simp: Let_def io_simps run_command_def vmadm_finish_app split: if_splits)
    with ok show ?thesis by auto
  qed
  then obtain rc so se where
    l1: "m_run_command m (lookup_cmd rt path a) (files w1, host w1)
      = (Ret (rc, so, se), (files w1, host w1))" and so: "so \<noteq> []" and f: "files w1 mf = files w mf"
    by blast
  have a1: "manifest_alias rt (files w1) mf a"
    using a f by (simp add: manifest_alias_def)
  show ?thesis
    using vmadm_main_present [OF ready st mf a1 l1] so by (simp add: Let_def)
qed

section \<open>A sample hypervisor\<close>

text \<open>A hypervisor whose state is whether the machine \<open>web\<close> exists, for the witnesses.\<close>

definition sample_run :: "string \<Rightarrow> (bool, int \<times> string \<times> string) outside" where
  "sample_run cmd = (\<lambda>(fs, h).
     if cmd = ''vmadm lookup alias=web''
     then (Ret (0, if h then ''u1'' else [], []), (fs, h))
     else if cmd = ''vmadm create -f m'' then (Ret (0, [], ''Successfully created u1''), (fs, True))
     else if cmd = ''vmadm get u1'' then (Ret (0, ''doc'', []), (fs, h))
     else if cmd = ''vmadm get u2'' then (Ret (0, if h then ''new'' else ''old'', []), (fs, h))
     else if cmd = ''vmadm update u2 -f m'' then (Ret (0, ''ok'', []), (fs, True))
     else if cmd = ''vmadm start u1'' then (Ret (0, [], ''Successfully started u1''), (fs, h))
     else (Ret (1, [], ''no such command''), (fs, h)))"

definition sample_vmadm :: "pydict \<Rightarrow> bool ansible_module" where
  "sample_vmadm p = \<lparr>params = p, check_mode = False,
     m_get_bin_path = (\<lambda>n s. (Ret n, s)), m_run_command = sample_run,
     m_fail_json = (\<lambda>kw s. (Exc (SystemExit 1), s)),
     m_exit_json = (\<lambda>kw s. (Exc (SystemExit 0), s))\<rparr>"

definition sample_rt :: pyrt where
  "sample_rt = \<lparr>rt_loads = (\<lambda>s. if s = ''M'' then Ret (PDict [(''alias'', PStr ''web'')])
       else if s = ''doc'' then Ret (PDict [(''ram'', PInt 256), (''last_modified'', PStr ''2020'')])
       else if s = ''old'' then Ret (PDict [(''ram'', PInt 256)])
       else if s = ''new'' then Ret (PDict [(''ram'', PInt 512)])
       else Exc (ValueError ''No JSON object could be decoded'')),
     rt_repr = (\<lambda>v. if v = PDict [(''ram'', PInt 256)] then ''a'' else ''b''), rt_sha1 = Ret\<rparr>"

definition sample_world :: "bool \<Rightarrow> bool world" where
  "sample_world h = \<lparr>files = [''m'' \<mapsto> RegularFile ''M''], host = h, calls = []\<rparr>"

definition sample_params :: "string \<Rightarrow> pyval \<Rightarrow> pyval \<Rightarrow> pyval \<Rightarrow> pydict" where
  "sample_params st uu al mf = [(''state'', PStr st), (''uuid'', uu), (''alias'', al),
     (''manifest'', mf), (''proplist'', PNone)]"

lemmas sample_defs = sample_vmadm_def sample_rt_def sample_world_def sample_params_def

lemma sample_ready:
  assumes "conforms vmadm_spec vmadm_exclusive p"
  shows "vmadm_ready (sample_vmadm p) ''vmadm''"
  using assms by (simp add: vmadm_ready_def ansible_contract_def sample_vmadm_def)

lemma sample_params_conform:
  "st \<in> set [''present'', ''started'', ''updated''] \<Longrightarrow> (uu, al, mf) \<in>
     set [(PNone, PNone, PStr ''m''), (PStr ''u1'', PNone, PStr ''m''), (PStr ''u2'', PNone, PStr ''m''),
       (PNone, PStr ''web'', PNone)] \<Longrightarrow>
   conforms vmadm_spec vmadm_exclusive (sample_params st uu al mf)"
  by (auto simp: conforms_def vmadm_spec_def vmadm_exclusive_def sample_params_def dict_get_def
      given_def)

lemma sample_lookup:
  "sample_run ''vmadm lookup alias=web'' s = (Ret (0, if snd s then ''u1'' else [], []), s)"
  by (cases s) (simp add: sample_run_def)

lemma sample_create:
  "sample_run ''vmadm create -f m'' s = (Ret (0, [], ''Successfully created u1''), (fst s, True))"
  by (cases s) (simp add: sample_run_def)

theorem vmadm_present_idempotent_witness:
  "let m = sample_vmadm (sample_params ''present'' PNone PNone (PStr ''m''));
       w1 = snd (vmadm_main sample_rt m (sample_world False))
   in \<exists>w2. vmadm_main sample_rt m w1 = (Exc (SystemExit 0), w2)
        \<and> calls w2 = calls w1 @ [GetBinPath ''vmadm'', RunCommand ''vmadm lookup alias=web'',
                                  vmadm_exit False []]
        \<and> files w2 = files w1 \<and> host w2 = host w1"
proof -
  let ?m = "sample_vmadm (sample_params ''present'' PNone PNone (PStr ''m''))"
  have ready: "vmadm_ready ?m ''vmadm''"
    by (rule sample_ready) (rule sample_params_conform, simp_all)
  have st: "dict_get (params ?m) ''state'' = Some (PStr ''present'')"
    and mf: "dict_get (params ?m) ''manifest'' = Some (PStr ''m'')"
    by (simp_all add: sample_defs dict_get_def)
  have a: "manifest_alias sample_rt (files (sample_world h)) ''m'' (PStr ''web'')" for h
    by (simp add: manifest_alias_def sample_defs dict_get_def)
  have run: "m_run_command ?m = sample_run"
    by (simp add: sample_vmadm_def)
  have l: "m_run_command ?m (lookup_cmd sample_rt ''vmadm'' (PStr ''web'')) s
      = (Ret (0, if snd s then ''u1'' else [], []), s)" for s
    using sample_lookup by (simp add: run)
  have c: "m_run_command ?m (create_cmd ''vmadm'' ''m'') s
      = (Ret (0, [], ''Successfully created u1''), (fst s, True))" for s
    using sample_create by (simp add: run)
  obtain w1 where w1: "vmadm_main sample_rt ?m (sample_world False) = (Exc (SystemExit 0), w1)"
    using vmadm_main_present [OF ready st mf _ a l] c vmadm_readyD(1) [OF ready]
    by (simp add: Let_def io_simps run_command_def vmadm_finish_app sample_world_def)
  have hl: "\<exists>rc so se. m_run_command ?m (lookup_cmd sample_rt ''vmadm'' (PStr ''web'')) s
      = (Ret (rc, so, se), s)" for s
    using l by blast
  have hc: "\<exists>rc so se s'. m_run_command ?m (create_cmd ''vmadm'' ''m'') s = (Ret (rc, so, se), s')
      \<and> (rc = 0 \<longrightarrow> fst s' ''m'' = fst s ''m'' \<and> (\<exists>rc so se.
          m_run_command ?m (lookup_cmd sample_rt ''vmadm'' (PStr ''web'')) s' = (Ret (rc, so, se), s')
          \<and> so \<noteq> []))" for s
    unfolding c l by force
  show ?thesis
    using vmadm_present_idempotent [OF ready st mf _ a hl hc w1] w1
    by (simp add: Let_def)
qed

section \<open>The contract of the module\<close>

lemma disciplined_check_subparam [disc_intros]:
  "ansible_contract m \<Longrightarrow> disciplined (vmadm_check_subparam m k st)"
  unfolding vmadm_check_subparam_def by (intro disc_intros)

lemma disciplined_alias_lookup [disc_intros]: "disciplined (vmadm_alias_lookup rt m path a)"
  unfolding vmadm_alias_lookup_def by (intro disc_intros)

lemma disciplined_get_json [disc_intros]:
  "ansible_contract m \<Longrightarrow> disciplined (vmadm_get_vm_json_description rt m path uuid)"
  unfolding vmadm_get_vm_json_description_def by (intro disc_intros)

lemma disciplined_open_and_load [disc_intros]:
  "ansible_contract m \<Longrightarrow> disciplined (open_and_load_json_data rt m mf)"
  unfolding open_and_load_json_data_def by (intro disc_intros) simp_all

lemma disciplined_present [disc_intros]:
  "ansible_contract m \<Longrightarrow> disciplined (vmadm_present rt m path st mf)"
  unfolding vmadm_present_def by (intro disc_intros) simp_all

lemma disciplined_other [disc_intros]:
  "ansible_contract m \<Longrightarrow> disciplined (vmadm_other rt m path st uu al mf pl)"
  unfolding vmadm_other_def vmadm_simple_def vmadm_updated_def by (intro disc_intros)

lemma disciplined_finish [disc_intros]: "ansible_contract m \<Longrightarrow> disciplined (vmadm_finish m oc)"
  unfolding vmadm_finish_def by (intro disc_intros)

interpretation vmadm_prog: ansible_program "vmadm_main rt" for rt
proof unfold_locales
  fix m :: "'h ansible_module"
  assume c: "ansible_contract m"
  show "disciplined (vmadm_main rt m)"
    unfolding vmadm_main_def using c by (intro disc_intros)
  show "never_returns (vmadm_main rt m)"
    unfolding vmadm_main_def vmadm_finish_def using c by (intro ends_intros)
qed

section \<open>Which commands run\<close>

text \<open>The sub-commands of \<open>vmadm\<close> each state may use.\<close>

definition vmadm_verbs :: "string \<Rightarrow> string list" where
  "vmadm_verbs st =
     (if st = ''present'' then [''lookup'', ''create'']
      else if st = ''started'' then [''lookup'', ''start'']
      else if st = ''stopped'' then [''lookup'', ''stop'']
      else if st = ''rebooted'' then [''lookup'', ''reboot'']
      else if st = ''absent'' then [''lookup'', ''delete'']
      else [''lookup'', ''get'', ''update''])"

fun uses_verb :: "string \<Rightarrow> string list \<Rightarrow> call \<Rightarrow> bool" where
  "uses_verb path verbs (RunCommand cmd) = (\<exists>v \<in> set verbs. prefix (path @ '' '' @ v @ '' '') cmd)"
| "uses_verb path verbs c = is_report c"

lemma emits_verb_fail [emits_intros]: "emits (uses_verb path vs) (fail_msg m s)"
  unfolding fail_msg_def fail_json_def by (rule emits_ext) simp

lemma emits_verb_exit [emits_intros]: "emits (uses_verb path vs) (exit_json m kw)"
  unfolding exit_json_def by (rule emits_ext) simp

lemma emits_run_command:
  "v \<in> set vs \<Longrightarrow> prefix (path @ '' '' @ v @ '' '') cmd \<Longrightarrow>
   emits (uses_verb path vs) (run_command m cmd)"
  unfolding run_command_def by (rule emits_ext) auto

lemma emits_alias_lookup [emits_intros]:
  "''lookup'' \<in> set vs \<Longrightarrow> emits (uses_verb path vs) (vmadm_alias_lookup rt m path a)"
  unfolding vmadm_alias_lookup_def
  by (intro emits_intros emits_run_command [where v = "''lookup''"]) (simp_all add: prefix_def)

lemma emits_get_json [emits_intros]:
  "''get'' \<in> set vs \<Longrightarrow> emits (uses_verb path vs) (vmadm_get_vm_json_description rt m path u)"
  unfolding vmadm_get_vm_json_description_def
  by (intro emits_intros emits_run_command [where v = "''get''"]) (simp_all add: prefix_def)

lemma emits_open_and_load [emits_intros]:
  "emits (uses_verb path vs) (open_and_load_json_data rt m mf)"
  unfolding open_and_load_json_data_def by (intro emits_intros)

lemma emits_present:
  "emits (uses_verb path (vmadm_verbs ''present'')) (vmadm_present rt m path st mf)"
  unfolding vmadm_present_def vmadm_check_subparam_def
  by (intro emits_intros emits_run_command [where v = "''create''"])
    (simp_all add: vmadm_verbs_def prefix_def)

lemma emits_simple:
  "st \<in> set [''started'', ''stopped'', ''rebooted'', ''absent''] \<Longrightarrow>
   emits (uses_verb path (vmadm_verbs st)) (vmadm_simple rt m path (PStr st) u)"
  unfolding vmadm_simple_def
  by (intro emits_intros emits_run_command [where v = "vmadm_subcommand st"])
    (auto simp: vmadm_verbs_def prefix_def)

lemma emits_updated:
  "emits (uses_verb path (vmadm_verbs ''updated'')) (vmadm_updated rt m path u pl mf)"
  unfolding vmadm_updated_def
  by (intro emits_intros emits_run_command [where v = "''update''"])
    (simp_all add: vmadm_verbs_def prefix_def)

lemma emits_other:
  assumes "st \<in> set [''absent'', ''rebooted'', ''started'', ''stopped'', ''updated'']"
  shows "emits (uses_verb path (vmadm_verbs st)) (vmadm_other rt m path (PStr st) uu al mf pl)"
proof -
  have l: "''lookup'' \<in> set (vmadm_verbs st)"
    by (simp add: vmadm_verbs_def)
  show ?thesis
    unfolding vmadm_other_def using assms l emits_updated [of path rt m _ pl mf]
    by (intro emits_intros emits_simple) auto
qed

text \<open>C17. A run issues only the \<open>vmadm\<close> sub-commands its state calls for: \<open>create\<close> only
  for \<open>present\<close>, \<open>delete\<close> only for \<open>absent\<close>, \<open>start\<close>, \<open>stop\<close> and
  \<open>reboot\<close> only for their states, \<open>get\<close> and \<open>update\<close> only for \<open>updated\<close>,
  besides the read-only \<open>lookup\<close>; every command is addressed to the executable that was
  found.\<close>

theorem vmadm_runs_only_its_verbs:
  assumes conf: "conforms vmadm_spec vmadm_exclusive (params m)"
    and bin: "m_get_bin_path m ''vmadm'' (files w, host w) = (Ret path, s)"
    and st: "dict_get (params m) ''state'' = Some (PStr st)"
  shows "\<exists>cs. calls (snd (vmadm_main rt m w)) = calls w @ GetBinPath ''vmadm'' # cs
     \<and> (\<forall>c \<in> set cs. uses_verb path (vmadm_verbs st) c)"
proof -
  have st_in: "st \<in> set [''present'', ''absent'', ''rebooted'', ''started'', ''stopped'', ''updated'']"
    by (rule vmadm_conforms_cases [OF conf]) (use st in simp)
  have fin: "emits (uses_verb path (vmadm_verbs st)) (vmadm_finish m oc)" for oc
    unfolding vmadm_finish_def by (intro emits_intros)
  let ?body = "bnd (if PStr st = PStr ''present''
         then vmadm_present rt m path (PStr st) (param_get m ''manifest'' PNone)
         else vmadm_other rt m path (PStr st) (param_get m ''uuid'' PNone) (param_get m ''alias'' PNone)
                (param_get m ''manifest'' PNone) (param_get m ''proplist'' PNone))
      (vmadm_finish m)"
  have "emits (uses_verb path (vmadm_verbs st)) ?body"
    using st_in emits_present [of path rt m] by (intro emits_bnd emits_if fin emits_other) auto
  then have "\<exists>cs. calls (snd (?body (after_call w (GetBinPath ''vmadm'') s)))
      = calls (after_call w (GetBinPath ''vmadm'') s) @ cs
      \<and> (\<forall>c \<in> set cs. uses_verb path (vmadm_verbs st) c)"
    unfolding emits_def by blast
  then show ?thesis
    unfolding vmadm_main_run [OF conf bin st] by simp
qed

theorem vmadm_runs_only_its_verbs_witness:
  "let m = sample_vmadm (sample_params ''started'' PNone (PStr ''web'') PNone) in
   \<exists>cs. calls (snd (vmadm_main sample_rt m (sample_world True)))
      = calls (sample_world True) @ GetBinPath ''vmadm'' # cs
     \<and> (\<forall>c \<in> set cs. uses_verb ''vmadm'' (vmadm_verbs ''started'') c)"
  unfolding Let_def
proof (rule vmadm_runs_only_its_verbs)
  show "conforms vmadm_spec vmadm_exclusive
      (params (sample_vmadm (sample_params ''started'' PNone (PStr ''web'') PNone)))"
    using sample_params_conform by (simp add: sample_vmadm_def)
qed (simp_all add: sample_defs dict_get_def)

section \<open>Addressing a machine\<close>

abbreviation after_bin :: "'h world \<Rightarrow> 'h world" where
  "after_bin w \<equiv> after_call w (GetBinPath ''vmadm'') (files w, host w)"

lemma vmadm_main_other:
  assumes "vmadm_ready m path" and "dict_get (params m) ''state'' = Some st"
    and "st \<noteq> PStr ''present''"
  shows "vmadm_main rt m w =
    bnd (vmadm_other rt m path st (param_get m ''uuid'' PNone) (param_get m ''alias'' PNone)
           (param_get m ''manifest'' PNone) (param_get m ''proplist'' PNone))
      (vmadm_finish m) (after_bin w)"
  using vmadm_main_run [OF vmadm_readyD(2,3) [OF assms(1)] assms(2)] assms(3) by simp

lemma vmadm_other_uuid:
  assumes "truthy uu" and "\<not> truthy al"
  shows "vmadm_other rt m path st uu al mf pl w =
     (if st \<in> set (map PStr [''started'', ''stopped'', ''rebooted'', ''absent''])
      then vmadm_simple rt m path st uu w
      else if st = PStr ''updated'' then vmadm_updated rt m path uu pl mf w
      else (Ret (1, [], [], False), w))"
  using assms by (simp add: vmadm_other_def io_simps)

text \<open>An alias that the hypervisor does not know stops every state but \<open>present\<close>: the
  lookup is the only command, and the module fails with a message that names the alias.\<close>

lemma vmadm_unknown_alias_fails:
  assumes ready: "vmadm_ready m path"
    and st: "dict_get (params m) ''state'' = Some (PStr st)" "st \<noteq> ''present''"
    and al: "dict_get (params m) ''alias'' = Some (PStr al)" "al \<noteq> []"
    and l: "m_run_command m (lookup_cmd rt path (PStr al)) (files w, host w) = (Ret (rc, [], se), s)"
  shows "\<exists>w'. vmadm_main rt m w = (Exc (SystemExit 1), w') \<and> files w' = fst s \<and> host w' = snd s \<and>
     calls w' = calls w @ [GetBinPath ''vmadm'', RunCommand (lookup_cmd rt path (PStr al)),
       msg_fail (''could not locate a matching uuid for vm alias '' @ quoted al)]"
proof -
  have "param_get m ''alias'' PNone = PStr al"
    using al by (simp add: param_get_def)
  moreover have "PStr st \<noteq> PStr ''present''"
    using st by simp
  ultimately show ?thesis
    unfolding vmadm_main_other [OF ready st(1) \<open>PStr st \<noteq> PStr ''present''\<close>]
    using l al(2) vmadm_readyD(1) [OF ready]
    by (simp add: vmadm_other_def vmadm_alias_lookup_def run_command_def fail_msg_app io_simps)
qed

text \<open>Starting, stopping, rebooting and deleting a machine given by uuid is one command, whose
  verb is the imperative of the state (\<open>start\<close>, \<open>stop\<close>, \<open>reboot\<close>,
  \<open>delete\<close>). The module fails with the command's standard error when the exit code is not
  0, and otherwise reports a change exactly when that text starts with \<open>Successfully\<close>.\<close>

lemma vmadm_state_change:
  assumes ready: "vmadm_ready m path"
    and st: "dict_get (params m) ''state'' = Some (PStr st)"
      "(st, verb) \<in> set [(''started'', ''start''), (''stopped'', ''stop''),
         (''rebooted'', ''reboot''), (''absent'', ''delete'')]"
    and uu: "dict_get (params m) ''uuid'' = Some (PStr u)" "u \<noteq> []"
    and al: "dict_get (params m) ''alias'' = Some PNone"
    and run: "m_run_command m (path @ '' '' @ verb @ '' '' @ u) (files w, host w)
      = (Ret (rc, so, se), s)"
  shows "\<exists>w'. vmadm_main rt m w = (Exc (SystemExit (if rc = 0 then 0 else 1)), w')
     \<and> files w' = fst s \<and> host w' = snd s
     \<and> calls w' = calls w @ [GetBinPath ''vmadm'', RunCommand (path @ '' '' @ verb @ '' '' @ u),
         if rc = 0 then vmadm_exit (py_startswith se ''Successfully'') so else msg_fail se]"
proof -
  have sub: "vmadm_subcommand st = verb" and ne: "PStr st \<noteq> PStr ''present''"
    and in_simple: "PStr st \<in> set (map PStr [''started'', ''stopped'', ''rebooted'', ''absent''])"
    using st(2) by auto
  have p: "param_get m ''uuid'' PNone = PStr u" "param_get m ''alias'' PNone = PNone"
    using uu al by (simp_all add: param_get_def)
  have tu: "truthy (PStr u)" "\<not> truthy PNone"
    using uu by simp_all
  show ?thesis
    unfolding vmadm_main_other [OF ready st(1) ne] bnd_app p vmadm_other_uuid [OF tu]
    using in_simple sub run vmadm_readyD(1) [OF ready]
    by (simp add: vmadm_simple_def run_command_def py_find_0_iff vmadm_finish_app io_simps)
qed

section \<open>Updating a machine\<close>

abbreviation get_cmd :: "string \<Rightarrow> string \<Rightarrow> string" where
  "get_cmd path u \<equiv> path @ '' get '' @ u"

definition update_cmd :: "string \<Rightarrow> string \<Rightarrow> pyval \<Rightarrow> pyval \<Rightarrow> string" where
  "update_cmd path u pl mf =
     (if truthy pl then path @ '' update '' @ u @ '' '' @ str_of pl
      else path @ '' update '' @ u @ '' -f '' @ str_of mf)"

lemma get_json_app:
  assumes "m_run_command m (get_cmd path u) (files w, host w) = (Ret (0, so, se), s)"
    and "rt_loads rt so = Ret v"
  shows "vmadm_get_vm_json_description rt m path (PStr u) w =
     (if mentions ''last_modified'' v then Exc dict_resized else Ret (fmt_s rt v),
      after_call w (RunCommand (get_cmd path u)) s)"
  using assms
  by (simp add: vmadm_get_vm_json_description_def run_command_def json_loads_strip io_simps)

text \<open>The hook that is meant to remove \<open>last_modified\<close> from a decoded document never
  removes anything: decoding raises \<open>RuntimeError\<close> when some object of the document has that
  key, because the key is deleted while the dictionary is being iterated, and returns the document
  unchanged otherwise.\<close>

lemma strip_hook_never_strips:
  "json_loads_hook loads strip_keys_from_json s =
     res_bind (loads s) (\<lambda>v.
       if mentions ''last_modified'' v
       then Exc (RuntimeError ''dictionary changed size during iteration'') else Ret v)"
  by (rule json_loads_strip)

text \<open>C36. Consequently \<open>state=updated\<close> never updates a machine whose description carries
  \<open>last_modified\<close>: the process dies with the \<open>RuntimeError\<close> after the first
  \<open>vmadm get\<close>; neither \<open>vmadm update\<close> nor a report follows.\<close>

theorem vmadm_updated_dies_on_last_modified:
  assumes ready: "vmadm_ready m path"
    and st: "dict_get (params m) ''state'' = Some (PStr ''updated'')"
    and uu: "dict_get (params m) ''uuid'' = Some (PStr u)" "u \<noteq> []"
    and al: "dict_get (params m) ''alias'' = Some PNone"
    and sub: "truthy (param_get m ''proplist'' PNone) \<or> truthy (param_get m ''manifest'' PNone)"
    and get: "m_run_command m (get_cmd path u) (files w, host w) = (Ret (0, so, se), s)"
    and doc: "rt_loads rt so = Ret v" "mentions ''last_modified'' v"
  shows "vmadm_main rt m w =
     (Exc (RuntimeError ''dictionary changed size during iteration''),
      after_call (after_bin w) (RunCommand (get_cmd path u)) s)"
proof -
  have p: "param_get m ''uuid'' PNone = PStr u" "param_get m ''alias'' PNone = PNone"
    using uu al by (simp_all add: param_get_def)
  have tu: "truthy (PStr u)" "\<not> truthy PNone"
    using uu by simp_all
  have ne: "PStr ''updated'' \<noteq> PStr ''present''"
    by simp
  have get': "m_run_command m (get_cmd path u) (files (after_bin w), host (after_bin w))
      = (Ret (0, so, se), s)"
    using get by simp
  show ?thesis
    unfolding vmadm_main_other [OF ready st ne] bnd_app p vmadm_other_uuid [OF tu]
    using get_json_app [OF get' doc(1)] doc(2) sub
    by (auto simp: vmadm_updated_def io_simps)
qed

theorem vmadm_updated_dies_on_last_modified_witness:
  "let m = sample_vmadm (sample_params ''updated'' (PStr ''u1'') PNone (PStr ''m''));
       w = sample_world True in
   vmadm_main sample_rt m w =
     (Exc (RuntimeError ''dictionary changed size during iteration''),
      after_call (after_bin w) (RunCommand (get_cmd ''vmadm'' ''u1'')) (files w, host w))"
proof -
  let ?m = "sample_vmadm (sample_params ''updated'' (PStr ''u1'') PNone (PStr ''m''))"
  have "vmadm_ready ?m ''vmadm''"
    by (rule sample_ready) (rule sample_params_conform, simp_all)
  then show ?thesis
    using vmadm_updated_dies_on_last_modified [of ?m "''vmadm''" "''u1''" "sample_world True" "''doc''"
        "[]" "(files (sample_world True), host (sample_world True))" sample_rt
        "PDict [(''ram'', PInt 256), (''last_modified'', PStr ''2020'')]"]
    by (simp add: sample_defs sample_run_def dict_get_def dict_keys_def param_get_def)
qed

text \<open>C13. When neither description mentions \<open>last_modified\<close>, an update runs
  \<open>get\<close>, \<open>update\<close>, \<open>get\<close> in this order. If the update fails, the module fails
  with its standard error; if it succeeds, the module reports a change exactly when the digests of
  the two descriptions differ, and prints the update's output only in that case.\<close>

theorem vmadm_updated_detects_change:
  assumes ready: "vmadm_ready m path"
    and st: "dict_get (params m) ''state'' = Some (PStr ''updated'')"
    and uu: "dict_get (params m) ''uuid'' = Some (PStr u)" "u \<noteq> []"
    and al: "dict_get (params m) ''alias'' = Some PNone"
    and pl: "dict_get (params m) ''proplist'' = Some pl" "pl = PNone \<or> pl = PStr ps"
    and mf: "dict_get (params m) ''manifest'' = Some mf" "mf = PNone \<or> mf = PStr fs"
    and sub: "truthy pl \<or> truthy mf"
    and get1: "m_run_command m (get_cmd path u) (files w, host w) = (Ret (0, so1, se1), s1)"
    and upd: "m_run_command m (update_cmd path u pl mf) s1 = (Ret (rc, so, se), s2)"
    and get2: "m_run_command m (get_cmd path u) s2 = (Ret (0, so2, se2), s3)"
    and doc1: "rt_loads rt so1 = Ret v1" "\<not> mentions ''last_modified'' v1"
    and doc2: "rt_loads rt so2 = Ret v2" "\<not> mentions ''last_modified'' v2"
    and sha: "rt_sha1 rt (fmt_s rt v1) = Ret h1" "rt_sha1 rt (fmt_s rt v2) = Ret h2"
  shows "\<exists>w'. vmadm_main rt m w = (Exc (SystemExit (if rc = 0 then 0 else 1)), w')
     \<and> calls w' = calls w @ [GetBinPath ''vmadm'', RunCommand (get_cmd path u),
         RunCommand (update_cmd path u pl mf), RunCommand (get_cmd path u),
         if rc = 0 then vmadm_exit (h1 \<noteq> h2) (if h1 = h2 then [] else so) else msg_fail se]"
proof -
  have p: "param_get m ''uuid'' PNone = PStr u" "param_get m ''alias'' PNone = PNone"
    "param_get m ''proplist'' PNone = pl" "param_get m ''manifest'' PNone = mf"
    using uu al pl mf by (simp_all add: param_get_def)
  have tu: "truthy (PStr u)" "\<not> truthy PNone"
    using uu by simp_all
  have ne: "PStr ''updated'' \<noteq> PStr ''present''"
    by simp
  define wa where "wa = after_call (after_bin w) (RunCommand (get_cmd path u)) s1"
  define wb where "wb = after_call wa (RunCommand (update_cmd path u pl mf)) s2"
  have g1: "vmadm_get_vm_json_description rt m path (PStr u) (after_bin w) = (Ret (fmt_s rt v1), wa)"
    using get_json_app [of m path u "after_bin w", OF _ doc1(1)] get1 doc1(2) by (simp add: wa_def)
  have g2: "vmadm_get_vm_json_description rt m path (PStr u) wb
      = (Ret (fmt_s rt v2), after_call wb (RunCommand (get_cmd path u)) s3)"
    using get_json_app [of m path u wb, OF _ doc2(1)] get2 doc2(2) by (simp add: wb_def)
  have cmd: "(if truthy pl then run_command m (path @ '' update '' @ fmt_s rt (PStr u) @ '' '' @ fmt_s rt pl)
      else run_command m (path @ '' update '' @ fmt_s rt (PStr u) @ '' -f '' @ fmt_s rt mf))
      = run_command m (update_cmd path u pl mf)"
    using pl(2) mf(2) sub by (auto simp: update_cmd_def)
  have u: "run_command m (update_cmd path u pl mf) wa = (Ret (rc, so, se), wb)"
    using upd by (simp add: run_command_def io_simps wa_def wb_def)
  have nf: "(\<not> truthy pl \<and> \<not> truthy mf) = False"
    using sub by blast
  have "vmadm_updated rt m path (PStr u) pl mf (after_bin w) =
      (Ret (if rc = 0 then (if h1 = h2 then (0, [], [], False) else (rc, so, se, True))
            else (rc, so, se, False)), after_call wb (RunCommand (get_cmd path u)) s3)"
    unfolding vmadm_updated_def cmd nf using g1 g2 u sha by (simp add: io_simps)
  then show ?thesis
    unfolding vmadm_main_other [OF ready st ne] bnd_app p vmadm_other_uuid [OF tu]
    using vmadm_readyD(1) [OF ready]
    by (simp add: vmadm_finish_app wa_def wb_def)
qed

theorem vmadm_updated_detects_change_witness:
  "let m = sample_vmadm (sample_params ''updated'' (PStr ''u2'') PNone (PStr ''m''));
       w = sample_world False in
   \<exists>w'. vmadm_main sample_rt m w = (Exc (SystemExit (if (0::int) = 0 then 0 else 1)), w')
     \<and> calls w' = calls w @ [GetBinPath ''vmadm'', RunCommand (get_cmd ''vmadm'' ''u2''),
         RunCommand (update_cmd ''vmadm'' ''u2'' PNone (PStr ''m'')), RunCommand (get_cmd ''vmadm'' ''u2''),
         if (0::int) = 0 then vmadm_exit (''a'' \<noteq> ''b'') (if ''a'' = ''b'' then [] else ''ok'')
         else msg_fail []]"
proof -
  let ?m = "sample_vmadm (sample_params ''updated'' (PStr ''u2'') PNone (PStr ''m''))"
  let ?fs = "files (sample_world False)"
  have r: "vmadm_ready ?m ''vmadm''"
    by (rule sample_ready) (rule sample_params_conform, simp_all)
  show ?thesis
    unfolding Let_def
  proof (rule vmadm_updated_detects_change [OF r, where ps = "[]" and fs = "''m''" and rt = sample_rt
        and ?so1.0 = "''old''" and ?se1.0 = "[]" and ?s1.0 = "(?fs, False)" and ?s2.0 = "(?fs, True)"
        and ?so2.0 = "''new''" and ?se2.0 = "[]" and ?s3.0 = "(?fs, True)"
        and ?v1.0 = "PDict [(''ram'', PInt 256)]" and ?v2.0 = "PDict [(''ram'', PInt 512)]"])
  qed (simp_all add: sample_defs sample_run_def dict_get_def dict_keys_def update_cmd_def)
qed

section \<open>Manifests\<close>

definition no_commands :: "call list \<Rightarrow> bool" where
  "no_commands cs = (\<forall>c \<in> set cs. \<forall>cmd kw. c \<noteq> RunCommand cmd \<and> c \<noteq> ExitJson kw)"

lemma open_and_load_cases:
  assumes "ansible_contract m"
  shows "\<exists>r cs. open_and_load_json_data rt m mf w = (r, w\<lparr>calls := calls w @ cs\<rparr>)
     \<and> no_commands cs
     \<and> (\<forall>v. r = Ret v \<longrightarrow> (\<exists>body. files w mf = Some (RegularFile body) \<and> rt_loads rt body = Ret v))"
proof (cases "read_file mf w")
  case (Pair r w')
  then have w': "w' = w" by (simp add: read_file_def)
  have fin: "\<exists>cs. after_call w (msg_fail x) (files w, host w) = w\<lparr>calls := calls w @ cs\<rparr>
      \<and> no_commands cs" for x
    by (rule exI [of _ "[msg_fail x]"]) (simp add: after_call_def no_commands_def)
  have nil: "\<exists>cs. w = w\<lparr>calls := calls w @ cs\<rparr> \<and> no_commands cs"
    by (rule exI [of _ "[]"]) (simp add: no_commands_def)
  show ?thesis
  proof (cases r)
    case (Exc e)
    with Pair w' have "is_IOError e"
      by (auto simp: read_file_def split: option.splits fnode.splits)
    with Exc Pair w' assms fin show ?thesis
      by (simp add: open_and_load_json_data_def io_simps fail_msg_app)
  next
    case (Ret body)
    with Pair w' have "files w mf = Some (RegularFile body)"
      by (auto simp: read_file_def split: option.splits fnode.splits)
    with Ret Pair w' assms fin nil show ?thesis
      by (cases "rt_loads rt body") (auto simp: open_and_load_json_data_def io_simps fail_msg_app)
  qed
qed

lemma vmadm_present_bad_manifest:
  assumes c: "ansible_contract m"
    and bad: "\<And>mf a. mfv = PStr mf \<Longrightarrow> \<not> manifest_alias rt (files w) mf a"
    and p: "param_get m ''manifest'' (PBool False) = mfv"
  shows "\<exists>e cs. vmadm_present rt m path st mfv w = (Exc e, w\<lparr>calls := calls w @ cs\<rparr>) \<and> no_commands cs"
proof -
  have fin: "\<exists>cs. after_call w (msg_fail x) (files w, host w) = w\<lparr>calls := calls w @ cs\<rparr>
      \<and> no_commands cs" for x
    by (rule exI [of _ "[msg_fail x]"]) (simp add: after_call_def no_commands_def)
  have nil: "\<exists>cs. w = w\<lparr>calls := calls w @ cs\<rparr> \<and> no_commands cs"
    by (rule exI [of _ "[]"]) (simp add: no_commands_def)
  show ?thesis
  proof (cases "truthy mfv")
    case False
    with c p fin show ?thesis
      by (simp add: vmadm_present_def vmadm_check_subparam_def io_simps fail_msg_app)
  next
    case True
    then have sub: "vmadm_check_subparam m ''manifest'' (fmt_s rt st) w = (Ret (), w)"
      using p by (simp add: vmadm_check_subparam_pass)
    show ?thesis
    proof (cases "path_of mfv")
      case (Exc e)
      with sub nil show ?thesis by (simp add: vmadm_present_def io_simps)
    next
      case (Ret mf)
      then have mfv: "mfv = PStr mf" by (cases mfv) auto
      obtain r cs where o: "open_and_load_json_data rt m mf w = (r, w\<lparr>calls := calls w @ cs\<rparr>)"
        and nc: "no_commands cs" and
        v: "\<And>v. r = Ret v \<Longrightarrow> (\<exists>body. files w mf = Some (RegularFile body) \<and> rt_loads rt body = Ret v)"
        using open_and_load_cases [OF c, of rt mf w] by blast
      show ?thesis
      proof (cases r)
        case (Exc e)
        with o nc fin sub mfv c show ?thesis
          by (auto simp: vmadm_present_def io_simps os_path_isfile_def fail_msg_app
              split: option.splits fnode.splits)
      next
        case (Ret d)
        have g: "\<exists>e. py_getitem d ''alias'' = Exc e"
          using v [OF Ret] bad [OF mfv] py_getitem_Ret [of d "''alias''"]
          by (cases "py_getitem d ''alias''") (auto simp: manifest_alias_def)
        have fin2: "\<exists>ds. after_call (w\<lparr>calls := calls w @ cs\<rparr>) (msg_fail x) (files w, host w)
            = w\<lparr>calls := calls w @ ds\<rparr> \<and> no_commands ds" for x
          using nc by (intro exI [of _ "cs @ [msg_fail x]"]) (auto simp: after_call_def no_commands_def)
        from g v [OF Ret] o nc fin2 sub mfv c Ret show ?thesis
          by (auto simp: vmadm_present_def io_simps os_path_isfile_def fail_msg_app)
      qed
    qed
  qed
qed

text \<open>With \<open>state=present\<close> and a manifest that is not given, not found, not readable, not
  JSON, or without an alias, the module runs no command and reports no success, and files and
  hypervisor stay as they are.\<close>

lemma vmadm_bad_manifest_runs_nothing:
  assumes ready: "vmadm_ready m path"
    and st: "dict_get (params m) ''state'' = Some (PStr ''present'')"
    and bad: "\<And>mf a. dict_get (params m) ''manifest'' = Some (PStr mf) \<Longrightarrow>
      \<not> manifest_alias rt (files w) mf a"
  shows "\<exists>e cs. vmadm_main rt m w = (Exc e, w\<lparr>calls := calls w @ cs\<rparr>) \<and> no_commands cs"
proof -
  obtain mfv where mfv: "dict_get (params m) ''manifest'' = Some mfv"
    using vmadm_readyD(2) [OF ready] by (rule vmadm_conforms_cases)
  then have p: "param_get m ''manifest'' (PBool False) = mfv" "param_get m ''manifest'' PNone = mfv"
    by (simp_all add: param_get_def)
  have bad': "\<not> manifest_alias rt (files (after_bin w)) mf a" if "mfv = PStr mf" for mf a
    using bad mfv that by simp
  obtain e cs where "vmadm_present rt m path (PStr ''present'') mfv (after_bin w)
      = (Exc e, (after_bin w)\<lparr>calls := calls (after_bin w) @ cs\<rparr>)" and nc: "no_commands cs"
    using vmadm_present_bad_manifest [OF vmadm_readyD(1) [OF ready] bad' p(1), of path] by blast
  then have "vmadm_main rt m w = (Exc e, w\<lparr>calls := calls w @ GetBinPath ''vmadm'' # cs\<rparr>)"
    using vmadm_main_run [OF vmadm_readyD(2,3) [OF ready] st] p(2)
    by (simp add: bnd_app after_call_def)
  moreover have "no_commands (GetBinPath ''vmadm'' # cs)"
    using nc by (simp add: no_commands_def)
  ultimately show ?thesis by blast
qed

end
