(* ===== verification/VmadmPlay.thy ===== *)
theory VmadmPlay
  imports AnsiblePlay Vmadm
begin

text \<open>
  Runs of the \<open>vmadm\<close> module against one hypervisor, as a play makes them: the specification \<open>task_step\<close>
  says what a task does to the machines and reports, and \<open>vmadm_plays_refine\<close> shows that the module,
  on a hypervisor that keeps the documented behaviour of \<open>vmadm\<close> (\<open>hypervisor\<close>), implements it on every
  sequence of tasks. The tasks name machines by alias.
\<close>

section \<open>Specification\<close>

record vm =
  vm_uuid :: string
  vm_alias :: string
  vm_running :: bool

datatype vm_task = Present string | Started string | Stopped string | Rebooted string | Absent string

fun task_alias :: "vm_task \<Rightarrow> string" where
  "task_alias (Present a) = a"
| "task_alias (Started a) = a"
| "task_alias (Stopped a) = a"
| "task_alias (Rebooted a) = a"
| "task_alias (Absent a) = a"

fun task_state :: "vm_task \<Rightarrow> string" where
  "task_state (Present a) = ''present''"
| "task_state (Started a) = ''started''"
| "task_state (Stopped a) = ''stopped''"
| "task_state (Rebooted a) = ''rebooted''"
| "task_state (Absent a) = ''absent''"

fun is_present :: "vm_task \<Rightarrow> bool" where
  "is_present (Present a) = True"
| "is_present _ = False"

fun task_verb :: "vm_task \<Rightarrow> string" where
  "task_verb (Present a) = ''create''"
| "task_verb (Started a) = ''start''"
| "task_verb (Stopped a) = ''stop''"
| "task_verb (Rebooted a) = ''reboot''"
| "task_verb (Absent a) = ''delete''"

definition aliases :: "vm list \<Rightarrow> string list" where
  "aliases vs = map vm_alias vs"

definition set_running :: "bool \<Rightarrow> string \<Rightarrow> vm list \<Rightarrow> vm list" where
  "set_running b u vs = map (\<lambda>v. if vm_uuid v = u then v\<lparr>vm_running := b\<rparr> else v) vs"

text \<open>The effect of a task on the machine with uuid \<open>u\<close>.\<close>

fun task_effect :: "vm_task \<Rightarrow> string \<Rightarrow> vm list \<Rightarrow> vm list" where
  "task_effect (Stopped a) u vs = set_running False u vs"
| "task_effect (Absent a) u vs = filter (\<lambda>v. vm_uuid v \<noteq> u) vs"
| "task_effect _ u vs = set_running True u vs"

text \<open>The steps of a play. \<open>vms\<close> reads the machines off the state of the host and \<open>allows\<close> says which
  requests the hypervisor grants in a state. A task fails only when it names no machine or is
  refused, and then it changes nothing; a machine that is present is not created again.\<close>

inductive task_step ::
  "('h \<Rightarrow> vm list) \<Rightarrow> ('h \<Rightarrow> string \<Rightarrow> string \<Rightarrow> bool) \<Rightarrow> vm_task \<Rightarrow> 'h \<Rightarrow> task_report \<Rightarrow> 'h \<Rightarrow> bool"
  for vms allows where
  known: "a \<in> set (aliases (vms h)) \<Longrightarrow> task_step vms allows (Present a) h Unchanged h"
| created: "vm_alias v \<notin> set (aliases (vms h)) \<Longrightarrow> allows h ''create'' (vm_alias v) \<Longrightarrow>
    vm_uuid v \<notin> vm_uuid ` set (vms h) \<Longrightarrow> vms h' = vms h @ [v] \<Longrightarrow>
    task_step vms allows (Present (vm_alias v)) h Changed h'"
| unknown: "\<not> is_present t \<Longrightarrow> task_alias t \<notin> set (aliases (vms h)) \<Longrightarrow>
    task_step vms allows t h Failed h"
| performed: "\<not> is_present t \<Longrightarrow> v \<in> set (vms h) \<Longrightarrow> vm_alias v = task_alias t \<Longrightarrow>
    allows h (task_verb t) (task_alias t) \<Longrightarrow> vms h' = task_effect t (vm_uuid v) (vms h) \<Longrightarrow>
    task_step vms allows t h Changed h'"
| refused: "task_alias t \<in> set (aliases (vms h)) \<longleftrightarrow> \<not> is_present t \<Longrightarrow>
    \<not> allows h (task_verb t) (task_alias t) \<Longrightarrow> vms h' = vms h \<Longrightarrow>
    task_step vms allows t h Failed h'"

definition unique :: "vm list \<Rightarrow> bool" where
  "unique vs = (distinct (aliases vs) \<and> distinct (map vm_uuid vs))"

text \<open>What a task is for.\<close>

fun achieved :: "vm_task \<Rightarrow> vm list \<Rightarrow> bool" where
  "achieved (Present a) vs = (a \<in> set (aliases vs))"
| "achieved (Absent a) vs = (a \<notin> set (aliases vs))"
| "achieved (Stopped a) vs = list_all (\<lambda>v. vm_alias v = a \<longrightarrow> \<not> vm_running v) vs"
| "achieved t vs = list_all (\<lambda>v. vm_alias v = task_alias t \<longrightarrow> vm_running v) vs"

section \<open>Properties of the specification\<close>

lemma set_running_simps [simp]:
  "aliases (set_running b u vs) = aliases vs" "map vm_uuid (set_running b u vs) = map vm_uuid vs"
  by (auto simp: aliases_def set_running_def comp_def)

lemma unique_alias:
  "unique vs \<Longrightarrow> v \<in> set vs \<Longrightarrow> v' \<in> set vs \<Longrightarrow> vm_alias v = vm_alias v' \<longleftrightarrow> vm_uuid v = vm_uuid v'"
  unfolding unique_def aliases_def distinct_map by (metis inj_onD)

lemma unique_running [simp]: "unique (set_running b u vs) = unique vs"
  by (simp add: unique_def)

lemma unique_filter: "unique vs \<Longrightarrow> unique (filter P vs)"
  by (simp add: unique_def aliases_def distinct_map_filter)

lemma unique_effect: "unique vs \<Longrightarrow> unique (task_effect t u vs)"
  by (cases t) (simp_all add: unique_filter)

lemma task_step_unique:
  "task_step vms allows t h r h' \<Longrightarrow> unique (vms h) \<Longrightarrow> unique (vms h')"
  by (induction rule: task_step.induct) (auto simp: unique_effect, auto simp: unique_def aliases_def)

lemma task_effect_achieves:
  assumes "unique vs" "v \<in> set vs" "vm_alias v = task_alias t" "\<not> is_present t"
  shows "achieved t (task_effect t (vm_uuid v) vs)"
proof -
  have "vm_uuid x = vm_uuid v" if "x \<in> set vs" "vm_alias x = task_alias t" for x
    using unique_alias [OF assms(1) that(1) assms(2)] assms(3) that(2) by simp
  with assms(4) show ?thesis
    by (cases t) (auto simp: set_running_def aliases_def list_all_iff)
qed

lemma task_step_achieves:
  "task_step vms allows t h r h' \<Longrightarrow> unique (vms h) \<Longrightarrow> r \<noteq> Failed \<Longrightarrow> achieved t (vms h')"
  by (induction rule: task_step.induct) (auto simp: task_effect_achieves, auto simp: aliases_def)

section \<open>The hypervisor\<close>

text \<open>The documented behaviour of \<open>vmadm\<close>. \<open>lookup\<close> prints the uuids of the machines with an alias,
  one per line, and changes nothing. \<open>create\<close> adds one machine with the alias of the manifest and
  a new uuid. The other verbs take a uuid (white space after it is dropped when the command line is
  split) and say \<open>Successfully\<close> on standard error. What is not granted fails, with an exit code that is
  not 0, and changes no machine.\<close>

definition uuid_lines :: "string \<Rightarrow> vm list \<Rightarrow> string" where
  "uuid_lines a vs = concat (map (\<lambda>v. vm_uuid v @ [CHR 0x0A]) (filter (\<lambda>v. vm_alias v = a) vs))"

definition verb_cmd :: "string \<Rightarrow> vm_task \<Rightarrow> string \<Rightarrow> string" where
  "verb_cmd path t so = path @ '' '' @ task_verb t @ '' '' @ so"

text \<open>A name that the splitting of a command line leaves alone.\<close>

definition plain :: "string \<Rightarrow> bool" where
  "plain a = (a \<noteq> [] \<and> list_all (\<lambda>c. c \<in> set ''abcdefghijklmnopqrstuvwxyz0123456789-._'') a)"

definition hypervisor ::
  "pyrt \<Rightarrow> (string \<Rightarrow> ('h, int \<times> string \<times> string) outside) \<Rightarrow> string \<Rightarrow> ('h \<Rightarrow> vm list)
   \<Rightarrow> ('h \<Rightarrow> string \<Rightarrow> string \<Rightarrow> bool) \<Rightarrow> bool" where
  "hypervisor rt run path vms allows =
     ((\<forall>a fs h. plain a \<longrightarrow> (\<exists>rc se.
         run (lookup_cmd rt path (PStr a)) (fs, h) = (Ret (rc, uuid_lines a (vms h), se), (fs, h))))
    \<and> (\<forall>mf a fs h. manifest_alias rt fs mf (PStr a) \<longrightarrow> (\<exists>rc so se h'.
         run (create_cmd path mf) (fs, h) = (Ret (rc, so, se), (fs, h'))
         \<and> (if allows h ''create'' a
            then rc = 0 \<and> (\<exists>u b. u \<notin> vm_uuid ` set (vms h)
                   \<and> vms h' = vms h @ [\<lparr>vm_uuid = u, vm_alias = a, vm_running = b\<rparr>])
            else rc \<noteq> 0 \<and> vms h' = vms h)))
    \<and> (\<forall>t v fs h. \<not> is_present t \<longrightarrow> unique (vms h) \<longrightarrow> v \<in> set (vms h) \<longrightarrow> vm_alias v = task_alias t \<longrightarrow>
         (\<exists>rc so se h'.
         run (verb_cmd path t (vm_uuid v @ [CHR 0x0A])) (fs, h) = (Ret (rc, so, se), (fs, h'))
         \<and> (if allows h (task_verb t) (task_alias t)
            then rc = 0 \<and> py_startswith se ''Successfully'' \<and> vms h' = task_effect t (vm_uuid v) (vms h)
            else rc \<noteq> 0 \<and> vms h' = vms h))))"

lemma hypervisorD:
  assumes "hypervisor rt run path vms allows"
  shows "plain a \<Longrightarrow> \<exists>rc se.
       run (lookup_cmd rt path (PStr a)) (fs, h) = (Ret (rc, uuid_lines a (vms h), se), (fs, h))"
    and "manifest_alias rt fs mf (PStr a) \<Longrightarrow> \<exists>rc so se h'.
       run (create_cmd path mf) (fs, h) = (Ret (rc, so, se), (fs, h'))
       \<and> (if allows h ''create'' a
          then rc = 0 \<and> (\<exists>u b. u \<notin> vm_uuid ` set (vms h)
                 \<and> vms h' = vms h @ [\<lparr>vm_uuid = u, vm_alias = a, vm_running = b\<rparr>])
          else rc \<noteq> 0 \<and> vms h' = vms h)"
    and "\<not> is_present t \<Longrightarrow> unique (vms h) \<Longrightarrow> v \<in> set (vms h) \<Longrightarrow> vm_alias v = task_alias t \<Longrightarrow>
       \<exists>rc so se h'.
       run (verb_cmd path t (vm_uuid v @ [CHR 0x0A])) (fs, h) = (Ret (rc, so, se), (fs, h'))
       \<and> (if allows h (task_verb t) (task_alias t)
          then rc = 0 \<and> py_startswith se ''Successfully'' \<and> vms h' = task_effect t (vm_uuid v) (vms h)
          else rc \<noteq> 0 \<and> vms h' = vms h)"
  using assms unfolding hypervisor_def by blast+

lemma uuid_lines_Nil: "uuid_lines a vs = [] \<longleftrightarrow> a \<notin> set (aliases vs)"
  by (auto simp: uuid_lines_def aliases_def)

lemma unique_alias_filter:
  "distinct (aliases vs) \<Longrightarrow> v \<in> set vs \<Longrightarrow> filter (\<lambda>x. vm_alias x = vm_alias v) vs = [v]"
  unfolding aliases_def by (induction vs) (auto simp: filter_empty_conv rev_image_eqI)

lemma uuid_lines_unique:
  "unique vs \<Longrightarrow> v \<in> set vs \<Longrightarrow> uuid_lines (vm_alias v) vs = vm_uuid v @ [CHR 0x0A]"
  unfolding uuid_lines_def unique_def by (simp add: unique_alias_filter)

section \<open>The module on a hypervisor\<close>

text \<open>The parameters with which a play asks for a task.\<close>

definition asks_for ::
  "pyrt \<Rightarrow> (string \<Rightarrow> ('h, int \<times> string \<times> string) outside) \<Rightarrow> string \<Rightarrow> fsys
   \<Rightarrow> 'h ansible_module \<Rightarrow> vm_task \<Rightarrow> bool" where
  "asks_for rt run path fs m t =
     (vmadm_ready m path \<and> m_run_command m = run \<and> plain (task_alias t)
      \<and> dict_get (params m) ''state'' = Some (PStr (task_state t))
      \<and> (if is_present t
         then \<exists>mf. mf \<noteq> [] \<and> dict_get (params m) ''manifest'' = Some (PStr mf)
                \<and> manifest_alias rt fs mf (PStr (task_alias t))
         else dict_get (params m) ''alias'' = Some (PStr (task_alias t))))"

lemma asks_forD:
  assumes "asks_for rt run path fs m t"
  shows "vmadm_ready m path" "m_run_command m = run" "plain (task_alias t)"
    "dict_get (params m) ''state'' = Some (PStr (task_state t))"
    "is_present t \<Longrightarrow> \<exists>mf. mf \<noteq> [] \<and> dict_get (params m) ''manifest'' = Some (PStr mf)
       \<and> manifest_alias rt fs mf (PStr (task_alias t))"
    "\<not> is_present t \<Longrightarrow> dict_get (params m) ''alias'' = Some (PStr (task_alias t))"
  using assms unfolding asks_for_def by (simp_all split: if_splits)

lemma plain_nonempty: "plain a \<Longrightarrow> a \<noteq> []"
  by (simp add: plain_def)

lemma present_refines:
  assumes hv: "hypervisor rt run path vms allows"
    and asks: "asks_for rt run path (files w) m (Present a)"
  shows "\<exists>w'. snd (vmadm_main rt m w) = w' \<and> files w' = files w
     \<and> task_step vms allows (Present a) (host w) (report_of (last (calls w'))) (host w')"
proof -
  note q = asks_forD [OF asks, simplified]
  obtain mf where mf: "mf \<noteq> []" "dict_get (params m) ''manifest'' = Some (PStr mf)"
    and al: "manifest_alias rt (files w) mf (PStr a)"
    using q(5) by blast
  obtain rc se where l: "m_run_command m (lookup_cmd rt path (PStr a)) (files w, host w)
      = (Ret (rc, uuid_lines a (vms (host w)), se), (files w, host w))"
    using hypervisorD(1) [OF hv q(3)] q(2) by blast
  note main = vmadm_main_present [OF q(1) q(4) mf(2,1) al l]
  show ?thesis
  proof (cases "a \<in> set (aliases (vms (host w)))")
    case True
    then show ?thesis
      using main task_step.known by (simp add: Let_def uuid_lines_Nil dict_get_def)
  next
    case False
    obtain rc so se h' where c: "run (create_cmd path mf) (files w, host w) = (Ret (rc, so, se), (files w, h'))"
      and e: "if allows (host w) ''create'' a
          then rc = 0 \<and> (\<exists>u b. u \<notin> vm_uuid ` set (vms (host w))
                 \<and> vms h' = vms (host w) @ [\<lparr>vm_uuid = u, vm_alias = a, vm_running = b\<rparr>])
          else rc \<noteq> 0 \<and> vms h' = vms (host w)"
      using hypervisorD(2) [OF hv al] by blast
    have step: "task_step vms allows (Present a) (host w) (if rc = 0 then Changed else Failed) h'"
      using e False task_step.created [of "\<lparr>vm_uuid = _, vm_alias = a, vm_running = _\<rparr>" vms]
        task_step.refused [of "Present a" vms]
      by (auto split: if_splits)
    then show ?thesis
      using main False c q(2) vmadm_readyD(1) [OF q(1)]
      by (simp add: Let_def uuid_lines_Nil run_command_def vmadm_finish_app io_simps dict_get_def split: if_splits)
  qed
qed

lemma vmadm_main_alias:
  assumes ready: "vmadm_ready m path" and t: "\<not> is_present t"
    and st: "dict_get (params m) ''state'' = Some (PStr (task_state t))"
    and al: "dict_get (params m) ''alias'' = Some (PStr a)" "a \<noteq> []"
    and l: "m_run_command m (lookup_cmd rt path (PStr a)) (files w, host w) = (Ret (rc, so, se), s)"
    and so: "so \<noteq> []"
    and run: "m_run_command m (verb_cmd path t so) s = (Ret (rc', so', se'), s')"
  shows "\<exists>w'. snd (vmadm_main rt m w) = w' \<and> files w' = fst s' \<and> host w' = snd s'
     \<and> last (calls w') = (if rc' = 0 then vmadm_exit (py_startswith se' ''Successfully'') so'
                          else msg_fail se')"
proof -
  have p: "param_get m ''alias'' PNone = PStr a"
    using al by (simp add: param_get_def)
  have ne: "PStr (task_state t) \<noteq> PStr ''present''"
    and simple: "task_state t \<in> set [''started'', ''stopped'', ''rebooted'', ''absent'']"
    and sub: "vmadm_subcommand (task_state t) = task_verb t"
    using t by (cases t; simp)+
  have other: "vmadm_other rt m path (PStr (task_state t)) uu (PStr a) mf pl (after_bin w) =
      vmadm_simple rt m path (PStr (task_state t)) (PStr so)
        (after_call (after_bin w) (RunCommand (lookup_cmd rt path (PStr a))) s)" for uu mf pl
    using l al(2) so simple
    by (auto simp: vmadm_other_def vmadm_alias_lookup_def run_command_def io_simps)
  show ?thesis
    unfolding vmadm_main_other [OF ready st ne] bnd_app p other
    using sub run vmadm_readyD(1) [OF ready]
    by (simp add: vmadm_simple_def verb_cmd_def run_command_def py_find_0_iff vmadm_finish_app io_simps)
qed

lemma other_refines:
  assumes hv: "hypervisor rt run path vms allows"
    and asks: "asks_for rt run path (files w) m t" and t: "\<not> is_present t"
    and u: "unique (vms (host w))"
  shows "\<exists>w'. snd (vmadm_main rt m w) = w' \<and> files w' = files w
     \<and> task_step vms allows t (host w) (report_of (last (calls w'))) (host w')"
proof -
  note q = asks_forD [OF asks]
  let ?a = "task_alias t"
  have ne: "?a \<noteq> []" and st: "task_state t \<noteq> ''present''"
    using q(3) plain_nonempty t by (auto, cases t, auto)
  obtain rc se where l: "m_run_command m (lookup_cmd rt path (PStr ?a)) (files w, host w)
      = (Ret (rc, uuid_lines ?a (vms (host w)), se), (files w, host w))"
    using hypervisorD(1) [OF hv q(3)] q(2) by blast
  show ?thesis
  proof (cases "?a \<in> set (aliases (vms (host w)))")
    case False
    then show ?thesis
      using vmadm_unknown_alias_fails [OF q(1) q(4) st q(6) [OF t] ne, of rt w] l t task_step.unknown
      by (fastforce simp: uuid_lines_Nil)
  next
    case True
    then obtain v where v: "v \<in> set (vms (host w))" "vm_alias v = ?a"
      by (auto simp: aliases_def)
    then have lines: "uuid_lines ?a (vms (host w)) = vm_uuid v @ [CHR 0x0A]"
      using uuid_lines_unique [OF u v(1)] by simp
    obtain rc' so' se' h' where
      r: "run (verb_cmd path t (vm_uuid v @ [CHR 0x0A])) (files w, host w) = (Ret (rc', so', se'), (files w, h'))"
      and e: "if allows (host w) (task_verb t) ?a
          then rc' = 0 \<and> py_startswith se' ''Successfully'' \<and> vms h' = task_effect t (vm_uuid v) (vms (host w))
          else rc' \<noteq> 0 \<and> vms h' = vms (host w)"
      using hypervisorD(3) [OF hv t u v] by blast
    have "task_step vms allows t (host w) (if rc' = 0 then Changed else Failed) h'"
      using e True task_step.performed [of t v vms, OF t v] task_step.refused [of t vms] t
      by (auto split: if_splits)
    then show ?thesis
      using vmadm_main_alias [OF q(1) t q(4) q(6) [OF t] ne l, unfolded lines q(2), OF _ r] e
      by (auto simp: dict_get_def split: if_splits)
  qed
qed

lemma task_refines:
  assumes "hypervisor rt run path vms allows" "asks_for rt run path (files w) m t" "unique (vms (host w))"
    and "snd (vmadm_main rt m w) = w'"
  shows "files w' = files w \<and> task_step vms allows t (host w) (report_of (last (calls w'))) (host w')"
  using assms present_refines [OF assms(1), of w m] other_refines [OF assms(1,2) _ assms(3)]
  by (cases "is_present t"; cases t) auto

interpretation vm_play: play "vmadm_main rt" "asks_for rt run path" "task_step vms allows"
    "\<lambda>h. hypervisor rt run path vms allows \<and> unique (vms h)" for rt run path and vms :: "'h \<Rightarrow> vm list" and allows
proof unfold_locales
  fix w m t and w' :: "'h world"
  assume "asks_for rt run path (files w) m t" "snd (vmadm_main rt m w) = w'"
    "hypervisor rt run path vms allows \<and> unique (vms (host w))"
  then show "files w' = files w \<and> task_step vms allows t (host w) (report_of (last (calls w'))) (host w')"
    by (intro task_refines) simp_all
next
  fix t r and h h' :: 'h
  assume "task_step vms allows t h r h'" "hypervisor rt run path vms allows \<and> unique (vms h)"
  then show "hypervisor rt run path vms allows \<and> unique (vms h')"
    using task_step_unique [of vms allows t h r h'] by simp
qed

text \<open>C3. Runs of the module implement the tasks of a play. On a hypervisor with the documented
  behaviour and with unique aliases and uuids, the runs that a play makes for its tasks report and do,
  task by task, what the specification says: a machine is created only if its alias is new, a verb
  reaches the one machine with the alias, and a task that fails changes nothing. Aliases and uuids
  stay unique, no file changes, and if the last task does not fail, what it asks for holds at the end.\<close>

theorem vmadm_plays_refine:
  assumes hv: "hypervisor rt run path vms allows"
    and asks: "list_all2 (asks_for rt run path (files w)) ms ts"
    and u: "unique (vms (host w))"
    and play: "play_runs (vmadm_main rt) ms w = (rs, w')"
  shows "task_steps (task_step vms allows) ts (host w) rs (host w') \<and> files w' = files w
    \<and> unique (vms (host w'))
    \<and> (ts = [] \<or> last rs = Failed \<or> achieved (last ts) (vms (host w')))"
proof -
  have run: "files w' = files w" "task_steps (task_step vms allows) ts (host w) rs (host w')"
    using vm_play.refines [OF asks _ play] hv u by blast+
  have step: "unique (vms h') \<and> (r \<noteq> Failed \<longrightarrow> achieved t (vms h'))"
    if "task_step vms allows t h r h'" "unique (vms h)" for t h r h'
    using task_step_unique [OF that] task_step_achieves [OF that] by simp
  show ?thesis
    using run task_steps_last [OF _ run(2), of "\<lambda>h. unique (vms h)" "\<lambda>t h. achieved t (vms h)"] step u
    by blast
qed

section \<open>A sample hypervisor\<close>

text \<open>Its state is the list of machines. It refuses to reboot.\<close>

definition new_uuid :: "vm list \<Rightarrow> string" where
  "new_uuid vs = replicate (Suc (sum_list (map (length \<circ> vm_uuid) vs))) (CHR ''u'')"

definition verb_on :: "(string \<Rightarrow> vm list \<Rightarrow> vm list) \<Rightarrow> string \<Rightarrow> vm list \<Rightarrow> (int \<times> string \<times> string) res \<times> vm list" where
  "verb_on f u vs = (Ret (0, [], ''Successfully completed''), f (butlast u) vs)"

definition hypervisor_run :: "string \<Rightarrow> (vm list, int \<times> string \<times> string) outside" where
  "hypervisor_run cmd = (\<lambda>(fs, vs).
     let (r, vs') =
       (if prefix ''vmadm lookup alias='' cmd then (Ret (0, uuid_lines (drop 19 cmd) vs, []), vs)
        else if prefix ''vmadm create '' cmd
        then (Ret (0, [], []), vs @ [\<lparr>vm_uuid = new_uuid vs, vm_alias = ''web'', vm_running = True\<rparr>])
        else if prefix ''vmadm start '' cmd then verb_on (set_running True) (drop 12 cmd) vs
        else if prefix ''vmadm stop '' cmd then verb_on (set_running False) (drop 11 cmd) vs
        else if prefix ''vmadm delete '' cmd
        then verb_on (\<lambda>u. filter (\<lambda>v. vm_uuid v \<noteq> u)) (drop 13 cmd) vs
        else (Ret (1, [], ''refused''), vs))
     in (r, (fs, vs')))"

definition grants :: "vm list \<Rightarrow> string \<Rightarrow> string \<Rightarrow> bool" where
  "grants vs verb a = (verb \<noteq> ''reboot'')"

lemma new_uuid: "new_uuid vs \<notin> vm_uuid ` set vs"
proof
  assume "new_uuid vs \<in> vm_uuid ` set vs"
  then obtain v where v: "v \<in> set vs" "new_uuid vs = vm_uuid v" by auto
  then have "length (vm_uuid v) \<le> sum_list (map (length \<circ> vm_uuid) vs)"
    by (auto intro: member_le_sum_list)
  moreover have "length (new_uuid vs) = Suc (sum_list (map (length \<circ> vm_uuid) vs))"
    unfolding new_uuid_def by (rule length_replicate)
  ultimately show False using v(2) by simp
qed

lemma sample_manifest_alias: "manifest_alias sample_rt fs mf (PStr a) \<Longrightarrow> a = ''web''"
  by (auto simp: manifest_alias_def sample_rt_def dict_get_def split: if_splits)

lemma sample_hypervisor: "hypervisor sample_rt hypervisor_run ''vmadm'' id grants"
  unfolding hypervisor_def
proof (intro conjI allI impI)
  fix a fs and h :: "vm list"
  show "\<exists>rc se. hypervisor_run (lookup_cmd sample_rt ''vmadm'' (PStr a)) (fs, h)
      = (Ret (rc, uuid_lines a (id h), se), (fs, h))"
    by (simp add: hypervisor_run_def)
next
  fix mf a fs and h :: "vm list"
  assume "manifest_alias sample_rt fs mf (PStr a)"
  then have "a = ''web''" by (rule sample_manifest_alias)
  then show "\<exists>rc so se h'. hypervisor_run (create_cmd ''vmadm'' mf) (fs, h) = (Ret (rc, so, se), (fs, h'))
      \<and> (if grants h ''create'' a
         then rc = 0 \<and> (\<exists>u b. u \<notin> vm_uuid ` set (id h)
                \<and> id h' = id h @ [\<lparr>vm_uuid = u, vm_alias = a, vm_running = b\<rparr>])
         else rc \<noteq> 0 \<and> id h' = id h)"
    using new_uuid [of h] by (auto simp: hypervisor_run_def grants_def)
next
  fix t v fs and h :: "vm list"
  assume "\<not> is_present t"
  then show "\<exists>rc so se h'. hypervisor_run (verb_cmd ''vmadm'' t (vm_uuid v @ [CHR 0x0A])) (fs, h)
        = (Ret (rc, so, se), (fs, h'))
      \<and> (if grants h (task_verb t) (task_alias t)
         then rc = 0 \<and> py_startswith se ''Successfully'' \<and> id h' = task_effect t (vm_uuid v) (id h)
         else rc \<noteq> 0 \<and> id h' = id h)"
    by (cases t) (simp_all add: hypervisor_run_def verb_cmd_def verb_on_def grants_def py_startswith_def)
qed

text \<open>A play that creates a machine, asks for it again, stops it, fails to reboot it, and deletes it.\<close>

definition play_module :: "pydict \<Rightarrow> vm list ansible_module" where
  "play_module p = \<lparr>params = p, check_mode = False,
     m_get_bin_path = (\<lambda>n s. (Ret n, s)), m_run_command = hypervisor_run,
     m_fail_json = (\<lambda>kw s. (Exc (SystemExit 1), s)),
     m_exit_json = (\<lambda>kw s. (Exc (SystemExit 0), s))\<rparr>"

definition sample_play :: "vm list ansible_module list" where
  "sample_play = map play_module
     [sample_params ''present'' PNone PNone (PStr ''m''),
      sample_params ''present'' PNone PNone (PStr ''m''),
      sample_params ''stopped'' PNone (PStr ''web'') PNone,
      sample_params ''rebooted'' PNone (PStr ''web'') PNone,
      sample_params ''absent'' PNone (PStr ''web'') PNone]"

definition sample_tasks :: "vm_task list" where
  "sample_tasks = [Present ''web'', Present ''web'', Stopped ''web'', Rebooted ''web'', Absent ''web'']"

definition empty_host :: "vm list world" where
  "empty_host = \<lparr>files = [''m'' \<mapsto> RegularFile ''M''], host = [], calls = []\<rparr>"

lemma sample_play_asks:
  "list_all2 (asks_for sample_rt hypervisor_run ''vmadm'' (files empty_host)) sample_play sample_tasks"
  by (simp add: sample_play_def sample_tasks_def asks_for_def vmadm_ready_def ansible_contract_def
      play_module_def plain_def empty_host_def manifest_alias_def sample_rt_def sample_params_def
      dict_get_def conforms_def vmadm_spec_def vmadm_exclusive_def given_def)

theorem vmadm_plays_refine_witness:
  "case play_runs (vmadm_main sample_rt) sample_play empty_host of (rs, w') \<Rightarrow>
     task_steps (task_step id grants) sample_tasks (host empty_host) rs (host w') \<and> files w' = files empty_host
     \<and> unique (id (host w'))
     \<and> (sample_tasks = [] \<or> last rs = Failed \<or> achieved (last sample_tasks) (id (host w')))"
proof -
  obtain rs w' where r: "play_runs (vmadm_main sample_rt) sample_play empty_host = (rs, w')"
    by (rule prod.exhaust)
  have "unique (id (host empty_host))"
    by (simp add: unique_def aliases_def empty_host_def)
  from vmadm_plays_refine [OF sample_hypervisor sample_play_asks this r] show ?thesis
    unfolding r prod.case .
qed

end
