(* ===== verification/Zabbix.thy ===== *)
theory Zabbix
  imports Ansible
begin

text \<open>
  The Zabbix client library as the Ansible modules of \<open>ansible/roles/esdc-mon/library\<close> use it,
  and the module \<open>zabbix.py\<close>, which performs one API call.

  The package \<open>zabbix_api\<close> is not part of the repository: the record \<open>zabbix_client\<close> is a
  parameter that holds its constructor, \<open>login\<close>, \<open>call\<close> and the proxied API methods
  (\<open>zbx.template.get(p)\<close> and the like) as arbitrary functions.
\<close>

section \<open>The client\<close>

record 'h zabbix_client =
  za_available :: bool
  za_connect :: "pyval \<Rightarrow> pyval \<Rightarrow> pyval \<Rightarrow> ('h, unit) outside"
  za_login :: "pyval \<Rightarrow> pyval \<Rightarrow> ('h, unit) outside"
  za_call :: "pyval \<Rightarrow> pyval \<Rightarrow> ('h, pyval) outside"
  za_method :: "string \<Rightarrow> pyval \<Rightarrow> ('h, pyval) outside"

fun is_ZabbixAPIException :: "exn \<Rightarrow> bool" where
  "is_ZabbixAPIException (ZabbixAPIException _) = True"
| "is_ZabbixAPIException _ = False"

text \<open>\<open>zbx.<path>(arg)\<close>.\<close>

definition zbx_method :: "'h zabbix_client \<Rightarrow> string \<Rightarrow> pyval \<Rightarrow> ('h world, pyval) io" where
  "zbx_method z path arg = ext (LibCall path [arg]) (za_method z path arg)"

definition missing_zabbix_api :: string where
  "missing_zabbix_api =
     ''Missing required zabbix-api module (check docs or install with: pip install zabbix-api-erigones)''"

text \<open>\<open>if not ZabbixAPI: module.fail_json(...); raise AssertionError\<close>.\<close>

definition require_zabbix_api :: "'h zabbix_client \<Rightarrow> 'h ansible_module \<Rightarrow> ('h world, unit) io" where
  "require_zabbix_api z m =
     if_then (\<not> za_available z) (sq (fail_msg m missing_zabbix_api) (raise AssertionError))"

text \<open>The block commented \<open>login to zabbix\<close>, the same in both modules.\<close>

definition zabbix_login ::
  "'h zabbix_client \<Rightarrow> 'h ansible_module \<Rightarrow> pyval \<Rightarrow> pyval \<Rightarrow> pyval \<Rightarrow> pyval \<Rightarrow> pyval
   \<Rightarrow> ('h world, unit) io" where
  "zabbix_login z m server_url timeout ssl_verify login_user login_password =
     try_except
       (sq (ext (LibCall ''ZabbixAPI'' [server_url, timeout, ssl_verify])
              (za_connect z server_url timeout ssl_verify))
           (ext (LibCall ''login'' [login_user, login_password]) (za_login z login_user login_password)))
       is_Exception
       (\<lambda>e. sq (fail_msg m (''Failed to connect to Zabbix server: '' @ exn_str e))
              (raise AssertionError))"

section \<open>The module\<close>

definition zabbix_spec :: "argument list" where
  "zabbix_spec =
     [\<lparr>arg_name = ''server_url'', arg_type = TStr, arg_required = True, arg_default = PNone,
       arg_choices = []\<rparr>,
      \<lparr>arg_name = ''login_user'', arg_type = TStr, arg_required = True, arg_default = PNone,
       arg_choices = []\<rparr>,
      \<lparr>arg_name = ''login_password'', arg_type = TStr, arg_required = True, arg_default = PNone,
       arg_choices = []\<rparr>,
      \<lparr>arg_name = ''api_method'', arg_type = TStr, arg_required = True, arg_default = PNone,
       arg_choices = []\<rparr>,
      \<lparr>arg_name = ''api_params_dict'', arg_type = TDict, arg_required = False,
       arg_default = PDict [], arg_choices = []\<rparr>,
      \<lparr>arg_name = ''api_params_list'', arg_type = TList, arg_required = False,
       arg_default = PList [], arg_choices = []\<rparr>,
      \<lparr>arg_name = ''timeout'', arg_type = TInt, arg_required = False, arg_default = PInt 10,
       arg_choices = []\<rparr>,
      \<lparr>arg_name = ''validate_certs'', arg_type = TBool, arg_required = False,
       arg_default = PBool False, arg_choices = []\<rparr>]"

text \<open>\<open>v.endswith(('.get', '.isreadable', '.iswritable'))\<close>.\<close>

fun reads_only :: "pyval \<Rightarrow> bool res" where
  "reads_only (PStr s) =
     Ret (py_endswith s ''.get'' \<or> py_endswith s ''.isreadable'' \<or> py_endswith s ''.iswritable'')"
| "reads_only v = Exc (AttributeError ''object has no attribute endswith'')"

text \<open>\<open>api_params\<close>.\<close>

definition zabbix_params :: "'h ansible_module \<Rightarrow> ('h world, pyval) io" where
  "zabbix_params m =
     bnd (param m ''api_params_list'') (\<lambda>l. if truthy l then ret l else param m ''api_params_dict'')"

definition zabbix_main :: "'h zabbix_client \<Rightarrow> 'h ansible_module \<Rightarrow> ('h world, unit) io" where
  "zabbix_main z m =
     sq (require_zabbix_api z m)
     (bnd (param m ''server_url'') (\<lambda>server_url.
      bnd (param m ''login_user'') (\<lambda>login_user.
      bnd (param m ''login_password'') (\<lambda>login_password.
      bnd (param m ''api_method'') (\<lambda>api_method.
      bnd (zabbix_params m) (\<lambda>api_params.
      bnd (param m ''timeout'') (\<lambda>timeout.
      bnd (param m ''validate_certs'') (\<lambda>ssl_verify.
      sq (zabbix_login z m server_url timeout ssl_verify login_user login_password)
      (bnd (try_except
             (ext (LibCall ''call'' [api_method, api_params]) (za_call z api_method api_params))
             is_Exception
             (\<lambda>e. sq (if is_ZabbixAPIException e
                      then fail_msg m (''Zabbix API error: '' @ exn_str e)
                      else fail_msg m (''Unknown failure: '' @ exn_str e))
                     (raise AssertionError))) (\<lambda>result.
       bnd (lift_res (reads_only api_method)) (\<lambda>ro.
         exit_json m [(''changed'', PBool (\<not> ro)), (''result'', result)])))))))))))"

section \<open>The contract of the module\<close>

lemma disciplined_zbx_method [disc_intros]: "disciplined (zbx_method z path arg)"
  unfolding zbx_method_def by (rule disciplined_ext) simp

lemma disciplined_require_zabbix [disc_intros]:
  "ansible_contract m \<Longrightarrow> disciplined (require_zabbix_api z m)"
  unfolding require_zabbix_api_def by (intro disc_intros)

lemma disciplined_zabbix_login [disc_intros]:
  "ansible_contract m \<Longrightarrow> disciplined (zabbix_login z m su to sv u p)"
  unfolding zabbix_login_def
  by (intro disciplined_try_quiet emits_intros disc_intros) auto

lemma disciplined_zabbix_params [disc_intros]: "disciplined (zabbix_params m)"
  unfolding zabbix_params_def by (intro disc_intros)

interpretation zabbix_prog: ansible_program "zabbix_main z" for z :: "'h zabbix_client"
proof unfold_locales
  fix m :: "'h ansible_module"
  assume c: "ansible_contract m"
  show "disciplined (zabbix_main z m)"
    unfolding zabbix_main_def using c by (intro disc_intros) auto
  show "never_returns (zabbix_main z m)"
    unfolding zabbix_main_def using c by (intro ends_intros)
qed

section \<open>A session\<close>

text \<open>The client is installed; connecting and logging in take the outside from \<open>s\<close> to
  \<open>s'\<close>.\<close>

definition zabbix_session ::
  "'h zabbix_client \<Rightarrow> 'h ansible_module \<Rightarrow> fsys \<times> 'h \<Rightarrow> call list \<Rightarrow> fsys \<times> 'h \<Rightarrow> bool" where
  "zabbix_session z m s cs s' =
     (za_available z \<and>
      (\<exists>su u p to sv s1. dict_get (params m) ''server_url'' = Some su
        \<and> dict_get (params m) ''login_user'' = Some u \<and> dict_get (params m) ''login_password'' = Some p
        \<and> dict_get (params m) ''timeout'' = Some to \<and> dict_get (params m) ''validate_certs'' = Some sv
        \<and> za_connect z su to sv s = (Ret (), s1) \<and> za_login z u p s1 = (Ret (), s')
        \<and> cs = [LibCall ''ZabbixAPI'' [su, to, sv], LibCall ''login'' [u, p]]))"

lemma zabbix_sessionE:
  assumes "zabbix_session z m s cs s'"
  obtains su u p to sv s1 where "za_available z"
    "dict_get (params m) ''server_url'' = Some su" "dict_get (params m) ''login_user'' = Some u"
    "dict_get (params m) ''login_password'' = Some p" "dict_get (params m) ''timeout'' = Some to"
    "dict_get (params m) ''validate_certs'' = Some sv"
    "za_connect z su to sv s = (Ret (), s1)" "za_login z u p s1 = (Ret (), s')"
    "cs = [LibCall ''ZabbixAPI'' [su, to, sv], LibCall ''login'' [u, p]]"
  using assms unfolding zabbix_session_def by blast

lemma zabbix_login_ok:
  assumes "za_connect z su to sv (files w, host w) = (Ret (), s1)" "za_login z u p s1 = (Ret (), s')"
  shows "zabbix_login z m su to sv u p w =
     (Ret (), after_call (after_call w (LibCall ''ZabbixAPI'' [su, to, sv]) s1)
                (LibCall ''login'' [u, p]) s')"
  using assms by (simp add: zabbix_login_def io_simps)

text \<open>The parameters have the types the module asks for, so the call gets a list or a dictionary.\<close>

lemma zabbix_conforms_arg:
  assumes "conforms zabbix_spec [] p"
    and "dict_get p ''api_params_list'' = Some l" "dict_get p ''api_params_dict'' = Some d"
  obtains xs ys where "l = PList xs" "d = PDict ys"
  using assms by (cases l; cases d) (auto simp: conforms_def zabbix_spec_def)

text \<open>C35. One API call per run: after connecting and logging in the module performs exactly the
  call it was given, with \<open>api_params_list\<close> unless that is empty. If the call returns, the
  module succeeds, hands the result on and reports a change exactly for the methods whose name does
  not end in \<open>.get\<close>, \<open>.isreadable\<close> or \<open>.iswritable\<close>; if the API rejects it or it
  fails otherwise, the module fails and says which of both.\<close>

theorem zabbix_one_call:
  assumes c: "ansible_contract m" and conf: "conforms zabbix_spec [] (params m)"
    and ses: "zabbix_session z m (files w, host w) cs s'"
    and p: "dict_get (params m) ''api_method'' = Some (PStr meth)"
      "dict_get (params m) ''api_params_list'' = Some l"
      "dict_get (params m) ''api_params_dict'' = Some d"
    and arg: "arg = (if l = PList [] then d else l)"
    and call: "za_call z (PStr meth) arg s' = (r, s'')"
    and catch: "\<And>e. r = Exc e \<Longrightarrow> is_Exception e"
  shows "\<exists>w'. zabbix_main z m w = (Exc (SystemExit (case r of Ret _ \<Rightarrow> 0 | Exc _ \<Rightarrow> 1)), w')
     \<and> files w' = fst s'' \<and> host w' = snd s''
     \<and> calls w' = calls w @ cs @ [LibCall ''call'' [PStr meth, arg],
         case r of
           Ret v \<Rightarrow> ExitJson [(''changed'', PBool (\<not> (\<exists>sfx \<in> set [''.get'', ''.isreadable'', ''.iswritable''].
                       suffix sfx meth))), (''result'', v)]
         | Exc (ZabbixAPIException s) \<Rightarrow> msg_fail (''Zabbix API error: '' @ s)
         | Exc e \<Rightarrow> msg_fail (''Unknown failure: '' @ exn_str e)]"
proof -
  from ses obtain su u pw to sv s1 where s: "za_available z"
    "dict_get (params m) ''server_url'' = Some su" "dict_get (params m) ''login_user'' = Some u"
    "dict_get (params m) ''login_password'' = Some pw" "dict_get (params m) ''timeout'' = Some to"
    "dict_get (params m) ''validate_certs'' = Some sv"
    "za_connect z su to sv (files w, host w) = (Ret (), s1)" "za_login z u pw s1 = (Ret (), s')"
    "cs = [LibCall ''ZabbixAPI'' [su, to, sv], LibCall ''login'' [u, pw]]"
    by (rule zabbix_sessionE)
  have args: "zabbix_params m = ret arg"
  proof -
    obtain xs ys where "l = PList xs" "d = PDict ys"
      by (rule zabbix_conforms_arg [OF conf p(2,3)])
    with p arg show ?thesis by (auto simp: zabbix_params_def param_def io_simps)
  qed
  note run = args zabbix_main_def require_zabbix_api_def param_def zabbix_login_ok [OF s(7,8)] io_simps
    py_endswith_def
  show ?thesis
  proof (cases r)
    case (Ret v)
    with c s p call show ?thesis
      by (simp add: run exit_json_app)
  next
    case (Exc e)
    with c s p call catch show ?thesis
      by (cases e) (simp_all add: run fail_msg_app)
  qed
qed

text \<open>The module declares \<open>supports_check_mode\<close> but never looks at the flag: a run in
  check mode is the same run, API call included.\<close>

lemma zabbix_ignores_check_mode:
  "zabbix_main z (m\<lparr>check_mode := True\<rparr>) = zabbix_main z (m\<lparr>check_mode := False\<rparr>)"
  by (simp add: zabbix_main_def require_zabbix_api_def zabbix_login_def zabbix_params_def ansible_defs cong: if_cong)

section \<open>Witnesses\<close>

definition sample_zabbix :: "'h zabbix_client" where
  "sample_zabbix = \<lparr>za_available = True, za_connect = (\<lambda>_ _ _ s. (Ret (), s)),
     za_login = (\<lambda>_ _ s. (Ret (), s)),
     za_call = (\<lambda>meth p s. if meth = PStr ''host.get'' then (Ret (PList [PStr ''h1'']), s)
                  else (Exc (ZabbixAPIException ''no permissions''), s)),
     za_method = (\<lambda>meth p s. (Ret PNone, s))\<rparr>"

definition sample_zbx_params :: "string \<Rightarrow> pydict" where
  "sample_zbx_params meth =
     [(''server_url'', PStr ''http://zbx''), (''login_user'', PStr ''u''), (''login_password'', PStr ''p''),
      (''api_method'', PStr meth), (''api_params_dict'', PDict [(''limit'', PInt 1)]),
      (''api_params_list'', PList []), (''timeout'', PInt 10), (''validate_certs'', PBool False)]"

definition sample_zbx_module :: "pydict \<Rightarrow> unit ansible_module" where
  "sample_zbx_module p = \<lparr>params = p, check_mode = False, m_get_bin_path = (\<lambda>n s. (Ret n, s)),
     m_run_command = (\<lambda>cmd s. (Ret (0, [], []), s)),
     m_fail_json = (\<lambda>kw s. (Exc (SystemExit 1), s)), m_exit_json = (\<lambda>kw s. (Exc (SystemExit 0), s))\<rparr>"

definition sample_zbx_world :: "unit world" where
  "sample_zbx_world = \<lparr>files = Map.empty, host = (), calls = []\<rparr>"

definition sample_zbx_session :: "call list" where
  "sample_zbx_session = [LibCall ''ZabbixAPI'' [PStr ''http://zbx'', PInt 10, PBool False],
     LibCall ''login'' [PStr ''u'', PStr ''p'']]"

lemmas sample_zbx_defs = sample_zabbix_def sample_zbx_params_def sample_zbx_module_def
  sample_zbx_world_def sample_zbx_session_def

theorem zabbix_one_call_witness:
  "let m = sample_zbx_module (sample_zbx_params ''host.get''); w = sample_zbx_world in
   \<exists>w'. zabbix_main sample_zabbix m w = (Exc (SystemExit 0), w')
     \<and> files w' = Map.empty \<and> host w' = ()
     \<and> calls w' = calls w @ sample_zbx_session
         @ [LibCall ''call'' [PStr ''host.get'', PDict [(''limit'', PInt 1)]],
            ExitJson [(''changed'', PBool False), (''result'', PList [PStr ''h1''])]]"
proof -
  let ?m = "sample_zbx_module (sample_zbx_params ''host.get'')"
  have "ansible_contract ?m"
    by (simp add: ansible_contract_def sample_zbx_defs)
  moreover have "zabbix_session sample_zabbix ?m (files sample_zbx_world, host sample_zbx_world)
      sample_zbx_session (Map.empty, ())"
    by (simp add: zabbix_session_def sample_zbx_defs dict_get_def)
  moreover have "conforms zabbix_spec [] (params ?m)"
    by (simp add: conforms_def zabbix_spec_def sample_zbx_defs dict_get_def)
  ultimately show ?thesis
    using zabbix_one_call [of ?m sample_zabbix sample_zbx_world sample_zbx_session "(Map.empty, ())"
        "''host.get''" "PList []" "PDict [(''limit'', PInt 1)]" "PDict [(''limit'', PInt 1)]"
        "Ret (PList [PStr ''h1''])" "(Map.empty, ())"]
    by (simp add: sample_zbx_defs dict_get_def suffix_def Let_def)
qed

end
