(* ===== verification/XmlIndent.thy ===== *)
theory XmlIndent
  imports Prelude
begin

text \<open>
  The pretty printer \<open>indent\<close> of \<open>zabbix_template.py\<close> on \<open>ElementTree\<close> elements. An
  element has a tag, attributes, the text before its first child, the tail after its end tag, and
  its children; \<open>None\<close> is a missing text. The function updates the elements in place; on a tree
  (no shared elements) this is the function below. Its loop \<open>for elem in elem\<close> rebinds the
  variable, so the statement after the loop is about the last child.

  White space is Unicode's, as \<open>strip\<close> of text removes it.
\<close>

section \<open>White space of text\<close>

definition uspaces :: "string list" where
  "uspaces =
     [[CHR '' ''], [CHR 0x0A], [CHR 0x09], [CHR 0x0B], [CHR 0x0C], [CHR 0x0D],
      [CHR 0x1C], [CHR 0x1D], [CHR 0x1E], [CHR 0x1F],
      [CHR 0xC2, CHR 0x85], [CHR 0xC2, CHR 0xA0], [CHR 0xE1, CHR 0x9A, CHR 0x80]]
     @ map (\<lambda>n. [CHR 0xE2, CHR 0x80, char_of (n :: nat)])
         [0x80, 0x81, 0x82, 0x83, 0x84, 0x85, 0x86, 0x87, 0x88, 0x89, 0x8A, 0xA8, 0xA9, 0xAF]
     @ [[CHR 0xE2, CHR 0x81, CHR 0x9F], [CHR 0xE3, CHR 0x80, CHR 0x80]]"

function ulstrip :: "string \<Rightarrow> string" where
  "ulstrip s = (case find (\<lambda>u. prefix u s) uspaces of
     None \<Rightarrow> s | Some u \<Rightarrow> ulstrip (drop (length u) s))"
  by pat_completeness auto

lemma uspaces_nonempty: "u \<in> set uspaces \<Longrightarrow> u \<noteq> []"
  by (auto simp: uspaces_def)

termination ulstrip
proof (relation "measure length")
  fix s u
  assume "find (\<lambda>u. prefix u s) uspaces = Some u"
  then have "u \<in> set uspaces" "prefix u s"
    by (auto simp: find_Some_iff in_set_conv_nth)
  then have "u \<noteq> []" "length u \<le> length s"
    using uspaces_nonempty prefix_length_le by auto
  then show "(drop (length u) s, s) \<in> measure length"
    by (cases u; cases s) simp_all
qed simp

declare ulstrip.simps [simp del]

text \<open>\<open>not t or not t.strip()\<close>.\<close>

fun blank :: "string option \<Rightarrow> bool" where
  "blank None = True"
| "blank (Some s) = (ulstrip s = [])"

section \<open>Elements\<close>

datatype xml = Elem (xtag: string) (xattrs: "(string \<times> string) list") (xtext: "string option")
  (xtail: "string option") (xkids: "xml list")

definition with_tail :: "string option \<Rightarrow> xml \<Rightarrow> xml" where
  "with_tail x e = Elem (xtag e) (xattrs e) (xtext e) x (xkids e)"

text \<open>The line break with the indentation of a level.\<close>

definition nl :: "nat \<Rightarrow> string" where
  "nl level = CHR 0x0A # concat (replicate level ''  '')"

definition fill :: "string option \<Rightarrow> string \<Rightarrow> string option" where
  "fill x i = (if blank x then Some i else x)"

text \<open>The statement after the loop, on the last of the children.\<close>

definition fix_last :: "string \<Rightarrow> xml list \<Rightarrow> xml list" where
  "fix_last i ks = butlast ks @ [with_tail (fill (xtail (last ks)) i) (last ks)]"

fun indent :: "nat \<Rightarrow> xml \<Rightarrow> xml" where
  "indent level (Elem tag attrs txt ta ks) =
     (if ks \<noteq> []
      then Elem tag attrs (fill txt (nl level @ ''  '')) (fill ta (nl level))
             (fix_last (nl level) (map (indent (Suc level)) ks))
      else Elem tag attrs txt (if level \<noteq> 0 then fill ta (nl level) else ta) ks)"

section \<open>Blank text\<close>

lemma find_uspaces:
  "find (\<lambda>u. prefix u (CHR '' '' # cs)) uspaces = Some '' ''"
  "find (\<lambda>u. prefix u (CHR 0x0A # cs)) uspaces = Some [CHR 0x0A]"
  by (simp_all add: uspaces_def)

lemma ulstrip_ascii:
  "ulstrip (CHR '' '' # cs) = ulstrip cs" "ulstrip (CHR 0x0A # cs) = ulstrip cs"
  by (simp_all only: ulstrip.simps [of "_ # _"] find_uspaces) simp_all

lemma ulstrip_spaces: "set s \<subseteq> {CHR '' '', CHR 0x0A} \<Longrightarrow> ulstrip s = []"
proof (induction s)
  case Nil
  have "find (\<lambda>u. prefix u []) uspaces = None"
    using uspaces_nonempty by (auto simp: find_None_iff)
  then show ?case by (simp only: ulstrip.simps [of "[]"]) simp
next
  case (Cons c cs)
  then show ?case by (auto simp: ulstrip_ascii)
qed

lemma set_nl: "set (nl l) \<subseteq> {CHR '' '', CHR 0x0A}"
  by (auto simp: nl_def)

lemma ulstrip_nl [simp]: "ulstrip (nl l) = []" "ulstrip (nl l @ ''  '') = []"
  using set_nl [of l] by (simp_all add: ulstrip_spaces)

lemma fill_blank [simp]: "blank x \<Longrightarrow> fill x i = Some i" "\<not> blank x \<Longrightarrow> fill x i = x"
  by (simp_all add: fill_def)

lemma blank_fill [simp]: "blank (Some i) \<Longrightarrow> blank (fill x i) \<longleftrightarrow> blank x"
  by (cases "blank x") simp_all

lemma fill_fill [simp]: "blank (Some i) \<Longrightarrow> fill (fill x i) j = fill x j"
  by (cases "blank x") simp_all

section \<open>Lemmas on trees\<close>

lemma with_tail_sel [simp]:
  "xtag (with_tail x e) = xtag e" "xattrs (with_tail x e) = xattrs e" "xtext (with_tail x e) = xtext e"
  "xtail (with_tail x e) = x" "xkids (with_tail x e) = xkids e"
  by (simp_all add: with_tail_def)

lemma with_tail_with_tail [simp]: "with_tail x (with_tail y e) = with_tail x e"
  by (simp add: with_tail_def)

lemma with_tail_id [simp]: "with_tail (xtail e) e = e"
  by (cases e) (simp add: with_tail_def)

text \<open>Below the root, the tail of an element is only tested for blankness.\<close>

lemma indent_with_tail:
  "indent (Suc l) (with_tail x e) = with_tail (fill x (nl (Suc l))) (indent (Suc l) e)"
  by (cases e) (simp add: with_tail_def)

lemma xtail_indent: "xtail (indent (Suc l) e) = fill (xtail e) (nl (Suc l))"
  by (cases e) simp

lemma fix_last_append [simp]:
  "fix_last i (ks @ [k]) = ks @ [with_tail (fill (xtail k) i) k]"
  by (simp add: fix_last_def)

lemma snoc_obtain:
  assumes "ks \<noteq> []"
  obtains js j where "ks = js @ [j]"
  using assms by (cases ks rule: rev_cases) auto

section \<open>What the pretty printer keeps\<close>

text \<open>The document with its layout erased: blank texts and tails are dropped, all else stays.\<close>

definition content_of :: "string option \<Rightarrow> string option" where
  "content_of x = (if blank x then None else x)"

fun norm :: "xml \<Rightarrow> xml" where
  "norm (Elem tag attrs t ta ks) = Elem tag attrs (content_of t) (content_of ta) (map norm ks)"

lemma content_of_fill [simp]: "blank (Some i) \<Longrightarrow> content_of (fill x i) = content_of x"
  by (cases "blank x") (simp_all add: content_of_def)

lemma norm_with_tail_fill [simp]:
  "blank (Some i) \<Longrightarrow> norm (with_tail (fill (xtail e) i) e) = norm e"
  by (cases e) (simp add: with_tail_def)

lemma norm_fix_last:
  assumes "ks \<noteq> []" and "blank (Some i)"
  shows "map norm (fix_last i ks) = map norm ks"
proof -
  from assms(1) obtain js j where "ks = js @ [j]" by (rule snoc_obtain)
  with assms(2) show ?thesis by simp
qed

text \<open>C30. Pretty printing keeps the document: \<open>indent\<close> changes only missing or blank texts and
  tails. With these erased, the tree before and the tree after are the same, element by element:
  tags, attributes, the order and nesting of the children and every text that is not blank.\<close>

theorem indent_keeps_content: "norm (indent l e) = norm e"
proof (induction l e rule: indent.induct)
  case (1 level tag attrs t ta ks)
  then have "ks \<noteq> [] \<Longrightarrow> map (norm \<circ> indent (Suc level)) ks = map norm ks"
    by auto
  then show ?case
    by (simp add: norm_fix_last)
qed

section \<open>The layout it produces\<close>

text \<open>\<open>laid_out l e\<close>: the text of every element with children, unless it has content,
  starts a new line one level deeper; the tail of every child, unless it has content, starts a new
  line at the level of the next sibling, or of the parent's end tag for the last child.\<close>

definition at_line :: "string \<Rightarrow> string option \<Rightarrow> bool" where
  "at_line i x = (blank x \<longrightarrow> x = Some i)"

fun tails_at :: "nat \<Rightarrow> string option list \<Rightarrow> bool" where
  "tails_at l [] = True"
| "tails_at l [x] = at_line (nl l) x"
| "tails_at l (x # y # xs) = (at_line (nl (Suc l)) x \<and> tails_at l (y # xs))"

fun laid_out :: "nat \<Rightarrow> xml \<Rightarrow> bool" where
  "laid_out l (Elem tag attrs t ta ks) =
     ((ks \<noteq> [] \<longrightarrow> at_line (nl (Suc l)) t) \<and> tails_at l (map xtail ks) \<and> list_all (laid_out (Suc l)) ks)"

lemma nl_Suc: "nl (Suc l) = nl l @ ''  ''"
proof -
  have "concat (replicate l s) @ s = s @ concat (replicate l s)" for s :: string
    by (induction l) simp_all
  then show ?thesis by (simp add: nl_def)
qed

lemma at_fill [simp]: "at_line i (fill x i)"
  by (cases "blank x") (simp_all add: at_line_def)

lemma fill_at [simp]: "at_line i x \<Longrightarrow> fill x i = x"
  by (simp add: fill_def at_line_def)

lemma tails_at_snoc:
  "tails_at l (xs @ [x]) \<longleftrightarrow> list_all (at_line (nl (Suc l))) xs \<and> at_line (nl l) x"
  by (induction l xs rule: tails_at.induct) auto

lemma laid_out_with_tail [simp]: "laid_out l (with_tail x e) = laid_out l e"
  by (cases e) (simp add: with_tail_def)

text \<open>C34. Pretty printing lays the document out: after \<open>indent(elem, level)\<close> every element
  with children breaks the line before its first child, every child is followed by a line break with
  the indentation of what comes next (a sibling, or the end tag of the parent), at every depth,
  except where the document has text of its own.\<close>

theorem indent_lays_out: "laid_out l (indent l e)"
proof (induction l e rule: indent.induct)
  case (1 level tag attrs t ta ks)
  show ?case
  proof (cases "ks = []")
    case False
    then obtain js j where ks: "ks = js @ [j]" by (rule snoc_obtain)
    have "list_all (at_line (nl (Suc level))) (map (xtail \<circ> indent (Suc level)) js)"
      by (simp add: list_all_iff xtail_indent)
    moreover have "list_all (laid_out (Suc level)) (map (indent (Suc level)) ks)"
      using 1 False by (simp add: list_all_iff)
    ultimately show ?thesis
      by (simp add: ks tails_at_snoc nl_Suc [symmetric])
  qed simp
qed

section \<open>Indenting twice\<close>

lemma indent_fix_last:
  assumes "ks \<noteq> []" and "\<And>k. k \<in> set ks \<Longrightarrow> indent (Suc l) (indent (Suc l) k) = indent (Suc l) k"
  shows "fix_last (nl l) (map (indent (Suc l)) (fix_last (nl l) (map (indent (Suc l)) ks)))
       = fix_last (nl l) (map (indent (Suc l)) ks)"
proof -
  from assms(1) obtain js j where "ks = js @ [j]" by (rule snoc_obtain)
  with assms(2) show ?thesis
    by (simp add: indent_with_tail xtail_indent)
qed

text \<open>Pretty printing is idempotent: a document that was pretty printed (an exported template
  that is exported again) is not changed by another pass.\<close>

lemma indent_idempotent: "indent l (indent l e) = indent l e"
proof (induction l e rule: indent.induct)
  case (1 level tag attrs t ta ks)
  show ?case
  proof (cases "ks = []")
    case False
    then have "fix_last (nl level) (map (indent (Suc level)) ks) \<noteq> []"
      by (simp add: fix_last_def)
    with False indent_fix_last [OF False 1] show ?thesis
      by simp
  qed simp
qed

end
