(* ===== verification/ZabbixTemplate.thy ===== *)
theory ZabbixTemplate
  imports Zabbix XmlIndent
begin

text \<open>
  The Ansible module \<open>ansible/roles/esdc-mon/library/zabbix_template.py\<close>: import, export and
  removal of Zabbix templates. The Zabbix client is the parameter \<open>zabbix_client\<close> of
  \<open>Zabbix\<close>; the XML and JSON libraries and the permissions of the file system are the record
  \<open>tmplrt\<close>. The pretty printer is in \<open>XmlIndent\<close>.
\<close>

section \<open>Libraries\<close>

text \<open>What is written to a file opened in text mode: text, or bytes (the result of
  \<open>ET.tostring\<close> under Python 3), which raise a \<open>TypeError\<close> once the file is open and thus
  empty.\<close>

datatype filedata = Text string | Bytes string

record tmplrt =
  t_rt :: pyrt
  t_fromstring :: "pyval \<Rightarrow> xml res"
  t_tostring :: "xml \<Rightarrow> filedata"
  t_dumps :: "pyval \<Rightarrow> string res"
  t_writable :: "string \<Rightarrow> bool"

definition write_data ::
  "(string \<Rightarrow> bool) \<Rightarrow> string \<Rightarrow> filedata \<Rightarrow> (('h, 'z) world_scheme, unit) io" where
  "write_data writable p d =
     (case d of
        Text s \<Rightarrow> write_file writable p s
      | Bytes b \<Rightarrow> sq (write_file writable p [])
                     (raise (TypeError ''write() argument must be str, not bytes'')))"

fun json_loads_val :: "pyrt \<Rightarrow> pyval \<Rightarrow> pyval res" where
  "json_loads_val rt (PStr s) = rt_loads rt s"
| "json_loads_val rt v = Exc (TypeError ''the JSON object must be str, bytes or bytearray'')"

text \<open>\<open>module.fail_json(msg = s)\<close> followed by \<open>raise AssertionError\<close>.\<close>

definition fail_hard :: "'h ansible_module \<Rightarrow> string \<Rightarrow> ('h world, 'a) io" where
  "fail_hard m s = sq (fail_msg m s) (raise AssertionError)"

abbreviation api_problem :: "exn \<Rightarrow> string" where
  "api_problem e \<equiv> ''Zabbix API problem: '' @ exn_str e"

section \<open>Operations\<close>

text \<open>\<open>data['zabbix_export']['templates'][0]['name']\<close>.\<close>

definition export_name :: "pyval \<Rightarrow> pyval res" where
  "export_name data =
     res_bind (py_getitem data ''zabbix_export'') (\<lambda>x.
     res_bind (py_getitem x ''templates'') (\<lambda>ts.
     res_bind (py_getitem0 ts) (\<lambda>t. py_getitem t ''name'')))"

definition get_template_name ::
  "pyrt \<Rightarrow> 'h ansible_module \<Rightarrow> pyval \<Rightarrow> ('h world, pyval) io" where
  "get_template_name rt m filename =
     bnd (try_except
            (bnd (lift_res (path_of filename)) (\<lambda>p.
             bnd (read_file p) (\<lambda>data. lift_res (rt_loads rt data))))
            is_Exception
            (\<lambda>e. fail_hard m (''Invalid JSON: '' @ exn_str e)))
       (\<lambda>data. lift_res (export_name data))"

definition template_query :: "pyval \<Rightarrow> pyval" where
  "template_query name =
     PDict [(''output'', PList [PStr ''templateid'']),
            (''filter'', PDict [(''host'', PList [name])])]"

text \<open>\<open>result[0]['templateid']\<close> with the handler of the second \<open>try\<close>.\<close>

definition first_templateid :: "pyrt \<Rightarrow> pyval \<Rightarrow> pyval \<Rightarrow> pyval res" where
  "first_templateid rt name result =
     (case res_bind (py_getitem0 result) (\<lambda>t. py_getitem t ''templateid'') of
        Ret v \<Rightarrow> Ret v
      | Exc e \<Rightarrow> if is_IndexError e \<or> is_KeyError e
                then Exc (ValueError (''Template '' @ [CHR 0x22] @ fmt_s rt name @ [CHR 0x22] @ '' not found''))
                else Exc e)"

definition get_template_id ::
  "pyrt \<Rightarrow> 'h ansible_module \<Rightarrow> 'h zabbix_client \<Rightarrow> pyval \<Rightarrow> ('h world, pyval) io" where
  "get_template_id rt m z name =
     bnd (try_except (zbx_method z ''template.get'' (template_query name)) is_Exception
            (\<lambda>e. fail_hard m (api_problem e)))
       (\<lambda>result. lift_res (first_templateid rt name result))"

text \<open>The function returns \<open>None\<close> after its last handler.\<close>

definition check_template ::
  "pyrt \<Rightarrow> 'h ansible_module \<Rightarrow> 'h zabbix_client \<Rightarrow> pyval \<Rightarrow> ('h world, pyval) io" where
  "check_template rt m z name =
     try_except (bnd (get_template_id rt m z name) (\<lambda>i. ret (PBool (truthy i)))) is_Exception
       (\<lambda>e. if is_ValueError e then ret (PBool False)
             else sq (fail_msg m (api_problem e)) (ret PNone))"

definition import_rules :: pyval where
  "import_rules =
     PDict (map (\<lambda>k. (k, PDict [(''createMissing'', PBool True), (''updateExisting'', PBool True)]))
       [''items'', ''graphs'', ''applications'', ''triggers'', ''templates'', ''templateScreens'',
        ''templateLinkage'', ''discoveryRules''])"

definition import_request :: "pyval \<Rightarrow> string \<Rightarrow> pyval" where
  "import_request fmt data =
     PDict [(''format'', fmt), (''source'', PStr data), (''rules'', import_rules)]"

definition import_template ::
  "pyrt \<Rightarrow> 'h ansible_module \<Rightarrow> 'h zabbix_client \<Rightarrow> pyval \<Rightarrow> pyval \<Rightarrow> ('h world, pyval) io" where
  "import_template rt m z filename fmt =
     bnd (lift_res (path_of filename)) (\<lambda>p.
     bnd (os_path_exists p) (\<lambda>there.
     sq (if_then (\<not> there) (fail_msg m (''template file '' @ fmt_s rt filename @ '' not found'')))
     (bnd (read_file p) (\<lambda>data.
        try_except (zbx_method z ''configuration.import_'' (import_request fmt data)) (\<lambda>_. True)
          (\<lambda>e. fail_hard m (api_problem e))))))"

definition export_request :: "pyval \<Rightarrow> pyval \<Rightarrow> pyval" where
  "export_request template_id fmt =
     PDict [(''format'', fmt), (''options'', PDict [(''templates'', PList [template_id])])]"

text \<open>The data that goes to the file.\<close>

definition export_data :: "tmplrt \<Rightarrow> pyval \<Rightarrow> pyval \<Rightarrow> filedata res" where
  "export_data T fmt result =
     (if fmt = PStr ''xml''
      then res_bind (t_fromstring T result) (\<lambda>x. Ret (t_tostring T (indent 0 x)))
      else res_bind (json_loads_val (t_rt T) result) (\<lambda>d.
           res_bind (t_dumps T d) (\<lambda>s. Ret (Text s))))"

definition export_template ::
  "tmplrt \<Rightarrow> 'h ansible_module \<Rightarrow> 'h zabbix_client \<Rightarrow> pyval \<Rightarrow> pyval \<Rightarrow> pyval \<Rightarrow> ('h world, unit) io" where
  "export_template T m z template_id target fmt =
     bnd (try_except (zbx_method z ''configuration.export'' (export_request template_id fmt)) (\<lambda>_. True)
            (\<lambda>e. fail_hard m (api_problem e)))
       (\<lambda>result.
     bnd (lift_res (export_data T fmt result)) (\<lambda>data.
       try_except (bnd (lift_res (path_of target)) (\<lambda>p. write_data (t_writable T) p data)) (\<lambda>_. True)
         (\<lambda>e. fail_hard m (''Error writing template file '' @ fmt_s (t_rt T) target @ '': '' @ exn_str e))))"

definition remove_template ::
  "'h ansible_module \<Rightarrow> 'h zabbix_client \<Rightarrow> pyval \<Rightarrow> ('h world, pyval) io" where
  "remove_template m z template_id =
     try_except (zbx_method z ''template.delete'' (PList [template_id])) (\<lambda>_. True)
       (\<lambda>e. fail_hard m (api_problem e))"

section \<open>The main function\<close>

definition template_spec :: "argument list" where
  "template_spec =
     [\<lparr>arg_name = ''server_url'', arg_type = TStr, arg_required = True, arg_default = PNone,
       arg_choices = []\<rparr>,
      \<lparr>arg_name = ''login_user'', arg_type = TStr, arg_required = True, arg_default = PNone,
       arg_choices = []\<rparr>,
      \<lparr>arg_name = ''login_password'', arg_type = TStr, arg_required = True, arg_default = PNone,
       arg_choices = []\<rparr>,
      \<lparr>arg_name = ''template'', arg_type = TStr, arg_required = True, arg_default = PNone,
       arg_choices = []\<rparr>,
      \<lparr>arg_name = ''state'', arg_type = TStr, arg_required = False, arg_default = PStr ''present'',
       arg_choices = []\<rparr>,
      \<lparr>arg_name = ''timeout'', arg_type = TInt, arg_required = False, arg_default = PInt 10,
       arg_choices = []\<rparr>,
      \<lparr>arg_name = ''target'', arg_type = TStr, arg_required = False, arg_default = PNone,
       arg_choices = []\<rparr>,
      \<lparr>arg_name = ''format'', arg_type = TStr, arg_required = False, arg_default = PStr ''xml'',
       arg_choices = []\<rparr>,
      \<lparr>arg_name = ''validate_certs'', arg_type = TBool, arg_required = False,
       arg_default = PBool False, arg_choices = []\<rparr>]"

abbreviation importing :: "pyval \<Rightarrow> bool" where
  "importing state \<equiv> state = PStr ''present'' \<or> state = PStr ''import''"

text \<open>The first dispatch on the state: \<open>template_name\<close>.\<close>

definition template_prepare ::
  "pyrt \<Rightarrow> 'h ansible_module \<Rightarrow> pyval \<Rightarrow> pyval \<Rightarrow> pyval \<Rightarrow> ('h world, pyval) io" where
  "template_prepare rt m state template target =
     (if importing state
      then bnd (lift_res (path_of template)) (\<lambda>p.
           bnd (os_path_exists p) (\<lambda>there.
             if there then get_template_name rt m template
             else fail_hard m (fmt_s rt template @ '' not found'')))
      else if state = PStr ''absent'' then ret template
      else if state = PStr ''export''
      then sq (if_then (target = PNone)
                 (fail_hard m (''with state='' @ fmt_s rt state @ '' target is required'')))
              (ret template)
      else fail_hard m (''Invalid state: '' @ quoted (fmt_s rt state)))"

text \<open>The rest of the function.\<close>

definition template_apply ::
  "tmplrt \<Rightarrow> 'h ansible_module \<Rightarrow> 'h zabbix_client \<Rightarrow> pyval \<Rightarrow> pyval \<Rightarrow> pyval \<Rightarrow> pyval \<Rightarrow> pyval
   \<Rightarrow> ('h world, unit) io" where
  "template_apply T m z state template template_name target fmt =
     sq (if_then (check_mode m) (exit_json m [(''changed'', PBool True)]))
     (sq (if_then (importing state)
            (sq (import_template (t_rt T) m z template fmt) (exit_json m [(''changed'', PBool True)])))
     (bnd (check_template (t_rt T) m z template_name) (\<lambda>found.
      bnd (if truthy found
           then bnd (if state = PStr ''absent''
                     then bnd (get_template_id (t_rt T) m z template_name) (\<lambda>template_id.
                          sq (remove_template m z template_id) (ret True))
                     else ret False) (\<lambda>changed.
                if state = PStr ''export''
                then bnd (get_template_id (t_rt T) m z template_name) (\<lambda>template_id.
                     sq (export_template T m z template_id target fmt) (ret True))
                else ret changed)
           else ret False) (\<lambda>changed.
        exit_json m [(''changed'', PBool changed)]))))"

definition template_main ::
  "tmplrt \<Rightarrow> 'h zabbix_client \<Rightarrow> 'h ansible_module \<Rightarrow> ('h world, unit) io" where
  "template_main T z m =
     sq (require_zabbix_api z m)
     (bnd (param m ''server_url'') (\<lambda>server_url.
      bnd (param m ''login_user'') (\<lambda>login_user.
      bnd (param m ''login_password'') (\<lambda>login_password.
      bnd (param m ''template'') (\<lambda>template.
      bnd (param m ''state'') (\<lambda>state.
      bnd (param m ''timeout'') (\<lambda>timeout.
      bnd (param m ''target'') (\<lambda>target.
      bnd (param m ''format'') (\<lambda>fmt.
      bnd (param m ''validate_certs'') (\<lambda>ssl_verify.
      sq (zabbix_login z m server_url timeout ssl_verify login_user login_password)
      (bnd (template_prepare (t_rt T) m state template target) (\<lambda>template_name.
         template_apply T m z state template template_name target fmt))))))))))))"

section \<open>The contract of the module\<close>

lemma disciplined_fail_hard [disc_intros]: "ansible_contract m \<Longrightarrow> disciplined (fail_hard m s)"
  unfolding fail_hard_def by (intro disc_intros)

lemma emits_zbx_method [emits_intros]: "P (LibCall path [arg]) \<Longrightarrow> emits P (zbx_method z path arg)"
  unfolding zbx_method_def by (rule emits_ext)

lemma emits_write_data [emits_intros]: "emits P (write_data ok p d)"
  unfolding write_data_def by (cases d) (simp_all add: emits_write_file emits_sq emits_raise)

lemma disciplined_template_name [disc_intros]:
  "ansible_contract m \<Longrightarrow> disciplined (get_template_name rt m f)"
  unfolding get_template_name_def
  by (intro disciplined_bnd disciplined_try_quiet emits_intros disciplined_lift_res disciplined_fail_hard)

lemma disciplined_template_id [disc_intros]:
  "ansible_contract m \<Longrightarrow> disciplined (get_template_id rt m z name)"
  unfolding get_template_id_def
  by (intro disciplined_bnd disciplined_try_quiet emits_zbx_method disciplined_lift_res
      disciplined_fail_hard) simp

lemma disciplined_check_template [disc_intros]:
  "ansible_contract m \<Longrightarrow> disciplined (check_template rt m z name)"
  unfolding check_template_def by (intro disc_intros) auto

lemma disciplined_import [disc_intros]:
  "ansible_contract m \<Longrightarrow> disciplined (import_template rt m z f fmt)"
  unfolding import_template_def
  by (intro disciplined_bnd disciplined_sq disciplined_if_then disciplined_fail_msg disciplined_exists
      disciplined_read_file disciplined_try_quiet emits_zbx_method disciplined_lift_res
      disciplined_fail_hard) simp_all

lemma disciplined_export [disc_intros]:
  "ansible_contract m \<Longrightarrow> disciplined (export_template T m z i target fmt)"
  unfolding export_template_def
  by (intro disciplined_bnd disciplined_try_quiet emits_intros disciplined_lift_res
      disciplined_fail_hard) simp

lemma disciplined_remove [disc_intros]:
  "ansible_contract m \<Longrightarrow> disciplined (remove_template m z i)"
  unfolding remove_template_def
  by (intro disciplined_try_quiet emits_zbx_method disciplined_fail_hard) simp

lemma disciplined_prepare [disc_intros]:
  "ansible_contract m \<Longrightarrow> disciplined (template_prepare rt m st t tgt)"
  unfolding template_prepare_def by (intro disc_intros)

lemma disciplined_apply [disc_intros]:
  "ansible_contract m \<Longrightarrow> disciplined (template_apply T m z st t n tgt fmt)"
  unfolding template_apply_def by (intro disc_intros)

interpretation template_prog: ansible_program "template_main T z" for T and z :: "'h zabbix_client"
proof unfold_locales
  fix m :: "'h ansible_module"
  assume c: "ansible_contract m"
  show "disciplined (template_main T z m)"
    unfolding template_main_def using c by (intro disc_intros)
  show "never_returns (template_main T z m)"
    unfolding template_main_def template_apply_def using c by (intro ends_intros)
qed

section \<open>The API methods of a run\<close>

text \<open>The methods a state calls for, and the calls a run may make.\<close>

definition template_methods :: "string \<Rightarrow> string list" where
  "template_methods st =
     (if st = ''present'' \<or> st = ''import'' then [''configuration.import_'']
      else if st = ''absent'' then [''template.get'', ''template.delete'']
      else if st = ''export'' then [''template.get'', ''configuration.export'']
      else [])"

fun uses_methods :: "string list \<Rightarrow> call \<Rightarrow> bool" where
  "uses_methods ms (LibCall path args) = (path \<in> set ([''ZabbixAPI'', ''login''] @ ms))"
| "uses_methods ms c = is_report c"

lemma ends_fail_hard [ends_intros]: "never_returns (fail_hard m s)"
  unfolding fail_hard_def by (intro ends_intros)

lemma emits_fail_hard [emits_intros]: "emits (uses_methods ms) (fail_hard m s)"
  unfolding fail_hard_def by (intro emits_intros emits_fail_msg) simp

lemma emits_template_name [emits_intros]: "emits (uses_methods ms) (get_template_name rt m f)"
  unfolding get_template_name_def by (intro emits_intros)

lemma emits_template_id:
  "''template.get'' \<in> set ms \<Longrightarrow> emits (uses_methods ms) (get_template_id rt m z n)"
  unfolding get_template_id_def by (intro emits_intros) simp

lemma emits_check_template:
  "''template.get'' \<in> set ms \<Longrightarrow> emits (uses_methods ms) (check_template rt m z n)"
  unfolding check_template_def
  by (intro emits_intros emits_template_id emits_fail_msg) simp_all

lemma emits_import:
  "''configuration.import_'' \<in> set ms \<Longrightarrow> emits (uses_methods ms) (import_template rt m z f fmt)"
  unfolding import_template_def by (intro emits_intros emits_fail_msg) simp_all

lemma emits_export:
  "''configuration.export'' \<in> set ms \<Longrightarrow> emits (uses_methods ms) (export_template T m z i tgt fmt)"
  unfolding export_template_def by (intro emits_intros) simp_all

lemma emits_remove:
  "''template.delete'' \<in> set ms \<Longrightarrow> emits (uses_methods ms) (remove_template m z i)"
  unfolding remove_template_def by (intro emits_intros) simp_all

lemma emits_prepare [emits_intros]: "emits (uses_methods ms) (template_prepare rt m st t tgt)"
  unfolding template_prepare_def by (intro emits_intros)

lemma emits_zabbix_login [emits_intros]: "emits (uses_methods ms) (zabbix_login z m su to sv u p)"
  unfolding zabbix_login_def by (intro emits_intros emits_fail_msg) simp_all

lemma emits_require_zabbix [emits_intros]: "emits (uses_methods ms) (require_zabbix_api z m)"
  unfolding require_zabbix_api_def by (intro emits_intros emits_fail_msg) simp_all

lemma emits_apply:
  assumes c: "ansible_contract m"
    and st: "st \<in> set [''present'', ''import'', ''absent'', ''export'']"
    and ms: "ms = (if check_mode m then [] else template_methods st)"
  shows "emits (uses_methods ms) (template_apply T m z (PStr st) t n tgt fmt)"
  unfolding template_apply_def
proof (rule emits_guard, goal_cases)
  case 1
  with c show ?case by (simp add: ends_exit_json emits_exit_json)
next
  case 2
  note nc = this
  show ?case
  proof (rule emits_guard, goal_cases)
    case 1
    then have "''configuration.import_'' \<in> set ms"
      using ms nc by (auto simp: template_methods_def)
    then show ?case
      using c by (auto intro!: ends_intros emits_sq emits_import emits_exit_json)
  next
    case 2
    then have g: "''template.get'' \<in> set ms" and d: "st = ''absent'' \<Longrightarrow> ''template.delete'' \<in> set ms"
      and e: "st = ''export'' \<Longrightarrow> ''configuration.export'' \<in> set ms"
      using ms nc st by (auto simp: template_methods_def)
    show ?case
      by (intro emits_bnd emits_if emits_sq emits_ret emits_check_template emits_template_id
          emits_remove emits_export emits_exit_json g) (simp_all add: d e)
  qed
qed

lemma emits_template_invalid:
  assumes "st \<notin> set [''present'', ''import'', ''absent'', ''export'']"
  shows "never_returns (template_prepare rt m (PStr st) t tgt)"
  using assms by (simp add: template_prepare_def ends_fail_hard)

lemma emits_bnd_ends:
  assumes "emits P f" and "never_returns f"
  shows "emits P (bnd f g)"
proof -
  have "calls (snd (bnd f g w)) = calls (snd (f w))" for w
    using assms(2) unfolding never_returns_def
    by (drule_tac x = w in spec) (auto simp: io_simps split: prod.splits)
  with assms(1) show ?thesis by (simp add: emits_def)
qed

text \<open>C15. A run calls only the API methods its state is for: it imports for \<open>present\<close> and
  \<open>import\<close>, looks up and deletes for \<open>absent\<close>, looks up and exports for \<open>export\<close>, and
  does nothing for any other state. In check mode it calls none of them: it connects, logs in and
  reports.\<close>

theorem template_calls_confined:
  assumes c: "ansible_contract m"
    and st: "dict_get (params m) ''state'' = Some (PStr st)"
  shows "\<exists>cs. calls (snd (template_main T z m w)) = calls w @ cs
     \<and> (\<forall>c \<in> set cs. uses_methods (if check_mode m then [] else template_methods st) c)"
proof -
  define ms where "ms = (if check_mode m then [] else template_methods st)"
  have body: "emits (uses_methods ms) (bnd (template_prepare (t_rt T) m (PStr st) t tgt)
      (\<lambda>n. template_apply T m z (PStr st) t n tgt fmt))" for t tgt fmt
  proof (cases "st \<in> set [''present'', ''import'', ''absent'', ''export'']")
    case True
    show ?thesis by (intro emits_bnd emits_prepare emits_apply [OF c True ms_def])
  next
    case False
    show ?thesis by (rule emits_bnd_ends [OF emits_prepare emits_template_invalid [OF False]])
  qed
  have "param m ''state'' = ret (PStr st)"
    using st by (auto simp: param_def io_simps)
  then have "emits (uses_methods ms) (template_main T z m)"
    unfolding template_main_def by (simp only: bnd_ret) (intro emits_intros body)
  then show ?thesis
    unfolding emits_def ms_def by blast
qed

section \<open>Behaviour\<close>

text \<open>A run that connects and logs in with the calls \<open>cs\<close>, with its parameters.\<close>

definition template_ready ::
  "'h zabbix_client \<Rightarrow> 'h ansible_module \<Rightarrow> fsys \<times> 'h \<Rightarrow> call list \<Rightarrow> fsys \<times> 'h
   \<Rightarrow> string \<Rightarrow> string \<Rightarrow> pyval \<Rightarrow> string \<Rightarrow> bool" where
  "template_ready z m s cs s' st t tgt fmt =
     (ansible_contract m \<and> \<not> check_mode m \<and> zabbix_session z m s cs s'
      \<and> dict_get (params m) ''state'' = Some (PStr st) \<and> dict_get (params m) ''template'' = Some (PStr t)
      \<and> dict_get (params m) ''target'' = Some tgt \<and> dict_get (params m) ''format'' = Some (PStr fmt))"

text \<open>Parameters that match the specification have these types.\<close>

lemma template_ready_conforms:
  assumes "conforms template_spec [] (params m)" and "ansible_contract m" and "\<not> check_mode m"
    and "zabbix_session z m s cs s'"
  shows "\<exists>st t tgt fmt. template_ready z m s cs s' st t tgt fmt"
  using assms by (auto simp: template_ready_def conforms_def template_spec_def split: option.splits)

abbreviation logged_in :: "'h world \<Rightarrow> call list \<Rightarrow> fsys \<times> 'h \<Rightarrow> 'h world" where
  "logged_in w cs s \<equiv> w\<lparr>files := fst s, host := snd s, calls := calls w @ cs\<rparr>"

lemma template_main_run:
  assumes "template_ready z m (files w, host w) cs s' st t tgt fmt"
  shows "template_main T z m w =
     bnd (template_prepare (t_rt T) m (PStr st) (PStr t) tgt)
       (\<lambda>n. template_apply T m z (PStr st) (PStr t) n tgt (PStr fmt)) (logged_in w cs s')"
proof -
  from assms have "zabbix_session z m (files w, host w) cs s'"
    by (simp add: template_ready_def)
  then obtain su u p to sv s1 where s: "za_available z"
    "dict_get (params m) ''server_url'' = Some su" "dict_get (params m) ''login_user'' = Some u"
    "dict_get (params m) ''login_password'' = Some p" "dict_get (params m) ''timeout'' = Some to"
    "dict_get (params m) ''validate_certs'' = Some sv"
    "za_connect z su to sv (files w, host w) = (Ret (), s1)" "za_login z u p s1 = (Ret (), s')"
    "cs = [LibCall ''ZabbixAPI'' [su, to, sv], LibCall ''login'' [u, p]]"
    by (rule zabbix_sessionE)
  have par: "param m k = ret v" if "dict_get (params m) k = Some v" for k v
    using that by (auto simp: param_def io_simps)
  have "after_call (after_call w (LibCall ''ZabbixAPI'' [su, to, sv]) s1) (LibCall ''login'' [u, p]) s'
      = logged_in w cs s'"
    by (simp add: s(9) after_call_def)
  moreover have "require_zabbix_api z m = ret ()"
    using s(1) by (simp add: require_zabbix_api_def if_then_def)
  ultimately show ?thesis
    using assms s(1-8) zabbix_login_ok [OF s(7,8), of m]
    by (simp add: template_main_def template_ready_def par sq_def) (simp add: bnd_app)
qed

lemma template_readyD:
  assumes "template_ready z m s cs s' st t tgt fmt"
  shows "ansible_contract m" "\<not> check_mode m"
  using assms by (simp_all add: template_ready_def)

abbreviation tget :: "string \<Rightarrow> call" where
  "tget t \<equiv> LibCall ''template.get'' [template_query (PStr t)]"

text \<open>One lookup: the identifier of the first template found.\<close>

lemma get_template_id_app:
  assumes "za_method z ''template.get'' (template_query n) (files w, host w) = (Ret v, s)"
  shows "get_template_id rt m z n w =
     (first_templateid rt n v, after_call w (LibCall ''template.get'' [template_query n]) s)"
  using assms by (simp add: get_template_id_def zbx_method_def io_simps)

lemma first_templateid_found:
  "dict_get d ''templateid'' = Some i \<Longrightarrow> first_templateid rt n (PList (PDict d # ts)) = Ret i"
  by (simp add: first_templateid_def)

lemma first_templateid_none:
  "\<exists>s. first_templateid rt n (PList []) = Exc (ValueError s)"
  by (simp add: first_templateid_def)

lemma check_template_app:
  assumes "za_method z ''template.get'' (template_query n) (files w, host w) = (Ret v, s)"
  shows "check_template rt m z n w =
     (case first_templateid rt n v of
        Ret i \<Rightarrow> (Ret (PBool (truthy i)), after_call w (LibCall ''template.get'' [template_query n]) s)
      | Exc e \<Rightarrow> (if is_Exception e
                  then (if is_ValueError e then ret (PBool False)
                        else sq (fail_msg m (api_problem e)) (ret PNone)) else raise e)
                 (after_call w (LibCall ''template.get'' [template_query n]) s))"
  using get_template_id_app [OF assms, of rt m]
  by (simp add: check_template_def io_simps split: res.split)

lemma template_prepare_lookup:
  assumes "st = ''absent'' \<or> st = ''export'' \<and> tgt \<noteq> PNone"
  shows "template_prepare rt m (PStr st) (PStr t) tgt w = (Ret (PStr t), w)"
  using assms by (auto simp: template_prepare_def io_simps)

text \<open>Nothing to do: with \<open>state=absent\<close>, or \<open>state=export\<close> and a target, a template
  the server does not have is looked up once; the module then reports success without a change, and
  neither deletes, exports nor writes anything.\<close>

lemma template_unknown_is_noop:
  assumes r: "template_ready z m (files w, host w) cs s' st t tgt fmt"
    and st: "st = ''absent'' \<or> st = ''export'' \<and> tgt \<noteq> PNone"
    and get: "za_method z ''template.get'' (template_query (PStr t)) s' = (Ret (PList []), s1)"
  shows "\<exists>w'. template_main T z m w = (Exc (SystemExit 0), w')
     \<and> files w' = fst s1 \<and> host w' = snd s1
     \<and> calls w' = calls w @ cs @ [tget t, ExitJson [(''changed'', PBool False)]]"
proof -
  have "check_template (t_rt T) m z (PStr t) (logged_in w cs s') =
      (Ret (PBool False), after_call (logged_in w cs s') (tget t) s1)"
    using first_templateid_none [of "t_rt T" "PStr t"]
    by (auto simp: check_template_app [of z _ "logged_in w cs s'" "PList []" s1] get io_simps)
  with st template_readyD [OF r] show ?thesis
    unfolding template_main_run [OF r]
    by (auto simp: bnd_app template_prepare_lookup template_apply_def sq_app if_then_app exit_json_app
        ret_app)
qed

lemma template_known_run:
  assumes r: "template_ready z m (files w, host w) cs s' st t tgt fmt"
    and st: "st = ''absent'' \<or> st = ''export'' \<and> tgt \<noteq> PNone"
    and get1: "za_method z ''template.get'' (template_query (PStr t)) s' = (Ret (PList (PDict d # ts)), s1)"
      "dict_get d ''templateid'' = Some i" "truthy i"
    and get2: "za_method z ''template.get'' (template_query (PStr t)) s1
        = (Ret (PList (PDict d' # ts')), s2)" "dict_get d' ''templateid'' = Some i'"
  shows "template_main T z m w =
     sq (if st = ''absent'' then sq (remove_template m z i') (ret ())
         else export_template T m z i' tgt (PStr fmt))
       (exit_json m [(''changed'', PBool True)]) (logged_in w (cs @ [tget t, tget t]) s2)"
proof -
  let ?w1 = "after_call (logged_in w cs s') (tget t) s1"
  have chk: "check_template (t_rt T) m z (PStr t) (logged_in w cs s') = (Ret (PBool True), ?w1)"
    by (simp add: check_template_app [of z _ "logged_in w cs s'" _ s1] get1 first_templateid_found)
  have "get_template_id (t_rt T) m z (PStr t) ?w1 = (Ret i', after_call ?w1 (tget t) s2)"
    by (simp add: get_template_id_app [of z _ ?w1 _ s2] get2 first_templateid_found)
  moreover have "after_call ?w1 (tget t) s2 = logged_in w (cs @ [tget t, tget t]) s2"
    by (simp add: after_call_def)
  ultimately show ?thesis
    using st template_readyD [OF r] chk
    unfolding template_main_run [OF r]
    by (auto simp: bnd_app template_prepare_lookup template_apply_def sq_app if_then_app ret_app
        split: prod.splits res.splits)
qed

text \<open>Removal: \<open>state=absent\<close> on a template the server has deletes exactly the identifier
  the server returned for that name, and reports a change if the server accepts the deletion and a
  failure with the server's message if it does not.\<close>

lemma template_absent_deletes:
  assumes r: "template_ready z m (files w, host w) cs s' ''absent'' t tgt fmt"
    and get1: "za_method z ''template.get'' (template_query (PStr t)) s' = (Ret (PList (PDict d # ts)), s1)"
      "dict_get d ''templateid'' = Some i" "truthy i"
    and get2: "za_method z ''template.get'' (template_query (PStr t)) s1
        = (Ret (PList (PDict d' # ts')), s2)" "dict_get d' ''templateid'' = Some i'"
    and del: "za_method z ''template.delete'' (PList [i']) s2 = (res, s3)"
  shows "\<exists>w'. template_main T z m w = (Exc (SystemExit (case res of Ret _ \<Rightarrow> 0 | Exc _ \<Rightarrow> 1)), w')
     \<and> files w' = fst s3 \<and> host w' = snd s3
     \<and> calls w' = calls w @ cs @ [tget t, tget t, LibCall ''template.delete'' [PList [i']],
         case res of Ret _ \<Rightarrow> ExitJson [(''changed'', PBool True)] | Exc e \<Rightarrow> msg_fail (api_problem e)]"
  unfolding template_known_run [OF r _ get1 get2, simplified]
  using del template_readyD(1) [OF r]
  by (cases res) (simp_all add: remove_template_def zbx_method_def io_simps fail_hard_def fail_msg_app
      exit_json_app)

lemma write_file_ok:
  "ok p \<Longrightarrow> files w p \<noteq> Some Directory \<Longrightarrow>
     write_file ok p s w = (Ret (), w\<lparr>files := (files w)(p \<mapsto> RegularFile s)\<rparr>)"
  by (simp add: write_file_def split: option.split fnode.split)

text \<open>An export of a known template whose document is text ends with that text in the target.\<close>

lemma template_export_text:
  assumes r: "template_ready z m (files w, host w) cs s' ''export'' t (PStr tgt) fmt"
    and get1: "za_method z ''template.get'' (template_query (PStr t)) s' = (Ret (PList (PDict d # ts)), s1)"
      "dict_get d ''templateid'' = Some i" "truthy i"
    and get2: "za_method z ''template.get'' (template_query (PStr t)) s1
        = (Ret (PList (PDict d' # ts')), s2)" "dict_get d' ''templateid'' = Some i'"
    and exp: "za_method z ''configuration.export'' (export_request i' (PStr fmt)) s2 = (Ret v, s3)"
    and data: "export_data T (PStr fmt) v = Ret (Text s)"
    and ok: "t_writable T tgt" "fst s3 tgt \<noteq> Some Directory"
  shows "\<exists>w'. template_main T z m w = (Exc (SystemExit 0), w')
     \<and> files w' = (fst s3)(tgt \<mapsto> RegularFile s)
     \<and> calls w' = calls w @ cs @ [tget t, tget t,
         LibCall ''configuration.export'' [export_request i' (PStr fmt)], ExitJson [(''changed'', PBool True)]]"
  unfolding template_known_run [OF r _ get1 get2, simplified]
  using exp data ok template_readyD(1) [OF r]
  by (simp add: export_template_def zbx_method_def io_simps exit_json_app write_data_def write_file_ok)

text \<open>C32. Export: \<open>state=export\<close> with \<open>format=xml\<close> writes the pretty-printed document the
  server returned to the target file, and nothing else, and reports a change. When the XML library
  serialises to bytes, as under Python 3, the module fails and leaves the target file empty.\<close>

theorem template_export_writes:
  assumes r: "template_ready z m (files w, host w) cs s' ''export'' t (PStr tgt) ''xml''"
    and get1: "za_method z ''template.get'' (template_query (PStr t)) s' = (Ret (PList (PDict d # ts)), s1)"
      "dict_get d ''templateid'' = Some i" "truthy i"
    and get2: "za_method z ''template.get'' (template_query (PStr t)) s1
        = (Ret (PList (PDict d' # ts')), s2)" "dict_get d' ''templateid'' = Some i'"
    and exp: "za_method z ''configuration.export'' (export_request i' (PStr ''xml'')) s2 = (Ret v, s3)"
    and parse: "t_fromstring T v = Ret x"
    and ok: "t_writable T tgt" "fst s3 tgt \<noteq> Some Directory"
  shows "\<exists>w' last. template_main T z m w =
       (Exc (SystemExit (case t_tostring T (indent 0 x) of Text _ \<Rightarrow> 0 | Bytes _ \<Rightarrow> 1)), w')
     \<and> files w' = (fst s3)(tgt \<mapsto> RegularFile
         (case t_tostring T (indent 0 x) of Text s \<Rightarrow> s | Bytes _ \<Rightarrow> []))
     \<and> calls w' = calls w @ cs @ [tget t, tget t,
         LibCall ''configuration.export'' [export_request i' (PStr ''xml'')], last]
     \<and> (case t_tostring T (indent 0 x) of
          Text _ \<Rightarrow> last = ExitJson [(''changed'', PBool True)]
        | Bytes _ \<Rightarrow> last = msg_fail (''Error writing template file '' @ tgt
                                @ '': write() argument must be str, not bytes''))"
  unfolding template_known_run [OF r _ get1 get2, simplified]
  using exp parse ok template_readyD(1) [OF r]
  by (cases "t_tostring T (indent 0 x)")
    (simp_all add: export_template_def export_data_def zbx_method_def io_simps fail_hard_def
      fail_msg_app exit_json_app write_data_def write_file_ok)

lemma get_template_name_app:
  assumes "files w t = Some (RegularFile data)"
  shows "get_template_name rt m (PStr t) w =
     (case rt_loads rt data of
        Ret doc \<Rightarrow> (export_name doc, w)
      | Exc e \<Rightarrow> if is_Exception e then fail_hard m (''Invalid JSON: '' @ exn_str e) w else (Exc e, w))"
proof (cases "rt_loads rt data")
  case (Exc e)
  have "bnd (fail_hard m s) g = fail_hard m s" for s and g :: "'b \<Rightarrow> ('a world, pyval) io"
    by (simp add: fail_hard_def sq_def bnd_assoc)
  with Exc assms show ?thesis
    by (simp add: get_template_name_def read_file_def io_simps fail_hard_def split: prod.splits res.splits)
qed (use assms in \<open>simp add: get_template_name_def read_file_def io_simps\<close>)

lemma template_import_run:
  assumes r: "template_ready z m (files w, host w) cs s' st t tgt fmt"
    and st: "st = ''present'' \<or> st = ''import''"
    and src: "fst s' t = Some (RegularFile data)"
    and doc: "rt_loads (t_rt T) data = Ret doc" "export_name doc = Ret n"
    and imp: "za_method z ''configuration.import_'' (import_request (PStr fmt) data) s' = (res, s1)"
  shows "\<exists>w'. template_main T z m w = (Exc (SystemExit (case res of Ret _ \<Rightarrow> 0 | Exc _ \<Rightarrow> 1)), w')
     \<and> files w' = fst s1 \<and> host w' = snd s1
     \<and> calls w' = calls w @ cs @
         [LibCall ''configuration.import_'' [import_request (PStr fmt) data],
          case res of Ret _ \<Rightarrow> ExitJson [(''changed'', PBool True)] | Exc e \<Rightarrow> msg_fail (api_problem e)]"
proof -
  have "template_prepare (t_rt T) m (PStr st) (PStr t) tgt (logged_in w cs s')
      = (Ret n, logged_in w cs s')"
    using st src doc by (auto simp: template_prepare_def io_simps get_template_name_app)
  with st imp src template_readyD [OF r] show ?thesis
    unfolding template_main_run [OF r]
    by (cases res) (auto simp: template_apply_def import_template_def read_file_def zbx_method_def
        io_simps fail_hard_def fail_msg_app exit_json_app)
qed

text \<open>Import: \<open>state=present\<close> (or \<open>import\<close>) with a file that names a template sends
  exactly the text of the file, with the given format and rules that create what is missing and update
  what exists, in one API call. It reports a change whenever the server accepts it, also when the
  server already had the template, and otherwise a failure with the server's message.\<close>

lemma template_import_sends:
  assumes r: "template_ready z m (files w, host w) cs s' st t tgt fmt"
    and st: "st = ''present'' \<or> st = ''import''"
    and src: "fst s' t = Some (RegularFile data)"
    and doc: "rt_loads (t_rt T) data = Ret doc" "export_name doc = Ret n"
    and imp: "za_method z ''configuration.import_'' (import_request (PStr fmt) data) s' = (res, s1)"
  shows "\<exists>w'. template_main T z m w = (Exc (SystemExit (case res of Ret _ \<Rightarrow> 0 | Exc _ \<Rightarrow> 1)), w')
     \<and> files w' = fst s1 \<and> host w' = snd s1
     \<and> calls w' = calls w @ cs @
         [LibCall ''configuration.import_'' [import_request (PStr fmt) data],
          case res of Ret _ \<Rightarrow> ExitJson [(''changed'', PBool True)] | Exc e \<Rightarrow> msg_fail (api_problem e)]"
  by (rule template_import_run [OF assms])

text \<open>C37. An import needs a JSON file, whatever the format: if the file does not parse as JSON, as
  every file of the default format \<open>xml\<close>, the module fails after logging in and imports nothing;
  if it is JSON without the template's name, the module dies with the exception of the subscript
  and reports nothing.\<close>

theorem template_import_needs_json:
  assumes r: "template_ready z m (files w, host w) cs s' st t tgt fmt"
    and st: "st = ''present'' \<or> st = ''import''"
    and src: "fst s' t = Some (RegularFile data)"
    and bad: "rt_loads (t_rt T) data = Exc e \<and> is_Exception e \<and> report = [msg_fail (''Invalid JSON: '' @ exn_str e)]
        \<and> e' = SystemExit 1
      \<or> rt_loads (t_rt T) data = Ret doc \<and> export_name doc = Exc e' \<and> report = []"
  shows "template_main T z m w = (Exc e', logged_in w (cs @ report) s')"
proof -
  have "template_prepare (t_rt T) m (PStr st) (PStr t) tgt (logged_in w cs s')
      = (Exc e', logged_in w (cs @ report) s')"
    using st src bad template_readyD(1) [OF r]
    by (auto simp: template_prepare_def io_simps get_template_name_app fail_hard_def fail_msg_app
        after_call_def)
  then show ?thesis
    unfolding template_main_run [OF r] by (simp add: bnd_app)
qed

section \<open>Witnesses\<close>

definition sample_tmpl_zbx :: "pyval list \<Rightarrow> unit zabbix_client" where
  "sample_tmpl_zbx found = sample_zabbix\<lparr>za_method := (\<lambda>meth arg s.
     if meth = ''template.get'' then (Ret (PList found), s)
     else if meth = ''configuration.export'' then (Ret (PStr ''<x/>''), s)
     else if meth = ''template.delete'' then (Exc (ZabbixAPIException ''linked''), s)
     else (Ret (PBool True), s))\<rparr>"

definition sample_tmpl_params :: "string \<Rightarrow> pydict" where
  "sample_tmpl_params st =
     [(''server_url'', PStr ''http://zbx''), (''login_user'', PStr ''u''), (''login_password'', PStr ''p''),
      (''template'', PStr ''t''), (''state'', PStr st), (''timeout'', PInt 10), (''target'', PStr ''o''),
      (''format'', PStr ''xml''), (''validate_certs'', PBool False)]"

definition sample_tmpl_module :: "string \<Rightarrow> unit ansible_module" where
  "sample_tmpl_module st = sample_zbx_module (sample_tmpl_params st)"

definition sample_tree :: xml where
  "sample_tree = Elem ''x'' [] None None [Elem ''y'' [] None None []]"

text \<open>A decoder for which the text \<open>json\<close> is a document with a template's name.\<close>

definition sample_tmplrt :: tmplrt where
  "sample_tmplrt = \<lparr>t_rt = \<lparr>rt_loads = (\<lambda>s. if s = ''json'' then Ret (PDict [(''zabbix_export'',
         PDict [(''templates'', PList [PDict [(''name'', PStr ''T'')]])])])
       else Exc (ValueError ''no JSON'')), rt_repr = (\<lambda>v. []), rt_sha1 = Ret\<rparr>,
     t_fromstring = (\<lambda>v. Ret sample_tree), t_tostring = (\<lambda>x. Text (xtag x)),
     t_dumps = (\<lambda>v. Ret []), t_writable = (\<lambda>p. True)\<rparr>"

definition sample_tmpl_world :: "string \<Rightarrow> unit world" where
  "sample_tmpl_world data = \<lparr>files = [''t'' \<mapsto> RegularFile data], host = (), calls = []\<rparr>"

lemmas sample_tmpl_defs = sample_tmpl_zbx_def sample_tmpl_params_def sample_tmpl_module_def
  sample_tree_def sample_tmplrt_def sample_tmpl_world_def sample_zbx_defs

abbreviation sample_out :: "string \<Rightarrow> fsys \<times> unit" where
  "sample_out data \<equiv> ([''t'' \<mapsto> RegularFile data], ())"

lemma sample_template_ready:
  "template_ready (sample_tmpl_zbx found) (sample_tmpl_module st)
     (files (sample_tmpl_world data), host (sample_tmpl_world data)) sample_zbx_session
     (sample_out data) st ''t'' (PStr ''o'') ''xml''"
  by (simp add: template_ready_def zabbix_session_def ansible_contract_def sample_tmpl_defs dict_get_def)

theorem template_calls_confined_witness:
  "\<exists>cs. calls (snd (template_main sample_tmplrt (sample_tmpl_zbx []) (sample_tmpl_module ''absent'')
        (sample_tmpl_world []))) = calls (sample_tmpl_world []) @ cs
     \<and> (\<forall>c \<in> set cs. uses_methods (if check_mode (sample_tmpl_module ''absent'') then []
            else template_methods ''absent'') c)"
  by (rule template_calls_confined) (simp_all add: ansible_contract_def sample_tmpl_defs dict_get_def)

theorem template_import_needs_json_witness:
  "template_main sample_tmplrt (sample_tmpl_zbx []) (sample_tmpl_module ''present'')
     (sample_tmpl_world ''<xml/>'')
   = (Exc (SystemExit 1), logged_in (sample_tmpl_world ''<xml/>'')
        (sample_zbx_session @ [msg_fail (''Invalid JSON: '' @ exn_str (ValueError ''no JSON''))])
        (sample_out ''<xml/>''))"
  by (rule template_import_needs_json [OF sample_template_ready, where data = "''<xml/>''"
        and e = "ValueError ''no JSON''"])
    (simp_all add: sample_tmpl_defs)

theorem template_export_writes_witness:
  "\<exists>w'. template_main sample_tmplrt (sample_tmpl_zbx [PDict [(''templateid'', PStr ''7'')]])
       (sample_tmpl_module ''export'') (sample_tmpl_world []) = (Exc (SystemExit 0), w')
     \<and> files w' = [''t'' \<mapsto> RegularFile [], ''o'' \<mapsto> RegularFile ''x'']"
proof -
  let ?d = "[(''templateid'', PStr ''7'')]"
  show ?thesis
    using template_export_writes [OF sample_template_ready [of "[PDict ?d]" "''export''" "[]"],
        of ?d "[]" "sample_out []" "PStr ''7''" ?d "[]" "sample_out []" "PStr ''7''" "PStr ''<x/>''"
          "sample_out []" sample_tmplrt sample_tree]
    by (auto simp: sample_tmpl_defs dict_get_def)
qed

end
