(* ===== verification/TemplatePlay.thy ===== *)
theory TemplatePlay
  imports AnsiblePlay ZabbixTemplate
begin

text \<open>
  Runs of the \<open>zabbix_template\<close> module against one Zabbix server, as plays make them: the specification
  \<open>template_step\<close> says what a task does to the templates of the server and reports;
  \<open>template_plays_refine\<close> shows that the module implements it on a server with the documented behaviour
  of the API (\<open>zabbix_server\<close>).
\<close>

section \<open>Specification\<close>

text \<open>The server's templates, and those it does not delete because hosts or templates use them.\<close>

record template_db =
  known :: "string list"
  linked :: "string list"

text \<open>The import of a document, in a format, that describes a template, and the removal of a template.
  \<open>accepts fmt doc\<close>: the server can import \<open>doc\<close> as a document of the format \<open>fmt\<close>.\<close>

datatype template_task = Import string string string | Remove string

fun template_step :: "(string \<Rightarrow> string \<Rightarrow> bool) \<Rightarrow> template_task \<Rightarrow> template_db \<Rightarrow> task_report \<times> template_db" where
  "template_step accepts (Import fmt doc n) d =
     (if accepts fmt doc then (Changed, d\<lparr>known := List.insert n (known d)\<rparr>) else (Failed, d))"
| "template_step accepts (Remove n) d =
     (if n \<notin> set (known d) then (Unchanged, d)
      else if n \<in> set (linked d) then (Failed, d)
      else (Changed, d\<lparr>known := removeAll n (known d)\<rparr>))"

fun template_run ::
  "(string \<Rightarrow> string \<Rightarrow> bool) \<Rightarrow> template_task list \<Rightarrow> template_db \<Rightarrow> task_report list \<times> template_db" where
  "template_run accepts [] d = ([], d)"
| "template_run accepts (t # ts) d =
     (case template_step accepts t d of (r, d1) \<Rightarrow>
      case template_run accepts ts d1 of (rs, d2) \<Rightarrow> (r # rs, d2))"

fun template_goal :: "template_task \<Rightarrow> template_db \<Rightarrow> bool" where
  "template_goal (Import fmt doc n) d = (n \<in> set (known d))"
| "template_goal (Remove n) d = (n \<notin> set (known d))"

lemma template_step_goal:
  "template_step accepts t d = (r, d') \<Longrightarrow> r \<noteq> Failed \<Longrightarrow> template_goal t d'"
  by (cases t) (auto split: if_splits)

text \<open>A task that was done is done: repeating it changes nothing.\<close>

lemma template_step_again:
  "template_step accepts t d = (r, d') \<Longrightarrow> r \<noteq> Failed \<Longrightarrow> snd (template_step accepts t d') = d'"
  by (cases t) (auto split: if_splits)

section \<open>The server\<close>

text \<open>A document that describes one template, of which the visible and the technical name agree.\<close>

definition describes :: "pyrt \<Rightarrow> string \<Rightarrow> string \<Rightarrow> bool" where
  "describes rt doc n = (\<exists>d e t. rt_loads rt doc = Ret (PDict d)
     \<and> dict_get d ''zabbix_export'' = Some (PDict e) \<and> dict_get e ''templates'' = Some (PList [PDict t])
     \<and> dict_get t ''template'' = Some (PStr n) \<and> dict_get t ''name'' = Some (PStr n))"

text \<open>\<open>db\<close> reads the templates off the state of the server, \<open>tid\<close> the identifier of a template.
  \<open>template.get\<close> lists the template with a technical name and changes nothing, \<open>template.delete\<close> takes an
  identifier, \<open>configuration.import\<close> creates or updates what the document describes. Its parameter
  \<open>format\<close> is the serialization of the document: what is JSON is not accepted as \<open>xml\<close>. What is refused
  raises an exception and changes no template.\<close>

definition zabbix_server ::
  "pyrt \<Rightarrow> 'h zabbix_client \<Rightarrow> ('h \<Rightarrow> template_db) \<Rightarrow> ('h \<Rightarrow> string \<Rightarrow> pyval)
   \<Rightarrow> (string \<Rightarrow> string \<Rightarrow> bool) \<Rightarrow> bool" where
  "zabbix_server rt z db tid accepts =
     ((\<forall>n fs h. truthy (tid h n) \<and> za_method z ''template.get'' (template_query (PStr n)) (fs, h) =
         (Ret (PList (if n \<in> set (known (db h)) then [PDict [(''templateid'', tid h n)]] else [])), (fs, h)))
    \<and> (\<forall>n fs h. n \<in> set (known (db h)) \<longrightarrow> (\<exists>r h'.
         za_method z ''template.delete'' (PList [tid h n]) (fs, h) = (r, (fs, h'))
         \<and> (if n \<in> set (linked (db h)) then (\<exists>e. r = Exc (ZabbixAPIException e)) \<and> db h' = db h
            else (\<exists>v. r = Ret v) \<and> db h' = db h\<lparr>known := removeAll n (known (db h))\<rparr>)))
    \<and> (\<forall>fmt doc n fs h. describes rt doc n \<longrightarrow> (\<exists>r h'.
         za_method z ''configuration.import_'' (import_request (PStr fmt) doc) (fs, h) = (r, (fs, h'))
         \<and> (if accepts fmt doc then (\<exists>v. r = Ret v) \<and> db h' = db h\<lparr>known := List.insert n (known (db h))\<rparr>
            else (\<exists>e. r = Exc (ZabbixAPIException e)) \<and> db h' = db h)))
    \<and> (\<forall>doc n. describes rt doc n \<longrightarrow> \<not> accepts ''xml'' doc))"

lemma zabbix_serverD:
  assumes "zabbix_server rt z db tid accepts"
  shows "za_method z ''template.get'' (template_query (PStr n)) (fs, h) =
       (Ret (PList (if n \<in> set (known (db h)) then [PDict [(''templateid'', tid h n)]] else [])), (fs, h))"
    and "truthy (tid h n)"
    and "n \<in> set (known (db h)) \<Longrightarrow> \<exists>r h'.
       za_method z ''template.delete'' (PList [tid h n]) (fs, h) = (r, (fs, h'))
       \<and> (if n \<in> set (linked (db h)) then (\<exists>e. r = Exc (ZabbixAPIException e)) \<and> db h' = db h
          else (\<exists>v. r = Ret v) \<and> db h' = db h\<lparr>known := removeAll n (known (db h))\<rparr>)"
    and "describes rt doc n \<Longrightarrow> \<exists>r h'.
       za_method z ''configuration.import_'' (import_request (PStr fmt) doc) (fs, h) = (r, (fs, h'))
       \<and> (if accepts fmt doc then (\<exists>v. r = Ret v) \<and> db h' = db h\<lparr>known := List.insert n (known (db h))\<rparr>
          else (\<exists>e. r = Exc (ZabbixAPIException e)) \<and> db h' = db h)"
    and "describes rt doc n \<Longrightarrow> \<not> accepts ''xml'' doc"
  using assms unfolding zabbix_server_def by blast+

text \<open>The parameters with which a play asks for a task: the credentials are right, and the file holds
  the document.\<close>

definition template_asks ::
  "pyrt \<Rightarrow> 'h zabbix_client \<Rightarrow> ('h \<Rightarrow> template_db) \<Rightarrow> fsys \<Rightarrow> 'h ansible_module \<Rightarrow> template_task \<Rightarrow> bool" where
  "template_asks rt z db fs m t = (\<forall>h. \<exists>cs h' st tm tgt fmt.
     template_ready z m (fs, h) cs (fs, h') st tm tgt fmt \<and> db h' = db h
     \<and> (case t of
          Import f doc n \<Rightarrow> st \<in> set [''present'', ''import''] \<and> fmt = f \<and> fs tm = Some (RegularFile doc) \<and> describes rt doc n
        | Remove n \<Rightarrow> st = ''absent'' \<and> tm = n))"

lemma describes_name:
  assumes "describes rt doc n"
  obtains d where "rt_loads rt doc = Ret d" "export_name d = Ret (PStr n)"
  using assms by (auto simp: describes_def export_name_def)

section \<open>The module on a server\<close>

lemma import_refines:
  assumes server: "zabbix_server (t_rt T) z db tid accepts"
    and asks: "template_asks (t_rt T) z db (files w) m (Import fmt doc n)"
    and run: "snd (template_main T z m w) = w'"
  shows "files w' = files w
    \<and> template_step accepts (Import fmt doc n) (db (host w)) = (report_of (last (calls w')), db (host w'))"
proof -
  obtain cs h1 st tm tgt where r: "template_ready z m (files w, host w) cs (files w, h1) st tm tgt fmt"
    and d: "db h1 = db (host w)" "st = ''present'' \<or> st = ''import''" "files w tm = Some (RegularFile doc)"
      "describes (t_rt T) doc n"
    using asks unfolding template_asks_def by fastforce
  obtain v where v: "rt_loads (t_rt T) doc = Ret v" "export_name v = Ret (PStr n)"
    using d(4) by (rule describes_name)
  obtain res h2 where i: "za_method z ''configuration.import_'' (import_request (PStr fmt) doc) (files w, h1)
      = (res, (files w, h2))"
    and e: "if accepts fmt doc then (\<exists>v. res = Ret v) \<and> db h2 = db h1\<lparr>known := List.insert n (known (db h1))\<rparr>
      else (\<exists>e. res = Exc (ZabbixAPIException e)) \<and> db h2 = db h1"
    using zabbix_serverD(4) [OF server d(4)] by blast
  show ?thesis
    using template_import_run [OF r d(2) _ v i] d(1,3) e run
    by (auto simp: dict_get_def split: if_splits)
qed

lemma remove_refines:
  assumes server: "zabbix_server (t_rt T) z db tid accepts"
    and asks: "template_asks (t_rt T) z db (files w) m (Remove n)"
    and run: "snd (template_main T z m w) = w'"
  shows "files w' = files w
    \<and> template_step accepts (Remove n) (db (host w)) = (report_of (last (calls w')), db (host w'))"
proof -
  obtain cs h1 tgt fmt where r: "template_ready z m (files w, host w) cs (files w, h1) ''absent'' n tgt fmt"
    and d: "db h1 = db (host w)"
    using asks unfolding template_asks_def by fastforce
  note get = zabbix_serverD(1) [OF server, of n "files w" h1]
  show ?thesis
  proof (cases "n \<in> set (known (db h1))")
    case False
    then show ?thesis
      using template_unknown_is_noop [OF r, of "(files w, h1)" T] get d run by (auto simp: dict_get_def)
  next
    case True
    let ?d = "[(''templateid'', tid h1 n)]"
    have get1: "za_method z ''template.get'' (template_query (PStr n)) (files w, h1)
        = (Ret (PList [PDict ?d]), (files w, h1))" and i: "dict_get ?d ''templateid'' = Some (tid h1 n)"
      using get True by (simp_all add: dict_get_def)
    obtain res h2 where del: "za_method z ''template.delete'' (PList [tid h1 n]) (files w, h1) = (res, (files w, h2))"
      and e: "if n \<in> set (linked (db h1)) then (\<exists>e. res = Exc (ZabbixAPIException e)) \<and> db h2 = db h1
          else (\<exists>v. res = Ret v) \<and> db h2 = db h1\<lparr>known := removeAll n (known (db h1))\<rparr>"
      using zabbix_serverD(3) [OF server True] by blast
    show ?thesis
      using template_absent_deletes [OF r get1 i zabbix_serverD(2) [OF server] get1 i del, of T] True d e run
      by (auto simp: dict_get_def split: if_splits)
  qed
qed

interpretation template_play: play "template_main T z" "template_asks (t_rt T) z db"
    "\<lambda>t h r h'. template_step accepts t (db h) = (r, db h')" "\<lambda>h. zabbix_server (t_rt T) z db tid accepts"
  for T z and db :: "'h \<Rightarrow> template_db" and tid accepts
proof unfold_locales
  fix w m t and w' :: "'h world"
  assume asks: "template_asks (t_rt T) z db (files w) m t" and server: "zabbix_server (t_rt T) z db tid accepts"
    and run: "snd (template_main T z m w) = w'"
  show "files w' = files w
      \<and> template_step accepts t (db (host w)) = (report_of (last (calls w')), db (host w'))"
  proof (cases t)
    case (Import fmt doc n)
    show ?thesis unfolding Import by (rule import_refines [OF server asks [unfolded Import] run])
  next
    case (Remove n)
    show ?thesis unfolding Remove by (rule remove_refines [OF server asks [unfolded Remove] run])
  qed
qed

lemma steps_template_run:
  "task_steps (\<lambda>t h r h'. template_step accepts t (db h) = (r, db h')) ts h rs h' \<Longrightarrow>
   template_run accepts ts (db h) = (rs, db h')"
  by (induction rule: task_steps.induct) simp_all

text \<open>C6. Runs of the module implement the tasks of a play. On a server with the documented behaviour, the
  runs that a play makes for its imports and removals report, and do to the templates of the server,
  exactly what the specification says: an import reports a change whenever the server accepts it, a
  removal reports one only if the template was there, what the server refuses is reported as a failure.
  Imports in the format \<open>xml\<close>, the default of the module, always fail: it takes only JSON files and sends
  them under that format. No file changes, and if the last task does not fail, its template is there, or
  gone.\<close>

theorem template_plays_refine:
  assumes server: "zabbix_server (t_rt T) z db tid accepts"
    and asks: "list_all2 (template_asks (t_rt T) z db (files w)) ms ts"
    and play: "play_runs (template_main T z) ms w = (rs, w')"
  shows "template_run accepts ts (db (host w)) = (rs, db (host w')) \<and> files w' = files w
    \<and> (ts = [] \<or> last rs = Failed \<or> template_goal (last ts) (db (host w')))
    \<and> list_all2 (\<lambda>t r. (\<exists>doc n. t = Import ''xml'' doc n) \<longrightarrow> r = Failed) ts rs"
proof -
  let ?step = "\<lambda>t h r h'. template_step accepts t (db h) = (r, db h')"
  have run: "files w' = files w" "task_steps ?step ts (host w) rs (host w')"
    using template_play.refines [OF asks server play] by blast+
  have "ts = [] \<or> last rs = Failed \<or> template_goal (last ts) (db (host w'))"
    using task_steps_last [OF _ run(2), of "\<lambda>_. True" "\<lambda>t h. template_goal t (db h)"] template_step_goal by blast
  moreover have "list_all2 (\<lambda>t r. (\<exists>doc n. t = Import ''xml'' doc n) \<longrightarrow> r = Failed) ts rs"
  proof (rule task_steps_all2 [OF run(2)])
    fix t h r h'
    assume t: "t \<in> set ts" and step: "?step t h r h'"
    obtain m where "template_asks (t_rt T) z db (files w) m t"
      using asks t by (auto simp: list_all2_conv_all_nth in_set_conv_nth)
    then have "describes (t_rt T) doc n" if "t = Import fmt doc n" for fmt doc n
      using that unfolding template_asks_def by fastforce
    then show "(\<exists>doc n. t = Import ''xml'' doc n) \<longrightarrow> r = Failed"
      using zabbix_serverD(5) [OF server] step by auto
  qed
  ultimately show ?thesis
    using run(1) steps_template_run [OF run(2)] by blast
qed

section \<open>A sample server\<close>

text \<open>Its state is the templates; the identifier of a template is its name with a mark.\<close>

definition server_method :: "string \<Rightarrow> pyval \<Rightarrow> (template_db, pyval) outside" where
  "server_method meth arg = (\<lambda>(fs, d).
     if meth = ''template.get'' then
       (case arg of PDict [_, (_, PDict [(_, PList [PStr n])])] \<Rightarrow>
          Ret (PList (if n \<in> set (known d) then [PDict [(''templateid'', PStr (''#'' @ n))]] else []))
        | _ \<Rightarrow> Ret PNone, (fs, d))
     else if meth = ''template.delete'' then
       (case arg of PList [PStr (_ # n)] \<Rightarrow>
          if n \<in> set (linked d) then (Exc (ZabbixAPIException ''linked''), (fs, d))
          else (Ret (PBool True), (fs, d\<lparr>known := removeAll n (known d)\<rparr>))
        | _ \<Rightarrow> (Ret PNone, (fs, d)))
     else if arg = import_request (PStr ''json'') ''json''
     then (Ret (PBool True), (fs, d\<lparr>known := List.insert ''T'' (known d)\<rparr>))
     else (Exc (ZabbixAPIException ''invalid document''), (fs, d)))"

definition sample_server :: "template_db zabbix_client" where
  "sample_server = sample_zabbix\<lparr>za_method := server_method\<rparr>"

definition server_rt :: tmplrt where
  "server_rt = sample_tmplrt\<lparr>t_rt := (t_rt sample_tmplrt)\<lparr>rt_loads := (\<lambda>s.
     if s = ''json'' then Ret (PDict [(''zabbix_export'', PDict [(''templates'',
       PList [PDict [(''template'', PStr ''T''), (''name'', PStr ''T'')]])])])
     else Exc (ValueError ''no JSON''))\<rparr>\<rparr>"

lemma sample_describes: "describes (t_rt server_rt) doc n \<longleftrightarrow> doc = ''json'' \<and> n = ''T''"
  by (auto simp: describes_def server_rt_def dict_get_def)

lemma sample_zabbix_server:
  "zabbix_server (t_rt server_rt) sample_server id (\<lambda>h n. PStr (''#'' @ n)) (\<lambda>fmt doc. fmt = ''json'')"
  unfolding zabbix_server_def sample_describes
  by (auto simp: sample_server_def server_method_def template_query_def import_request_def)

definition server_module :: "string \<Rightarrow> string \<Rightarrow> string \<Rightarrow> template_db ansible_module" where
  "server_module st tm fmt = \<lparr>params =
     [(''server_url'', PStr ''http://zbx''), (''login_user'', PStr ''u''), (''login_password'', PStr ''p''),
      (''template'', PStr tm), (''state'', PStr st), (''timeout'', PInt 10), (''target'', PNone),
      (''format'', PStr fmt), (''validate_certs'', PBool False)],
     check_mode = False, m_get_bin_path = (\<lambda>n s. (Ret n, s)), m_run_command = (\<lambda>cmd s. (Ret (0, [], []), s)),
     m_fail_json = (\<lambda>kw s. (Exc (SystemExit 1), s)), m_exit_json = (\<lambda>kw s. (Exc (SystemExit 0), s))\<rparr>"

definition server_world :: "template_db world" where
  "server_world = \<lparr>files = [''t'' \<mapsto> RegularFile ''json''], host = \<lparr>known = [''L''], linked = [''L'']\<rparr>, calls = []\<rparr>"

lemma server_module_ready:
  "\<exists>cs. template_ready sample_server (server_module st tm fmt) (fs, h) cs (fs, h) st tm PNone fmt"
  by (simp add: template_ready_def zabbix_session_def ansible_contract_def server_module_def sample_server_def
      sample_zabbix_def dict_get_def)

lemma server_module_asks:
  "template_asks (t_rt server_rt) sample_server id (files server_world) (server_module ''present'' ''t'' fmt)
     (Import fmt ''json'' ''T'')"
  "template_asks (t_rt server_rt) sample_server id fs (server_module ''absent'' n fmt) (Remove n)"
  using server_module_ready unfolding template_asks_def sample_describes
  by (fastforce simp: server_world_def)+

theorem template_plays_refine_witness:
  "let ms = [server_module ''present'' ''t'' ''xml'', server_module ''present'' ''t'' ''json'',
        server_module ''absent'' ''L'' ''xml'', server_module ''absent'' ''T'' ''xml'', server_module ''absent'' ''T'' ''xml''] in
   case play_runs (template_main server_rt sample_server) ms server_world of (rs, w') \<Rightarrow>
     (rs, host w') = ([Failed, Changed, Failed, Changed, Unchanged], \<lparr>known = [''L''], linked = [''L'']\<rparr>)
     \<and> files w' = files server_world"
proof -
  let ?ms = "[server_module ''present'' ''t'' ''xml'', server_module ''present'' ''t'' ''json'',
        server_module ''absent'' ''L'' ''xml'', server_module ''absent'' ''T'' ''xml'', server_module ''absent'' ''T'' ''xml'']"
  let ?ts = "[Import ''xml'' ''json'' ''T'', Import ''json'' ''json'' ''T'', Remove ''L'', Remove ''T'', Remove ''T'']"
  obtain rs w' where run: "play_runs (template_main server_rt sample_server) ?ms server_world = (rs, w')"
    by (rule prod.exhaust)
  have asks: "list_all2 (template_asks (t_rt server_rt) sample_server id (files server_world)) ?ms ?ts"
    by (simp add: server_module_asks)
  have "template_run (\<lambda>fmt doc. fmt = ''json'') ?ts (host server_world)
      = ([Failed, Changed, Failed, Changed, Unchanged], \<lparr>known = [''L''], linked = [''L'']\<rparr>)"
    by (simp add: server_world_def List.insert_def)
  with template_plays_refine [OF sample_zabbix_server asks run] show ?thesis
    unfolding Let_def run prod.case by simp
qed

end
