(* ===== verification/Imgadm.thy ===== *)
theory Imgadm
  imports Ansible
begin

text \<open>
  The Ansible module \<open>ansible/library/imgadm.py\<close>: image sources and virtual machine images
  through the command \<open>imgadm\<close>. Ansible's constants \<open>BOOLEANS\<close> and
  \<open>BOOLEANS_TRUE\<close> are the parameters \<open>booleans\<close> and \<open>booleans_true\<close>.
\<close>

section \<open>The module\<close>

definition imgadm_spec :: "pyval list \<Rightarrow> argument list" where
  "imgadm_spec booleans =
     [\<lparr>arg_name = ''command'', arg_type = TStr, arg_required = True, arg_default = PNone,
       arg_choices = map PStr [''sources'', ''image'']\<rparr>,
      \<lparr>arg_name = ''url'', arg_type = TStr, arg_required = False, arg_default = PNone,
       arg_choices = []\<rparr>,
      \<lparr>arg_name = ''state'', arg_type = TStr, arg_required = False, arg_default = PStr ''present'',
       arg_choices = map PStr [''present'', ''absent'']\<rparr>,
      \<lparr>arg_name = ''uuid'', arg_type = TStr, arg_required = False, arg_default = PNone,
       arg_choices = []\<rparr>,
      \<lparr>arg_name = ''zpool'', arg_type = TStr, arg_required = False, arg_default = PStr ''zones'',
       arg_choices = []\<rparr>,
      \<lparr>arg_name = ''update'', arg_type = TBool, arg_required = False, arg_default = PBool False,
       arg_choices = booleans\<rparr>]"

definition imgadm_check_subparam ::
  "'h ansible_module \<Rightarrow> string \<Rightarrow> string \<Rightarrow> ('h world, unit) io" where
  "imgadm_check_subparam m subparam command =
     if_then (\<not> truthy (param_get m subparam (PBool False)))
       (fail_msg m (subparam @ '' subparam required for command '' @ command))"

text \<open>The variables \<open>rc\<close>, \<open>so\<close>, \<open>se\<close> and \<open>changed\<close>.\<close>

type_synonym img_outcome = "int \<times> string \<times> string \<times> bool"

text \<open>The branch \<open>cmd == 'sources'\<close>. \<open>so.split()[0]\<close> raises when the output is
  blank.\<close>

definition imgadm_sources ::
  "pyrt \<Rightarrow> 'h ansible_module \<Rightarrow> string \<Rightarrow> pyval \<Rightarrow> pyval \<Rightarrow> ('h world, img_outcome) io" where
  "imgadm_sources rt m imgadm_path cmd state =
     sq (imgadm_check_subparam m ''url'' (fmt_s rt cmd))
     (sq (imgadm_check_subparam m ''state'' (fmt_s rt cmd))
     (bnd (if state = PStr ''present''
           then bnd (param m ''url'') (\<lambda>url.
                  run_command m (imgadm_path @ '' sources -a '' @ fmt_s rt url))
           else if state = PStr ''absent''
           then bnd (param m ''url'') (\<lambda>url.
                  run_command m (imgadm_path @ '' sources -d '' @ fmt_s rt url))
           else ret (1, [], []))
        (\<lambda>(rc, so, se).
           case py_split so of
             [] \<Rightarrow> raise (IndexError ''list index out of range'')
           | first # _ \<Rightarrow> ret (rc, so, se, first \<in> set [''Added'', ''Deleted''] \<and> rc = 0))))"

text \<open>The branch \<open>cmd == 'image'\<close>.\<close>

definition imgadm_image ::
  "pyrt \<Rightarrow> pyval list \<Rightarrow> 'h ansible_module \<Rightarrow> string \<Rightarrow> pyval \<Rightarrow> pyval
   \<Rightarrow> ('h world, img_outcome) io" where
  "imgadm_image rt booleans_true m imgadm_path cmd state =
     (let uuid = param_get m ''uuid'' PNone in
      bnd (if state = PStr ''present''
           then bnd (param m ''update'') (\<lambda>update.
                  if update \<in> set booleans_true
                  then (if truthy uuid
                        then run_command m (imgadm_path @ '' update '' @ fmt_s rt uuid)
                        else run_command m (imgadm_path @ '' update''))
                  else sq (imgadm_check_subparam m ''uuid'' (fmt_s rt cmd))
                         (bnd (param m ''uuid'') (\<lambda>uuid.
                            run_command m (imgadm_path @ '' import -q '' @ fmt_s rt uuid))))
           else if state = PStr ''absent''
           then bnd (param m ''uuid'') (\<lambda>uuid.
                  run_command m (imgadm_path @ '' delete '' @ fmt_s rt uuid))
           else ret (1, [], []))
        (\<lambda>(rc, so, se).
           ret (rc, so, se, 0 < py_find so ''Imported image'' \<or> py_find so ''Deleted image'' = 0
                  \<or> py_find so ''Updated'' = 0)))"

definition imgadm_finish :: "'h ansible_module \<Rightarrow> img_outcome \<Rightarrow> ('h world, unit) io" where
  "imgadm_finish m oc = (case oc of (rc, so, se, changed) \<Rightarrow>
     if rc \<noteq> 0 then fail_msg m se
     else exit_json m [(''changed'', PBool changed), (''msg'', PStr so)])"

definition imgadm_main :: "pyrt \<Rightarrow> pyval list \<Rightarrow> 'h ansible_module \<Rightarrow> ('h world, unit) io" where
  "imgadm_main rt booleans_true m =
     bnd (get_bin_path m ''imgadm'') (\<lambda>imgadm_path.
     bnd (param m ''command'') (\<lambda>cmd.
       (let state = param_get m ''state'' PNone in
        bnd (if cmd = PStr ''sources'' then imgadm_sources rt m imgadm_path cmd state
             else ret (1, [], [], False)) (\<lambda>oc.
        bnd (if cmd = PStr ''image'' then imgadm_image rt booleans_true m imgadm_path cmd state
             else ret oc) (imgadm_finish m)))))"

section \<open>The contract of the module\<close>

lemma disciplined_img_check [disc_intros]:
  "ansible_contract m \<Longrightarrow> disciplined (imgadm_check_subparam m k cmd)"
  unfolding imgadm_check_subparam_def by (intro disc_intros)

lemma disciplined_case_list:
  "(x = [] \<Longrightarrow> disciplined f) \<Longrightarrow> (\<And>y ys. x = y # ys \<Longrightarrow> disciplined (g y ys)) \<Longrightarrow>
   disciplined (case x of [] \<Rightarrow> f | y # ys \<Rightarrow> g y ys)"
  by (cases x) auto

lemma disciplined_sources [disc_intros]:
  "ansible_contract m \<Longrightarrow> disciplined (imgadm_sources rt m path cmd st)"
  unfolding imgadm_sources_def by (intro disc_intros disciplined_case_list)

lemma disciplined_image [disc_intros]:
  "ansible_contract m \<Longrightarrow> disciplined (imgadm_image rt bt m path cmd st)"
  unfolding imgadm_image_def Let_def by (intro disc_intros)

lemma disciplined_img_finish [disc_intros]:
  "ansible_contract m \<Longrightarrow> disciplined (imgadm_finish m oc)"
  unfolding imgadm_finish_def by (intro disc_intros)

interpretation imgadm_prog: ansible_program "imgadm_main rt bt" for rt bt
proof unfold_locales
  fix m :: "'h ansible_module"
  assume c: "ansible_contract m"
  show "disciplined (imgadm_main rt bt m)"
    unfolding imgadm_main_def Let_def using c by (intro disc_intros)
  show "never_returns (imgadm_main rt bt m)"
    unfolding imgadm_main_def imgadm_finish_def Let_def using c by (intro ends_intros)
qed

section \<open>Behaviour\<close>

definition imgadm_ready :: "pyval list \<Rightarrow> 'h ansible_module \<Rightarrow> string \<Rightarrow> bool" where
  "imgadm_ready booleans m path =
     (ansible_contract m \<and> conforms (imgadm_spec booleans) [] (params m)
      \<and> (\<forall>s. m_get_bin_path m ''imgadm'' s = (Ret path, s)))"

lemma imgadm_readyD:
  assumes "imgadm_ready bs m path"
  shows "ansible_contract m" "conforms (imgadm_spec bs) [] (params m)"
    "m_get_bin_path m ''imgadm'' s = (Ret path, s)"
  using assms unfolding imgadm_ready_def by blast+

abbreviation after_imgadm :: "'h world \<Rightarrow> 'h world" where
  "after_imgadm w \<equiv> after_call w (GetBinPath ''imgadm'') (files w, host w)"

abbreviation imgadm_exit :: "bool \<Rightarrow> string \<Rightarrow> call" where
  "imgadm_exit ch so \<equiv> ExitJson [(''changed'', PBool ch), (''msg'', PStr so)]"

lemma imgadm_main_run:
  assumes "imgadm_ready bs m path"
    and "dict_get (params m) ''command'' = Some (PStr cmd)"
    and "dict_get (params m) ''state'' = Some st"
  shows "imgadm_main rt bt m w =
    (if cmd = ''sources'' then bnd (imgadm_sources rt m path (PStr cmd) st) (imgadm_finish m)
     else if cmd = ''image'' then bnd (imgadm_image rt bt m path (PStr cmd) st) (imgadm_finish m)
     else imgadm_finish m (1, [], [], False)) (after_imgadm w)"
  using imgadm_readyD(3) [OF assms(1)] assms(2,3)
  by (cases "cmd = ''sources''")
    (simp_all add: imgadm_main_def get_bin_path_def param_def param_get_def Let_def io_simps)

lemma imgadm_finish_app:
  "ansible_contract m \<Longrightarrow> imgadm_finish m (rc, so, se, ch) w =
     (Exc (SystemExit (if rc = 0 then 0 else 1)),
      after_call w (if rc = 0 then imgadm_exit ch so else msg_fail se) (files w, host w))"
  by (simp add: imgadm_finish_def fail_msg_app exit_json_app)

text \<open>The command line \<open>command=image\<close> calls for.\<close>

definition image_cmd ::
  "pyrt \<Rightarrow> pyval list \<Rightarrow> string \<Rightarrow> string \<Rightarrow> pyval \<Rightarrow> pyval \<Rightarrow> string" where
  "image_cmd rt bt path st upd uu =
     (if st = ''absent'' then path @ '' delete '' @ fmt_s rt uu
      else if upd \<in> set bt
      then (if truthy uu then path @ '' update '' @ fmt_s rt uu else path @ '' update'')
      else path @ '' import -q '' @ fmt_s rt uu)"

lemma imgadm_image_app:
  assumes c: "ansible_contract m"
    and st: "st = ''present'' \<or> st = ''absent''"
    and p: "dict_get (params m) ''uuid'' = Some uu" "dict_get (params m) ''update'' = Some upd"
    and sub: "st = ''absent'' \<or> upd \<in> set bt \<or> truthy uu"
    and run: "m_run_command m (image_cmd rt bt path st upd uu) (files w, host w)
      = (Ret (rc, so, se), s)"
  shows "imgadm_image rt bt m path cmd (PStr st) w =
     (Ret (rc, so, se, sublist ''Imported image'' so \<and> \<not> prefix ''Imported image'' so
        \<or> prefix ''Deleted image'' so \<or> prefix ''Updated'' so),
      after_call w (RunCommand (image_cmd rt bt path st upd uu)) s)"
  using st p sub run
  by (auto simp: imgadm_image_def imgadm_check_subparam_def image_cmd_def run_command_def param_def
      param_get_def py_find_pos_iff py_find_0_iff py_startswith_def io_simps split: if_splits)

text \<open>With \<open>command=image\<close> the module runs exactly one command: \<open>delete\<close> for
  \<open>state=absent\<close>, \<open>update\<close> (of one image, or of all without a uuid) when an update is
  asked for, and \<open>import -q\<close> otherwise. It fails with the command's standard error when the
  exit code is not 0 and otherwise reports a change exactly when the output announces an imported
  image after its first character, or starts by announcing a deleted image or an update.\<close>

lemma imgadm_main_image:
  assumes ready: "imgadm_ready bs m path"
    and cmd: "dict_get (params m) ''command'' = Some (PStr ''image'')"
    and st: "dict_get (params m) ''state'' = Some (PStr st)" "st \<in> set [''present'', ''absent'']"
    and p: "dict_get (params m) ''uuid'' = Some uu" "dict_get (params m) ''update'' = Some upd"
    and sub: "st = ''absent'' \<or> upd \<in> set bt \<or> truthy uu"
    and run: "m_run_command m (image_cmd rt bt path st upd uu) (files w, host w)
      = (Ret (rc, so, se), s)"
  shows "\<exists>w'. imgadm_main rt bt m w = (Exc (SystemExit (if rc = 0 then 0 else 1)), w')
     \<and> files w' = fst s \<and> host w' = snd s
     \<and> calls w' = calls w @ [GetBinPath ''imgadm'', RunCommand (image_cmd rt bt path st upd uu),
         if rc = 0
         then imgadm_exit (sublist ''Imported image'' so \<and> \<not> prefix ''Imported image'' so
                \<or> prefix ''Deleted image'' so \<or> prefix ''Updated'' so) so
         else msg_fail se]"
proof -
  have st': "st = ''present'' \<or> st = ''absent''" using st(2) by auto
  have run': "m_run_command m (image_cmd rt bt path st upd uu)
      (files (after_imgadm w), host (after_imgadm w)) = (Ret (rc, so, se), s)"
    using run by simp
  show ?thesis
    unfolding imgadm_main_run [OF ready cmd st(1)]
    using imgadm_image_app [OF imgadm_readyD(1) [OF ready] st' p sub run', of "PStr ''image''"]
      imgadm_readyD(1) [OF ready]
    by (simp add: bnd_app imgadm_finish_app)
qed

text \<open>\<open>state=absent\<close> without a uuid is not rejected: the module asks the hypervisor to
  delete the image named \<open>None\<close>.\<close>

lemma imgadm_deletes_none:
  assumes ready: "imgadm_ready bs m path"
    and cmd: "dict_get (params m) ''command'' = Some (PStr ''image'')"
    and st: "dict_get (params m) ''state'' = Some (PStr ''absent'')"
    and p: "dict_get (params m) ''uuid'' = Some PNone"
  shows "\<exists>cs. calls (snd (imgadm_main rt bt m w))
     = calls w @ [GetBinPath ''imgadm'', RunCommand (path @ '' delete None'')] @ cs"
proof -
  obtain r s where run: "m_run_command m (path @ '' delete None'') (files w, host w) = (r, s)"
    by (cases "m_run_command m (path @ '' delete None'') (files w, host w)") simp
  show ?thesis
    unfolding imgadm_main_run [OF ready cmd st]
    using run p imgadm_readyD(1) [OF ready]
    by (cases r) (auto simp: imgadm_image_def run_command_def param_def imgadm_finish_app io_simps)
qed

lemma imgadm_sources_app:
  assumes st: "(st, flag) \<in> set [(''present'', ''-a''), (''absent'', ''-d'')]"
    and p: "dict_get (params m) ''url'' = Some (PStr url)" "url \<noteq> []"
      "dict_get (params m) ''state'' = Some (PStr st)"
    and run: "m_run_command m (path @ '' sources '' @ flag @ '' '' @ url) (files w, host w)
      = (Ret (rc, so, se), s)"
  shows "imgadm_sources rt m path cmd (PStr st) w =
     (case py_split so of [] \<Rightarrow> Exc (IndexError ''list index out of range'')
      | first # _ \<Rightarrow> Ret (rc, so, se, first \<in> set [''Added'', ''Deleted''] \<and> rc = 0),
      after_call w (RunCommand (path @ '' sources '' @ flag @ '' '' @ url)) s)"
  using st p run
  by (auto simp: imgadm_sources_def imgadm_check_subparam_def run_command_def param_def
      param_get_def io_simps split: list.split)

text \<open>With \<open>command=sources\<close> the module adds or removes the source with one command. If
  the command prints something, the module fails with its standard error or reports a change
  exactly when the first word printed is \<open>Added\<close> or \<open>Deleted\<close>.\<close>

lemma imgadm_sources_reports:
  assumes ready: "imgadm_ready bs m path"
    and cmd: "dict_get (params m) ''command'' = Some (PStr ''sources'')"
    and st: "(st, flag) \<in> set [(''present'', ''-a''), (''absent'', ''-d'')]"
    and p: "dict_get (params m) ''url'' = Some (PStr url)" "url \<noteq> []"
      "dict_get (params m) ''state'' = Some (PStr st)"
    and run: "m_run_command m (path @ '' sources '' @ flag @ '' '' @ url) (files w, host w)
      = (Ret (rc, so, se), s)"
    and nonblank: "\<exists>c \<in> set so. \<not> is_space c"
  shows "\<exists>w'. imgadm_main rt bt m w = (Exc (SystemExit (if rc = 0 then 0 else 1)), w')
     \<and> files w' = fst s \<and> host w' = snd s
     \<and> calls w' = calls w @ [GetBinPath ''imgadm'',
         RunCommand (path @ '' sources '' @ flag @ '' '' @ url),
         if rc = 0 then imgadm_exit (hd (py_split so) \<in> set [''Added'', ''Deleted'']) so
         else msg_fail se]"
proof -
  have "py_split so \<noteq> []" using nonblank by (auto simp: py_split_Nil_iff)
  moreover have "m_run_command m (path @ '' sources '' @ flag @ '' '' @ url)
      (files (after_imgadm w), host (after_imgadm w)) = (Ret (rc, so, se), s)"
    using run by simp
  ultimately show ?thesis
    unfolding imgadm_main_run [OF ready cmd p(3)]
    using imgadm_sources_app [OF st p] imgadm_readyD(1) [OF ready]
    by (auto simp: bnd_app imgadm_finish_app neq_Nil_conv)
qed

text \<open>If the command prints nothing on standard output, as a failing \<open>imgadm\<close> does, the
  module dies with an \<open>IndexError\<close> whatever the exit code, and neither failure nor success is
  reported.\<close>

lemma imgadm_sources_blank_output_dies:
  assumes ready: "imgadm_ready bs m path"
    and cmd: "dict_get (params m) ''command'' = Some (PStr ''sources'')"
    and st: "(st, flag) \<in> set [(''present'', ''-a''), (''absent'', ''-d'')]"
    and p: "dict_get (params m) ''url'' = Some (PStr url)" "url \<noteq> []"
      "dict_get (params m) ''state'' = Some (PStr st)"
    and run: "m_run_command m (path @ '' sources '' @ flag @ '' '' @ url) (files w, host w)
      = (Ret (rc, so, se), s)"
    and blank: "\<forall>c \<in> set so. is_space c"
  shows "imgadm_main rt bt m w =
     (Exc (IndexError ''list index out of range''),
      after_call (after_imgadm w) (RunCommand (path @ '' sources '' @ flag @ '' '' @ url)) s)"
proof -
  have "py_split so = []" using blank by (simp add: py_split_Nil_iff)
  moreover have "m_run_command m (path @ '' sources '' @ flag @ '' '' @ url)
      (files (after_imgadm w), host (after_imgadm w)) = (Ret (rc, so, se), s)"
    using run by simp
  ultimately show ?thesis
    unfolding imgadm_main_run [OF ready cmd p(3)]
    using imgadm_sources_app [OF st p] by (simp add: bnd_app)
qed

section \<open>A sample interpreter\<close>

definition sample_img_rt :: pyrt where
  "sample_img_rt = \<lparr>rt_loads = (\<lambda>s. Ret PNone), rt_repr = (\<lambda>v. []), rt_sha1 = Ret\<rparr>"

end
