(* ===== verification/ImgadmPlay.thy ===== *)
theory ImgadmPlay
  imports AnsiblePlay Imgadm
begin

text \<open>
  Runs of the \<open>imgadm\<close> module against one compute node, as plays make them: the relation \<open>image_step\<close> says
  what a task does to the images and image sources of the node and reports; \<open>imgadm_plays_refine\<close> shows
  that the module implements it where the commands of \<open>imgadm\<close> have their documented effects and
  messages (\<open>image_store\<close>). Updates are left out: what \<open>imgadm update\<close> prints is not documented.
\<close>

section \<open>Specification\<close>

text \<open>A node: its images, its image sources, the images that machines or other images use, the images that
  a source has, the URLs that answer as an image server, and the images that an image is based on. All
  but the last may change with the state.\<close>

record 'h node =
  installed :: "'h \<Rightarrow> string set"
  sources :: "'h \<Rightarrow> string list"
  busy :: "'h \<Rightarrow> string \<Rightarrow> bool"
  offers :: "'h \<Rightarrow> string \<Rightarrow> string \<Rightarrow> bool"
  answers :: "'h \<Rightarrow> string \<Rightarrow> bool"
  origins :: "string \<Rightarrow> string set"

definition available :: "'h node \<Rightarrow> 'h \<Rightarrow> string \<Rightarrow> bool" where
  "available N h u = list_ex (\<lambda>src. offers N h src u) (sources N h)"

definition same_images :: "'h node \<Rightarrow> 'h \<Rightarrow> 'h \<Rightarrow> bool" where
  "same_images N h h' = (installed N h' = installed N h)"

definition same_sources :: "'h node \<Rightarrow> 'h \<Rightarrow> 'h \<Rightarrow> bool" where
  "same_sources N h h' = (sources N h' = sources N h)"

definition same_node :: "'h node \<Rightarrow> 'h \<Rightarrow> 'h \<Rightarrow> bool" where
  "same_node N h h' = (same_images N h h' \<and> same_sources N h h')"

datatype image_task = Install string | Uninstall string | AddSource string | DropSource string

fun image_arg :: "image_task \<Rightarrow> string" where
  "image_arg (Install u) = u"
| "image_arg (Uninstall u) = u"
| "image_arg (AddSource u) = u"
| "image_arg (DropSource u) = u"

fun image_goal :: "'h node \<Rightarrow> image_task \<Rightarrow> 'h \<Rightarrow> bool" where
  "image_goal N (Install u) h = (u \<in> installed N h)"
| "image_goal N (Uninstall u) h = (u \<notin> installed N h)"
| "image_goal N (AddSource u) h = (u \<in> set (sources N h))"
| "image_goal N (DropSource u) h = (u \<notin> set (sources N h))"

text \<open>What holds already is not changed, except that a missing image cannot be removed; what cannot be done
  is a failure and changes nothing. An image comes with those it is based on.\<close>

inductive image_step :: "'h node \<Rightarrow> image_task \<Rightarrow> 'h \<Rightarrow> task_report \<Rightarrow> 'h \<Rightarrow> bool" for N where
  satisfied: "image_goal N t h \<Longrightarrow> (\<And>u. t \<noteq> Uninstall u) \<Longrightarrow> same_node N h h' \<Longrightarrow> image_step N t h Unchanged h'"
| imported: "u \<notin> installed N h \<Longrightarrow> available N h u \<Longrightarrow>
    installed N h' = insert u (installed N h \<union> origins N u) \<Longrightarrow> same_sources N h h' \<Longrightarrow>
    image_step N (Install u) h Changed h'"
| unavailable: "u \<notin> installed N h \<Longrightarrow> \<not> available N h u \<Longrightarrow> same_node N h h' \<Longrightarrow>
    image_step N (Install u) h Failed h'"
| deleted: "u \<in> installed N h \<Longrightarrow> \<not> busy N h u \<Longrightarrow> installed N h' = installed N h - {u} \<Longrightarrow>
    same_sources N h h' \<Longrightarrow> image_step N (Uninstall u) h Changed h'"
| kept: "u \<notin> installed N h \<or> busy N h u \<Longrightarrow> same_node N h h' \<Longrightarrow> image_step N (Uninstall u) h Failed h'"
| added: "u \<notin> set (sources N h) \<Longrightarrow> answers N h u \<Longrightarrow> sources N h' = sources N h @ [u] \<Longrightarrow>
    same_images N h h' \<Longrightarrow> image_step N (AddSource u) h Changed h'"
| unreachable: "u \<notin> set (sources N h) \<Longrightarrow> \<not> answers N h u \<Longrightarrow> same_node N h h' \<Longrightarrow>
    image_step N (AddSource u) h Failed h'"
| dropped: "u \<in> set (sources N h) \<Longrightarrow> sources N h' = removeAll u (sources N h) \<Longrightarrow> same_images N h h' \<Longrightarrow>
    image_step N (DropSource u) h Changed h'"

inductive_simps image_step_simps:
  "image_step N (Install u) h r h'" "image_step N (Uninstall u) h r h'"
  "image_step N (AddSource u) h r h'" "image_step N (DropSource u) h r h'"

lemma same_node_goal: "same_node N h h' \<Longrightarrow> image_goal N t h' = image_goal N t h"
  by (cases t) (simp_all add: same_node_def same_images_def same_sources_def)

lemma image_step_goal: "image_step N t h r h' \<Longrightarrow> r \<noteq> Failed \<Longrightarrow> image_goal N t h'"
  by (induction rule: image_step.induct) (simp_all add: same_node_goal)

section \<open>The command\<close>

text \<open>A word that the splitting of a command line leaves alone.\<close>

definition word_chars :: string where
  "word_chars = ''abcdefghijklmnopqrstuvwxyz0123456789-._:/''"

definition plain_word :: "string \<Rightarrow> bool" where
  "plain_word u = (u \<noteq> [] \<and> list_all (\<lambda>c. c \<in> set word_chars) u)"

text \<open>The documented behaviour of \<open>imgadm\<close>, command by command. \<open>import\<close> looks for the image in the configured
  sources, tells its progress and then that it imported the image; an image that is installed is only
  named. \<open>delete\<close> removes an image that is installed and not in use. \<open>sources -a\<close> asks the new source whether
  it is there and adds it, \<open>sources -d\<close> removes a source; both say so when there was nothing to do. What
  does not succeed has an exit code that is not 0 and changes nothing.\<close>

definition image_store :: "'h node \<Rightarrow> (string \<Rightarrow> ('h, int \<times> string \<times> string) outside) \<Rightarrow> string \<Rightarrow> bool" where
  "image_store N run path = (\<forall>u fs h. plain_word u \<longrightarrow>
     (\<exists>rc so se h'. run (path @ '' import -q '' @ u) (fs, h) = (Ret (rc, so, se), (fs, h')) \<and> same_sources N h h'
        \<and> (if u \<in> installed N h then rc = 0 \<and> same_images N h h' \<and> prefix (''Image '' @ u) so
             \<and> \<not> sublist ''Imported image'' so
           else if available N h u then rc = 0 \<and> installed N h' = insert u (installed N h \<union> origins N u)
             \<and> prefix ''Importing '' so \<and> sublist (''Imported image '' @ u) so
           else rc \<noteq> 0 \<and> same_images N h h'))
   \<and> (\<exists>rc so se h'. run (path @ '' delete '' @ u) (fs, h) = (Ret (rc, so, se), (fs, h')) \<and> same_sources N h h'
        \<and> (if u \<in> installed N h \<and> \<not> busy N h u
           then rc = 0 \<and> installed N h' = installed N h - {u} \<and> prefix (''Deleted image '' @ u) so
           else rc \<noteq> 0 \<and> same_images N h h'))
   \<and> (\<exists>rc so se h'. run (path @ '' sources -a '' @ u) (fs, h) = (Ret (rc, so, se), (fs, h')) \<and> same_images N h h'
        \<and> (if u \<in> set (sources N h) then rc = 0 \<and> same_sources N h h' \<and> prefix ''Already have '' so
           else if answers N h u then rc = 0 \<and> sources N h' = sources N h @ [u] \<and> prefix ''Added '' so
           else rc \<noteq> 0 \<and> same_sources N h h'))
   \<and> (\<exists>rc so se h'. run (path @ '' sources -d '' @ u) (fs, h) = (Ret (rc, so, se), (fs, h')) \<and> same_images N h h'
        \<and> (if u \<in> set (sources N h)
           then rc = 0 \<and> sources N h' = removeAll u (sources N h) \<and> prefix ''Deleted '' so
           else rc = 0 \<and> same_sources N h h' \<and> prefix ''Do not have '' so)))"

section \<open>What a play asks for\<close>

fun image_task_cmd :: "string \<Rightarrow> image_task \<Rightarrow> string" where
  "image_task_cmd path (Install u) = path @ '' import -q '' @ u"
| "image_task_cmd path (Uninstall u) = path @ '' delete '' @ u"
| "image_task_cmd path (AddSource u) = path @ '' sources -a '' @ u"
| "image_task_cmd path (DropSource u) = path @ '' sources -d '' @ u"

fun for_source :: "image_task \<Rightarrow> bool" where
  "for_source (AddSource u) = True"
| "for_source (DropSource u) = True"
| "for_source t = False"

text \<open>The parameters of the task. \<open>update\<close> is off for an import.\<close>

definition image_asks ::
  "pyval list \<Rightarrow> pyval list \<Rightarrow> (string \<Rightarrow> ('h, int \<times> string \<times> string) outside) \<Rightarrow> string
   \<Rightarrow> fsys \<Rightarrow> 'h ansible_module \<Rightarrow> image_task \<Rightarrow> bool" where
  "image_asks bs bt run path fs m t =
     (imgadm_ready bs m path \<and> m_run_command m = run \<and> plain_word (image_arg t)
      \<and> dict_get (params m) ''command'' = Some (PStr (if for_source t then ''sources'' else ''image''))
      \<and> dict_get (params m) (if for_source t then ''url'' else ''uuid'') = Some (PStr (image_arg t))
      \<and> dict_get (params m) ''state'' = Some (PStr (case t of
            Uninstall u \<Rightarrow> ''absent'' | DropSource u \<Rightarrow> ''absent'' | _ \<Rightarrow> ''present''))
      \<and> (\<exists>upd. dict_get (params m) ''update'' = Some upd \<and> (case t of Install u \<Rightarrow> upd \<notin> set bt | _ \<Rightarrow> True)))"

lemma image_asks_arg: "image_asks bs bt run path fs m t \<Longrightarrow> image_arg t \<noteq> []"
  by (simp add: image_asks_def plain_word_def)

section \<open>The module on a store\<close>

text \<open>What a run reports, from exit code and output. A run that dies because the output is blank reports
  nothing and counts as failed.\<close>

definition image_report :: "image_task \<Rightarrow> int \<Rightarrow> string \<Rightarrow> task_report" where
  "image_report t rc so =
     (if rc \<noteq> 0 \<or> for_source t \<and> py_split so = [] then Failed
      else if (if for_source t then hd (py_split so) \<in> set [''Added'', ''Deleted'']
               else sublist ''Imported image'' so \<and> \<not> prefix ''Imported image'' so
                  \<or> prefix ''Deleted image'' so \<or> prefix ''Updated'' so)
      then Changed else Unchanged)"

lemma image_asks_image:
  assumes asks: "image_asks bs bt run path fs m t" and t: "\<not> for_source t"
    and run: "run (image_task_cmd path t) (files w, host w) = (Ret (rc, so, se), s)"
  shows "\<exists>w'. snd (imgadm_main rt bt m w) = w' \<and> files w' = fst s \<and> host w' = snd s
     \<and> report_of (last (calls w')) = image_report t rc so"
proof -
  obtain upd st where p: "dict_get (params m) ''update'' = Some upd"
      "dict_get (params m) ''uuid'' = Some (PStr (image_arg t))" "image_arg t \<noteq> []"
      "imgadm_ready bs m path" "dict_get (params m) ''command'' = Some (PStr ''image'')"
    and st: "dict_get (params m) ''state'' = Some (PStr st)" "st \<in> set [''present'', ''absent'']"
      "image_cmd rt bt path st upd (PStr (image_arg t)) = image_task_cmd path t"
    using asks t image_asks_arg [OF asks] unfolding image_asks_def by (cases t) (auto simp: image_cmd_def)
  have "m_run_command m (image_cmd rt bt path st upd (PStr (image_arg t))) (files w, host w)
      = (Ret (rc, so, se), s)"
    using run st(3) asks by (simp add: image_asks_def)
  from imgadm_main_image [OF p(4,5) st(1,2) p(2,1) _ this] p(3) t show ?thesis
    by (auto simp: image_report_def dict_get_def)
qed

lemma image_asks_source:
  assumes asks: "image_asks bs bt run path fs m t" and t: "for_source t"
    and run: "run (image_task_cmd path t) (files w, host w) = (Ret (rc, so, se), s)"
  shows "\<exists>w'. snd (imgadm_main rt bt m w) = w' \<and> files w' = fst s \<and> host w' = snd s
     \<and> report_of (last (calls w')) = image_report t rc so"
proof -
  obtain st flag where p: "imgadm_ready bs m path" "dict_get (params m) ''command'' = Some (PStr ''sources'')"
      "(st, flag) \<in> set [(''present'', ''-a''), (''absent'', ''-d'')]"
      "dict_get (params m) ''url'' = Some (PStr (image_arg t))" "image_arg t \<noteq> []"
      "dict_get (params m) ''state'' = Some (PStr st)"
    and cmd: "path @ '' sources '' @ flag @ '' '' @ image_arg t = image_task_cmd path t"
    using asks t image_asks_arg [OF asks] unfolding image_asks_def by (cases t) auto
  have r: "m_run_command m (path @ '' sources '' @ flag @ '' '' @ image_arg t) (files w, host w)
      = (Ret (rc, so, se), s)"
    using run asks unfolding cmd by (simp add: image_asks_def)
  show ?thesis
  proof (cases "py_split so = []")
    case True
    then have "\<forall>c \<in> set so. is_space c" by (simp add: py_split_Nil_iff)
    from imgadm_sources_blank_output_dies [OF p(1-6) r this, of rt bt] True t show ?thesis
      by (simp add: image_report_def)
  next
    case False
    then have "\<exists>c \<in> set so. \<not> is_space c" by (auto simp: py_split_Nil_iff)
    from imgadm_sources_reports [OF p(1-6) r this, of rt bt] False t show ?thesis
      by (auto simp: image_report_def dict_get_def)
  qed
qed

lemma image_asks_run:
  assumes "image_asks bs bt run path fs m t"
    and "run (image_task_cmd path t) (files w, host w) = (Ret (rc, so, se), s)"
  shows "\<exists>w'. snd (imgadm_main rt bt m w) = w' \<and> files w' = fst s \<and> host w' = snd s
     \<and> report_of (last (calls w')) = image_report t rc so"
  using image_asks_image [OF assms(1) _ assms(2)] image_asks_source [OF assms(1) _ assms(2)] by blast

text \<open>The messages decide the report.\<close>

lemma py_split_first:
  assumes "prefix (v @ '' '') so" and "v \<noteq> []" and "\<forall>c \<in> set v. \<not> is_space c"
  shows "\<exists>ws. py_split so = v # ws"
proof -
  obtain rest where so: "so = v @ CHR 0x20 # rest"
    using assms(1) by (auto simp: prefix_def)
  have "dropWhile is_space so = so"
    using assms(2,3) by (cases v) (simp_all add: so)
  moreover have "is_space (CHR 0x20)" by code_simp
  then have "takeWhile (\<lambda>x. \<not> is_space x) so = v"
    using assms(3) by (simp add: so takeWhile_tail)
  moreover obtain c cs where "so = c # cs"
    using assms(2) by (cases v) (simp_all add: so)
  ultimately show ?thesis
    by (subst py_split.simps) simp
qed

lemma image_report_failed: "rc \<noteq> 0 \<Longrightarrow> image_report t rc so = Failed"
  by (simp add: image_report_def)

lemma image_report_source:
  assumes "prefix (v @ '' '') so" and "v \<in> set [''Added'', ''Deleted'', ''Already'', ''Do'']" and "for_source t"
  shows "image_report t 0 so = (if v \<in> set [''Added'', ''Deleted''] then Changed else Unchanged)"
proof -
  have "v \<noteq> []" "\<forall>c \<in> set v. \<not> is_space c"
    using assms(2) by (auto simp: is_space_def Let_def)
  with py_split_first [OF assms(1)] obtain ws where "py_split so = v # ws" by blast
  with assms(3) show ?thesis
    by (simp add: image_report_def)
qed

lemma sublist_append_left: "sublist (xs @ ys) zs \<Longrightarrow> sublist xs zs"
  by (auto simp: sublist_def)

lemma image_report_images:
  assumes "\<not> for_source t"
  shows "prefix (''Image '' @ u) so \<Longrightarrow> \<not> sublist ''Imported image'' so \<Longrightarrow> image_report t 0 so = Unchanged"
    and "prefix ''Importing '' so \<Longrightarrow> sublist (''Imported image '' @ u) so \<Longrightarrow> image_report t 0 so = Changed"
    and "prefix (''Deleted image '' @ u) so \<Longrightarrow> image_report t 0 so = Changed"
proof -
  assume p: "prefix ''Importing '' so" and "sublist (''Imported image '' @ u) so"
  then have "sublist (''Imported image'' @ '' '' @ u) so" by simp
  then have "sublist ''Imported image'' so" by (rule sublist_append_left)
  moreover have "\<not> prefix ''Imported image'' so" using p by (auto simp: prefix_def)
  ultimately show "image_report t 0 so = Changed" using assms by (simp add: image_report_def)
qed (use assms in \<open>auto simp: image_report_def prefix_def\<close>)

section \<open>The module on a node\<close>

lemma store_steps:
  assumes store: "image_store N run path" and u: "plain_word (image_arg t)"
  shows "\<exists>rc so se h'. run (image_task_cmd path t) (fs, h) = (Ret (rc, so, se), (fs, h'))
     \<and> image_step N t h (image_report t rc so) h'"
proof (cases t)
  case (Install u)
  obtain rc so se h' where r: "run (path @ '' import -q '' @ u) (fs, h) = (Ret (rc, so, se), (fs, h'))"
    "same_sources N h h'"
    and c: "if u \<in> installed N h then rc = 0 \<and> same_images N h h' \<and> prefix (''Image '' @ u) so
             \<and> \<not> sublist ''Imported image'' so
           else if available N h u then rc = 0 \<and> installed N h' = insert u (installed N h \<union> origins N u)
             \<and> prefix ''Importing '' so \<and> sublist (''Imported image '' @ u) so
           else rc \<noteq> 0 \<and> same_images N h h'"
    using store u unfolding image_store_def Install image_arg.simps by blast
  have "image_step N (Install u) h (image_report (Install u) rc so) h'"
    using r(2) c image_report_images(1,2) [where t = "Install u" and u = u and so = so]
    by (cases "u \<in> installed N h"; cases "available N h u")
      (auto simp: image_report_failed same_node_def intro: image_step.intros)
  then show ?thesis using r(1) unfolding Install image_task_cmd.simps by blast
next
  case (Uninstall u)
  obtain rc so se h' where r: "run (path @ '' delete '' @ u) (fs, h) = (Ret (rc, so, se), (fs, h'))"
    "same_sources N h h'"
    and c: "if u \<in> installed N h \<and> \<not> busy N h u
           then rc = 0 \<and> installed N h' = installed N h - {u} \<and> prefix (''Deleted image '' @ u) so
           else rc \<noteq> 0 \<and> same_images N h h'"
    using store u unfolding image_store_def Uninstall image_arg.simps by blast
  have "image_step N (Uninstall u) h (image_report (Uninstall u) rc so) h'"
    using r(2) c image_report_images(3) [where t = "Uninstall u" and u = u and so = so]
    by (auto simp: image_report_failed same_node_def split: if_splits intro: image_step.intros)
  then show ?thesis using r(1) unfolding Uninstall image_task_cmd.simps by blast
next
  case (AddSource u)
  obtain rc so se h' where r: "run (path @ '' sources -a '' @ u) (fs, h) = (Ret (rc, so, se), (fs, h'))"
    "same_images N h h'"
    and c: "if u \<in> set (sources N h) then rc = 0 \<and> same_sources N h h' \<and> prefix ''Already have '' so
           else if answers N h u then rc = 0 \<and> sources N h' = sources N h @ [u] \<and> prefix ''Added '' so
           else rc \<noteq> 0 \<and> same_sources N h h'"
    using store u unfolding image_store_def AddSource image_arg.simps by blast
  have "prefix (''Already'' @ '' '') so" if "prefix ''Already have '' so"
    using that by (auto simp: prefix_def)
  then have "image_step N (AddSource u) h (image_report (AddSource u) rc so) h'"
    using r(2) c image_report_source [of "''Added''" so "AddSource u"] image_report_source [of "''Already''" so "AddSource u"]
    by (auto simp: image_report_failed same_node_def split: if_splits intro: image_step.intros)
  then show ?thesis using r(1) unfolding AddSource image_task_cmd.simps by blast
next
  case (DropSource u)
  obtain rc so se h' where r: "run (path @ '' sources -d '' @ u) (fs, h) = (Ret (rc, so, se), (fs, h'))"
    "same_images N h h'"
    and c: "if u \<in> set (sources N h)
           then rc = 0 \<and> sources N h' = removeAll u (sources N h) \<and> prefix ''Deleted '' so
           else rc = 0 \<and> same_sources N h h' \<and> prefix ''Do not have '' so"
    using store u unfolding image_store_def DropSource image_arg.simps by blast
  have "prefix (''Do'' @ '' '') so" if "prefix ''Do not have '' so"
    using that by (auto simp: prefix_def)
  then have "image_step N (DropSource u) h (image_report (DropSource u) rc so) h'"
    using r(2) c image_report_source [of "''Deleted''" so "DropSource u"] image_report_source [of "''Do''" so "DropSource u"]
    by (auto simp: same_node_def split: if_splits intro: image_step.intros)
  then show ?thesis using r(1) unfolding DropSource image_task_cmd.simps by blast
qed

interpretation imgadm_play: play "imgadm_main rt bt" "image_asks bs bt run path" "image_step N"
    "\<lambda>h. image_store N run path"
  for rt bt bs run path and N :: "'h node"
proof unfold_locales
  fix w m t and w' :: "'h world"
  assume asks: "image_asks bs bt run path (files w) m t" and store: "image_store N run path"
    and w': "snd (imgadm_main rt bt m w) = w'"
  have "plain_word (image_arg t)"
    using asks by (simp add: image_asks_def)
  then obtain rc so se h'
    where run: "run (image_task_cmd path t) (files w, host w) = (Ret (rc, so, se), (files w, h'))"
      and step: "image_step N t (host w) (image_report t rc so) h'"
    using store_steps [OF store] by blast
  show "files w' = files w \<and> image_step N t (host w) (report_of (last (calls w'))) (host w')"
    using image_asks_run [OF asks run, of rt] w' step by auto
qed

text \<open>C8. Runs of the module implement the tasks of a play. Where the commands of \<open>imgadm\<close> have their
  documented effects and messages, the runs that a play makes to install and remove images and to add
  and remove image sources report, and do to the images and sources of the node, what the specification
  says: an image or source that is there is not counted as a change, an image that no configured source
  has and a removal that is not possible are failures and change nothing. No file changes, and if the
  last task does not fail, what it asks for holds.\<close>

theorem imgadm_plays_refine:
  assumes store: "image_store N run path"
    and asks: "list_all2 (image_asks bs bt run path (files w)) ms ts"
    and play: "play_runs (imgadm_main rt bt) ms w = (rs, w')"
  shows "task_steps (image_step N) ts (host w) rs (host w') \<and> files w' = files w
    \<and> (ts = [] \<or> last rs = Failed \<or> image_goal N (last ts) (host w'))"
proof -
  have run: "files w' = files w" "task_steps (image_step N) ts (host w) rs (host w')"
    using imgadm_play.refines [OF asks store play] by blast+
  moreover have "ts = [] \<or> last rs = Failed \<or> image_goal N (last ts) (host w')"
    by (rule task_steps_last [OF _ run(2), of "\<lambda>_. True" "image_goal N", THEN conjunct2])
      (simp_all add: image_step_goal)
  ultimately show ?thesis by blast
qed

section \<open>A sample node\<close>

text \<open>Its state is the images and the sources. The source \<open>s\<close> has the image \<open>i2\<close>, which is based on \<open>i0\<close>.\<close>

type_synonym node_state = "string list \<times> string list"

definition sample_node :: "node_state node" where
  "sample_node = \<lparr>installed = (\<lambda>h. set (fst h)), sources = snd, busy = (\<lambda>h u. u \<in> set [''i0'', ''i1'']),
     offers = (\<lambda>h src u. src = ''s'' \<and> u = ''i2''), answers = (\<lambda>h u. u = ''s''),
     origins = (\<lambda>u. {''i0''})\<rparr>"

definition node_run :: "string \<Rightarrow> (node_state, int \<times> string \<times> string) outside" where
  "node_run cmd = (\<lambda>(fs, im, src).
     if prefix ''imgadm import -q '' cmd then (let u = drop 17 cmd in
       if u \<in> set im then (Ret (0, ''Image '' @ u, []), (fs, im, src))
       else if ''s'' \<in> set src \<and> u = ''i2''
       then (Ret (0, ''Importing Imported image '' @ u, []), (fs, u # ''i0'' # im, src))
       else (Ret (1, [], ''not found''), (fs, im, src)))
     else if prefix ''imgadm delete '' cmd then (let u = drop 14 cmd in
       if u \<in> set im \<and> u \<notin> set [''i0'', ''i1'']
       then (Ret (0, ''Deleted image '' @ u, []), (fs, removeAll u im, src))
       else (Ret (1, [], ''in use''), (fs, im, src)))
     else (let u = drop 18 cmd in
       if prefix ''imgadm sources -a '' cmd then
         (if u \<in> set src then (Ret (0, ''Already have '' @ u, []), (fs, im, src))
          else if u = ''s'' then (Ret (0, ''Added '' @ u, []), (fs, im, src @ [u]))
          else (Ret (1, [], ''no image server''), (fs, im, src)))
       else if u \<in> set src then (Ret (0, ''Deleted '' @ u, []), (fs, im, removeAll u src))
       else (Ret (0, ''Do not have '' @ u, []), (fs, im, src))))"

lemma node_store: "image_store sample_node node_run ''imgadm''"
proof -
  have named: "\<not> sublist ''Imported image'' (''Image '' @ u)" if "plain_word u" for u
  proof -
    have "CHR ''I'' \<notin> set word_chars" by code_simp
    then have u: "CHR ''I'' \<notin> set u"
      using that by (auto simp: plain_word_def list_all_iff)
    have "''Image '' @ u \<noteq> xs @ ''Imported image'' @ ys" for xs ys
    proof (cases xs)
      case (Cons x xs')
      have "CHR ''I'' \<notin> set (tl (''Image '' @ u))" using u by simp
      moreover have "CHR ''I'' \<in> set (tl (xs @ ''Imported image'' @ ys))" by (simp add: Cons)
      ultimately show ?thesis by metis
    qed simp
    then show ?thesis by (simp only: sublist_def) blast
  qed
  have told: "sublist (''Imported image '' @ u) (''Importing Imported image '' @ u)" for u
    using sublist_appendI [of "''Imported image '' @ u" "''Importing ''" "[]"] by simp
  have avail: "available sample_node h u \<longleftrightarrow> ''s'' \<in> set (snd h) \<and> u = ''i2''" for h u
    by (auto simp: available_def sample_node_def list_ex_iff)
  have im: "installed sample_node h = set (fst h)" "sources sample_node h = snd h"
    "busy sample_node h u \<longleftrightarrow> u \<in> set [''i0'', ''i1'']" "answers sample_node h u \<longleftrightarrow> u = ''s''"
    "origins sample_node u = {''i0''}" for h u
    by (simp_all add: sample_node_def)
  show ?thesis
    unfolding image_store_def
  proof (intro allI impI conjI)
    fix u fs and h :: node_state
    assume u: "plain_word u"
    note facts = im avail same_images_def same_sources_def node_run_def split_beta Let_def
    obtain ims src where h: "h = (ims, src)" by (cases h)
    show "\<exists>rc so se h'. node_run (''imgadm'' @ '' import -q '' @ u) (fs, h) = (Ret (rc, so, se), (fs, h'))
        \<and> same_sources sample_node h h'
        \<and> (if u \<in> installed sample_node h then rc = 0 \<and> same_images sample_node h h' \<and> prefix (''Image '' @ u) so
             \<and> \<not> sublist ''Imported image'' so
           else if available sample_node h u
           then rc = 0 \<and> installed sample_node h' = insert u (installed sample_node h \<union> origins sample_node u)
             \<and> prefix ''Importing '' so \<and> sublist (''Imported image '' @ u) so
           else rc \<noteq> 0 \<and> same_images sample_node h h')"
      using named [OF u] told [of u] unfolding h by (simp add: facts) auto
    show "\<exists>rc so se h'. node_run (''imgadm'' @ '' delete '' @ u) (fs, h) = (Ret (rc, so, se), (fs, h'))
        \<and> same_sources sample_node h h'
        \<and> (if u \<in> installed sample_node h \<and> \<not> busy sample_node h u
           then rc = 0 \<and> installed sample_node h' = installed sample_node h - {u} \<and> prefix (''Deleted image '' @ u) so
           else rc \<noteq> 0 \<and> same_images sample_node h h')"
      unfolding h by (simp add: facts)
    show "\<exists>rc so se h'. node_run (''imgadm'' @ '' sources -a '' @ u) (fs, h) = (Ret (rc, so, se), (fs, h'))
        \<and> same_images sample_node h h'
        \<and> (if u \<in> set (sources sample_node h)
           then rc = 0 \<and> same_sources sample_node h h' \<and> prefix ''Already have '' so
           else if answers sample_node h u
           then rc = 0 \<and> sources sample_node h' = sources sample_node h @ [u] \<and> prefix ''Added '' so
           else rc \<noteq> 0 \<and> same_sources sample_node h h')"
      unfolding h by (simp add: facts)
    show "\<exists>rc so se h'. node_run (''imgadm'' @ '' sources -d '' @ u) (fs, h) = (Ret (rc, so, se), (fs, h'))
        \<and> same_images sample_node h h'
        \<and> (if u \<in> set (sources sample_node h)
           then rc = 0 \<and> sources sample_node h' = removeAll u (sources sample_node h) \<and> prefix ''Deleted '' so
           else rc = 0 \<and> same_sources sample_node h h' \<and> prefix ''Do not have '' so)"
      unfolding h by (simp add: facts)
  qed
qed

definition node_module :: "string \<Rightarrow> string \<Rightarrow> string \<Rightarrow> node_state ansible_module" where
  "node_module cmd st u = \<lparr>params =
     [(''command'', PStr cmd), (''url'', PStr u), (''state'', PStr st), (''uuid'', PStr u),
      (''zpool'', PStr ''zones''), (''update'', PBool False)],
     check_mode = False, m_get_bin_path = (\<lambda>n s. (Ret n, s)), m_run_command = node_run,
     m_fail_json = (\<lambda>kw s. (Exc (SystemExit 1), s)), m_exit_json = (\<lambda>kw s. (Exc (SystemExit 0), s))\<rparr>"

definition node_world :: "node_state world" where
  "node_world = \<lparr>files = Map.empty, host = ([''i1''], []), calls = []\<rparr>"

text \<open>A play: only after the source is added can the image be installed, and then its origin is there too.\<close>

definition node_play :: "(node_state ansible_module \<times> image_task) list" where
  "node_play =
     [(node_module ''image'' ''present'' ''i2'', Install ''i2''),
      (node_module ''sources'' ''present'' ''s'', AddSource ''s''),
      (node_module ''image'' ''present'' ''i2'', Install ''i2''),
      (node_module ''image'' ''absent'' ''i1'', Uninstall ''i1''),
      (node_module ''sources'' ''absent'' ''u'', DropSource ''u'')]"

theorem imgadm_plays_refine_witness:
  "case play_runs (imgadm_main sample_img_rt [PBool True]) (map fst node_play) node_world of (rs, w') \<Rightarrow>
     rs = [Failed, Changed, Changed, Failed, Unchanged]
     \<and> installed sample_node (host w') = {''i0'', ''i1'', ''i2''} \<and> sources sample_node (host w') = [''s'']
     \<and> files w' = files node_world"
proof -
  let ?ms = "map fst node_play" and ?ts = "map snd node_play"
  obtain rs w' where run: "play_runs (imgadm_main sample_img_rt [PBool True]) ?ms node_world = (rs, w')"
    by (rule prod.exhaust)
  have asks: "list_all2 (image_asks [PBool True, PBool False] [PBool True] node_run ''imgadm'' (files node_world)) ?ms ?ts"
    by (auto simp: node_play_def image_asks_def imgadm_ready_def ansible_contract_def conforms_def imgadm_spec_def
        node_module_def dict_get_def plain_word_def word_chars_def)
  note result = imgadm_plays_refine [OF node_store asks run]
  then obtain h1 h2 h3 h4 r1 r2 r3 r4 r5 where rs: "rs = [r1, r2, r3, r4, r5]"
    and steps: "image_step sample_node (Install ''i2'') (host node_world) r1 h1"
      "image_step sample_node (AddSource ''s'') h1 r2 h2" "image_step sample_node (Install ''i2'') h2 r3 h3"
      "image_step sample_node (Uninstall ''i1'') h3 r4 h4" "image_step sample_node (DropSource ''u'') h4 r5 (host w')"
    unfolding node_play_def by (simp del: split_paired_Ex) (elim conjE exE, blast)
  note node = image_step_simps same_node_def same_images_def same_sources_def available_def sample_node_def
  have 1: "r1 = Failed \<and> set (fst h1) = {''i1''} \<and> snd h1 = []"
    using steps(1) by (simp add: node node_world_def)
  have 2: "r2 = Changed \<and> set (fst h2) = {''i1''} \<and> snd h2 = [''s'']"
    using steps(2) 1 by (simp add: node)
  have 3: "r3 = Changed \<and> set (fst h3) = {''i0'', ''i1'', ''i2''} \<and> snd h3 = [''s'']"
    using steps(3) 2 by (simp add: node insert_commute)
  have 4: "r4 = Failed \<and> set (fst h4) = {''i0'', ''i1'', ''i2''} \<and> snd h4 = [''s'']"
    using steps(4) 3 by (simp add: node)
  have 5: "r5 = Unchanged \<and> set (fst (host w')) = {''i0'', ''i1'', ''i2''} \<and> snd (host w') = [''s'']"
    using steps(5) 4 by (simp add: node)
  have "rs = [Failed, Changed, Changed, Failed, Unchanged]
      \<and> installed sample_node (host w') = {''i0'', ''i1'', ''i2''} \<and> sources sample_node (host w') = [''s'']"
    using 1 2 3 4 5 by (simp add: rs sample_node_def)
  then show ?thesis
    unfolding run prod.case using result by simp
qed

end
