(* ===== verification/Selinux.thy ===== *)
theory Selinux
  imports Ansible
begin

text \<open>
  The Ansible module \<open>ansible/roles/selinux/library/selinux_permissive.py\<close>: membership of a
  domain in the list of permissive domains of the SELinux policy. The package \<open>seobject\<close> is not
  part of the repository; its functions are the record \<open>seobject\<close>, and what the module relies on
  is the hypothesis \<open>permissive_store\<close>.
\<close>

section \<open>The library\<close>

record 'h seobject =
  se_available :: bool
  se_permissiveRecords :: "pyval \<Rightarrow> ('h, unit) outside"
  se_has_set_reload :: bool
  se_set_reload :: "bool \<Rightarrow> ('h, unit) outside"
  se_get_all :: "('h, pyval list) outside"
  se_add :: "pyval \<Rightarrow> ('h, unit) outside"
  se_delete :: "pyval \<Rightarrow> ('h, unit) outside"

definition permissive_get_all :: "'h seobject \<Rightarrow> ('h world, pyval list) io" where
  "permissive_get_all se = ext (LibCall ''get_all'' []) (se_get_all se)"

definition permissive_add :: "'h seobject \<Rightarrow> pyval \<Rightarrow> ('h world, unit) io" where
  "permissive_add se d = ext (LibCall ''add'' [d]) (se_add se d)"

definition permissive_delete :: "'h seobject \<Rightarrow> pyval \<Rightarrow> ('h world, unit) io" where
  "permissive_delete se d = ext (LibCall ''delete'' [d]) (se_delete se d)"

section \<open>The module\<close>

definition selinux_spec :: "argument list" where
  "selinux_spec =
     [\<lparr>arg_name = ''domain'', arg_type = TStr, arg_required = True, arg_default = PNone,
       arg_choices = []\<rparr>,
      \<lparr>arg_name = ''store'', arg_type = TStr, arg_required = False, arg_default = PStr [],
       arg_choices = []\<rparr>,
      \<lparr>arg_name = ''permissive'', arg_type = TBool, arg_required = True, arg_default = PNone,
       arg_choices = []\<rparr>,
      \<lparr>arg_name = ''no_reload'', arg_type = TBool, arg_required = False, arg_default = PBool False,
       arg_choices = []\<rparr>]"

text \<open>The two branches on \<open>permissive\<close>; the value is \<open>changed\<close>.\<close>

definition selinux_apply :: "'h seobject \<Rightarrow> pyval \<Rightarrow> pyval \<Rightarrow> ('h world, bool) io" where
  "selinux_apply se permissive domain =
     bnd (permissive_get_all se) (\<lambda>all.
       if truthy permissive
       then (if domain \<notin> set all then sq (permissive_add se domain) (ret True) else ret False)
       else (if domain \<in> set all then sq (permissive_delete se domain) (ret True) else ret False))"

definition selinux_main :: "'h seobject \<Rightarrow> 'h ansible_module \<Rightarrow> ('h world, unit) io" where
  "selinux_main se m =
     bnd (param m ''store'') (\<lambda>store.
     bnd (param m ''permissive'') (\<lambda>permissive.
     bnd (param m ''domain'') (\<lambda>domain.
     bnd (param m ''no_reload'') (\<lambda>no_reload.
     sq (try_except (ext (LibCall ''permissiveRecords'' [store]) (se_permissiveRecords se store))
           is_ValueError
           (\<lambda>e. sq (fail_json m [(''domain'', domain), (''msg'', PStr (exn_str e))])
                  (raise AssertionError)))
     (sq (if_then (se_has_set_reload se)
            (ext (LibCall ''set_reload'' [PBool (\<not> truthy no_reload)])
               (se_set_reload se (\<not> truthy no_reload))))
     (bnd (selinux_apply se permissive domain) (\<lambda>changed.
        exit_json m [(''changed'', PBool changed), (''store'', store), (''permissive'', permissive),
                     (''domain'', domain)])))))))"

text \<open>The script: without the library it prints a failure and leaves before \<open>main\<close>.\<close>

definition selinux_script :: "'h seobject \<Rightarrow> 'h ansible_module \<Rightarrow> ('h world, unit) io" where
  "selinux_script se m =
     (if se_available se then selinux_main se m
      else sq (ext (LibCall ''print'' [PStr (''failed=True msg=''
                 @ quoted ''policycoreutils-python required for this module'')]) (\<lambda>s. (Ret (), s)))
              (raise (SystemExit 1)))"

section \<open>The contract of the module\<close>

lemma disciplined_selinux_apply [disc_intros]: "disciplined (selinux_apply se p d)"
  unfolding selinux_apply_def permissive_get_all_def permissive_add_def permissive_delete_def
  by (intro disc_intros disciplined_ext) simp_all

interpretation selinux_prog: ansible_program "selinux_script se" for se :: "'h seobject"
proof unfold_locales
  fix m :: "'h ansible_module"
  assume c: "ansible_contract m"
  have "disciplined (selinux_main se m)"
    unfolding selinux_main_def using c by (intro disc_intros disciplined_ext) auto
  then show "disciplined (selinux_script se m)"
    unfolding selinux_script_def by (intro disc_intros disciplined_ext) auto
  have "never_returns (selinux_main se m)"
    unfolding selinux_main_def using c by (intro ends_intros)
  then show "never_returns (selinux_script se m)"
    unfolding selinux_script_def by (intro ends_intros)
qed

section \<open>Convergence\<close>

text \<open>The store of permissive domains: \<open>D s\<close> are the permissive domains in the outside state
  \<open>s\<close>. Opening the store and \<open>set_reload\<close> leave them alone, \<open>get_all\<close> lists them,
  \<open>add\<close> and \<open>delete\<close> change the one they are given.\<close>

definition permissive_store :: "'h seobject \<Rightarrow> (fsys \<times> 'h \<Rightarrow> pyval set) \<Rightarrow> bool" where
  "permissive_store se D =
     (\<forall>s. (\<forall>st. \<exists>s'. se_permissiveRecords se st s = (Ret (), s') \<and> D s' = D s)
        \<and> (\<forall>b. \<exists>s'. se_set_reload se b s = (Ret (), s') \<and> D s' = D s)
        \<and> (\<exists>l. se_get_all se s = (Ret l, s) \<and> set l = D s)
        \<and> (\<forall>d. \<exists>s'. se_add se d s = (Ret (), s') \<and> D s' = insert d (D s))
        \<and> (\<forall>d. \<exists>s'. se_delete se d s = (Ret (), s') \<and> D s' = D s - {d}))"

lemma permissive_storeD:
  assumes "permissive_store se D"
  shows "\<exists>s'. se_permissiveRecords se st s = (Ret (), s') \<and> D s' = D s"
    and "\<exists>s'. se_set_reload se b s = (Ret (), s') \<and> D s' = D s"
    and "\<exists>l. se_get_all se s = (Ret l, s) \<and> set l = D s"
    and "\<exists>s'. se_add se d s = (Ret (), s') \<and> D s' = insert d (D s)"
    and "\<exists>s'. se_delete se d s = (Ret (), s') \<and> D s' = D s - {d}"
  using assms [unfolded permissive_store_def, THEN spec, of s] by simp_all

abbreviation outside_of :: "'h world \<Rightarrow> fsys \<times> 'h" where
  "outside_of w \<equiv> (files w, host w)"

text \<open>The calls that change the store.\<close>

fun edits :: "call \<Rightarrow> bool" where
  "edits (LibCall f args) = (f = ''add'' \<or> f = ''delete'')"
| "edits c = False"

lemma selinux_apply_app:
  assumes "permissive_store se D"
  shows "\<exists>w'. selinux_apply se (PBool p) d w = (Ret (p \<noteq> (d \<in> D (outside_of w))), w')
     \<and> D (outside_of w') = (if p then insert d (D (outside_of w)) else D (outside_of w) - {d})
     \<and> calls w' = calls w @ [LibCall ''get_all'' []]
         @ (if p \<noteq> (d \<in> D (outside_of w)) then [LibCall (if p then ''add'' else ''delete'') [d]] else [])"
proof -
  from assms obtain l where l: "se_get_all se (outside_of w) = (Ret l, outside_of w)"
    "set l = D (outside_of w)"
    by (blast dest: permissive_storeD(3))
  from assms obtain sa where a: "se_add se d (outside_of w) = (Ret (), sa)"
    "D sa = insert d (D (outside_of w))"
    by (blast dest: permissive_storeD(4))
  from assms obtain sd where d: "se_delete se d (outside_of w) = (Ret (), sd)"
    "D sd = D (outside_of w) - {d}"
    by (blast dest: permissive_storeD(5))
  show ?thesis
    by (cases p; cases "d \<in> D (outside_of w)")
      (auto simp: selinux_apply_def permissive_get_all_def permissive_add_def permissive_delete_def
        io_simps l a d insert_absorb)
qed

text \<open>C26. The module converges: on a working store it succeeds, and afterwards the domain is
  permissive exactly when asked for, while every other domain is as before. It reports a change, and
  edits the store, exactly when the domain was not yet in the wanted state, so that a second run edits
  nothing and reports no change.\<close>

theorem selinux_converges:
  assumes c: "ansible_contract m" "conforms selinux_spec [] (params m)"
    and se: "se_available se" "permissive_store se D"
    and p: "dict_get (params m) ''domain'' = Some d" "dict_get (params m) ''permissive'' = Some (PBool p)"
  shows "\<exists>w' cs st. selinux_script se m w = (Exc (SystemExit 0), w')
     \<and> D (outside_of w') = (if p then insert d (D (outside_of w)) else D (outside_of w) - {d})
     \<and> calls w' = calls w @ cs @ [ExitJson [(''changed'', PBool (p \<noteq> (d \<in> D (outside_of w)))),
          (''store'', st), (''permissive'', PBool p), (''domain'', d)]]
     \<and> filter edits cs = (if p \<noteq> (d \<in> D (outside_of w))
          then [LibCall (if p then ''add'' else ''delete'') [d]] else [])"
proof -
  from c(2) obtain st nr where par: "dict_get (params m) ''store'' = Some st"
    "dict_get (params m) ''no_reload'' = Some nr"
    by (auto simp: conforms_def selinux_spec_def split: option.splits)
  from se(2) obtain s1 where s1: "se_permissiveRecords se st (outside_of w) = (Ret (), s1)"
    "D s1 = D (outside_of w)"
    by (blast dest: permissive_storeD(1))
  from se(2) obtain s2 where s2: "se_set_reload se (\<not> truthy nr) s1 = (Ret (), s2)" "D s2 = D s1"
    by (blast dest: permissive_storeD(2))
  define w1 where "w1 = (let w0 = after_call w (LibCall ''permissiveRecords'' [st]) s1 in
     if se_has_set_reload se then after_call w0 (LibCall ''set_reload'' [PBool (\<not> truthy nr)]) s2 else w0)"
  have D1: "D (outside_of w1) = D (outside_of w)"
    by (simp add: w1_def Let_def s1 s2)
  obtain w2 where w2: "selinux_apply se (PBool p) d w1 = (Ret (p \<noteq> (d \<in> D (outside_of w))), w2)"
     "D (outside_of w2) = (if p then insert d (D (outside_of w)) else D (outside_of w) - {d})"
     "calls w2 = calls w1 @ [LibCall ''get_all'' []]
         @ (if p \<noteq> (d \<in> D (outside_of w)) then [LibCall (if p then ''add'' else ''delete'') [d]] else [])"
    using selinux_apply_app [OF se(2), of p d w1] unfolding D1 by blast
  have "selinux_script se m w = bnd (selinux_apply se (PBool p) d) (\<lambda>changed.
      exit_json m [(''changed'', PBool changed), (''store'', st), (''permissive'', PBool p),
                   (''domain'', d)]) w1"
    using p par se(1) s1(1) s2(1)
    by (simp add: selinux_script_def selinux_main_def param_def w1_def Let_def io_simps)
  then show ?thesis
    using w2 c(1) by (auto simp: bnd_app exit_json_app w1_def Let_def)
qed

text \<open>Errors: a store that cannot be opened is reported as a failure that names the domain, but
  an error of the library while it edits the store is not caught, and the module dies without a
  report.\<close>

lemma selinux_errors:
  assumes c: "ansible_contract m" and se: "se_available se"
    and p: "dict_get (params m) ''domain'' = Some d" "dict_get (params m) ''permissive'' = Some (PBool True)"
      "dict_get (params m) ''store'' = Some st" "dict_get (params m) ''no_reload'' = Some nr"
    and open_store: "se_permissiveRecords se st (outside_of w) = (r, s1)"
    and later: "\<not> se_has_set_reload se" "se_get_all se s1 = (Ret l, s1)" "d \<notin> set l"
      "se_add se d s1 = (Exc (ValueError add_msg), s2)"
    and r: "r = Ret () \<or> r = Exc (ValueError msg)"
  shows "\<exists>w' cs. selinux_script se m w =
       (Exc (if r = Ret () then ValueError add_msg else SystemExit 1), w') \<and> calls w' = calls w @ cs
     \<and> filter is_report cs = (if r = Ret () then [] else [FailJson [(''domain'', d), (''msg'', PStr msg)]])"
  using r
proof
  assume "r = Ret ()"
  with p se open_store later show ?thesis
    by (simp add: selinux_script_def selinux_main_def param_def io_simps selinux_apply_def
        permissive_get_all_def permissive_add_def)
next
  assume "r = Exc (ValueError msg)"
  with p se open_store c show ?thesis
    by (simp add: selinux_script_def selinux_main_def param_def io_simps fail_json_def)
qed

section \<open>Witnesses\<close>

definition sample_seobject :: "bool \<Rightarrow> pyval list seobject" where
  "sample_seobject ok = \<lparr>se_available = True, se_permissiveRecords = (\<lambda>st s. (Ret (), s)),
     se_has_set_reload = False, se_set_reload = (\<lambda>b s. (Ret (), s)),
     se_get_all = (\<lambda>s. (Ret (snd s), s)),
     se_add = (\<lambda>d s. if ok then (Ret (), (fst s, d # snd s)) else (Exc (ValueError ''denied''), s)),
     se_delete = (\<lambda>d s. (Ret (), (fst s, filter (\<lambda>x. x \<noteq> d) (snd s))))\<rparr>"

definition sample_se_module :: "pyval list ansible_module" where
  "sample_se_module = \<lparr>params = [(''domain'', PStr ''httpd_t''), (''store'', PStr []),
       (''permissive'', PBool True), (''no_reload'', PBool False)],
     check_mode = False, m_get_bin_path = (\<lambda>n s. (Ret n, s)),
     m_run_command = (\<lambda>cmd s. (Ret (0, [], []), s)),
     m_fail_json = (\<lambda>kw s. (Exc (SystemExit 1), s)), m_exit_json = (\<lambda>kw s. (Exc (SystemExit 0), s))\<rparr>"

definition sample_se_world :: "pyval list world" where
  "sample_se_world = \<lparr>files = Map.empty, host = [PStr ''ntpd_t''], calls = []\<rparr>"

lemmas sample_se_defs = sample_seobject_def sample_se_module_def sample_se_world_def

lemma sample_se_store: "permissive_store (sample_seobject True) (\<lambda>s. set (snd s))"
  by (auto simp: permissive_store_def sample_seobject_def)

theorem selinux_converges_witness:
  "\<exists>w' cs st. selinux_script (sample_seobject True) sample_se_module sample_se_world = (Exc (SystemExit 0), w')
     \<and> set (host w') = {PStr ''httpd_t'', PStr ''ntpd_t''}
     \<and> calls w' = cs @ [ExitJson [(''changed'', PBool True), (''store'', st),
          (''permissive'', PBool True), (''domain'', PStr ''httpd_t'')]]
     \<and> filter edits cs = [LibCall ''add'' [PStr ''httpd_t'']]"
proof -
  have "conforms selinux_spec [] (params sample_se_module)"
    by (auto simp: conforms_def selinux_spec_def sample_se_defs dict_get_def)
  from selinux_converges [OF _ this _ sample_se_store, of "PStr ''httpd_t''" True sample_se_world]
  show ?thesis
    by (simp add: sample_se_defs ansible_contract_def dict_get_def)
qed

end
