(* ===== verification/Url.thy ===== *)
theory Url
  imports PyValues
begin

text \<open>
  The part of Python's \<open>urllib.parse\<close> that \<open>cfgdb_zk_rest_server.py\<close> uses:
  \<open>urlparse\<close> (the components \<open>path\<close> and \<open>query\<close>) and \<open>parse_qs\<close>. The
  Unicode normalisation check of a network location is not modelled: the request targets the
  deployed handler accepts have none (\<open>urlparse_esdc\<close>).
\<close>

section \<open>Splitting a URL\<close>

definition is_alpha :: "char \<Rightarrow> bool" where
  "is_alpha c = (let n = of_char c :: nat in (65 \<le> n \<and> n \<le> 90) \<or> (97 \<le> n \<and> n \<le> 122))"

definition is_digit :: "char \<Rightarrow> bool" where
  "is_digit c = (let n = of_char c :: nat in 48 \<le> n \<and> n \<le> 57)"

definition ascii_lower :: "string \<Rightarrow> string" where
  "ascii_lower s = map (\<lambda>c. let n = of_char c :: nat in
     if 65 \<le> n \<and> n \<le> 90 then char_of (n + 32) else c) s"

definition is_scheme_char :: "char \<Rightarrow> bool" where
  "is_scheme_char c = (is_alpha c \<or> is_digit c \<or> c \<in> set ''+-.'')"

definition url_scheme :: "string \<Rightarrow> string \<times> string" where
  "url_scheme url =
     (case split1 (CHR '':'') url of
        Some (pre, rest) \<Rightarrow>
          if pre \<noteq> [] \<and> list_all is_scheme_char pre then (ascii_lower pre, rest) else ([], url)
      | None \<Rightarrow> ([], url))"

definition url_netloc :: "string \<Rightarrow> (string \<times> string) res" where
  "url_netloc url =
     (if prefix ''//'' url
      then (let netloc = takeWhile (\<lambda>c. c \<notin> set ''/?#'') (drop 2 url);
                rest = dropWhile (\<lambda>c. c \<notin> set ''/?#'') (drop 2 url) in
            if (CHR ''['' \<in> set netloc) \<noteq> (CHR '']'' \<in> set netloc)
            then Exc (ValueError ''Invalid IPv6 URL'') else Ret (netloc, rest))
      else Ret ([], url))"

text \<open>The part before the first \<open>c\<close>, and the part after it (empty if there is none).\<close>

definition before_char :: "char \<Rightarrow> string \<Rightarrow> string" where
  "before_char c s = (case split1 c s of None \<Rightarrow> s | Some (a, b) \<Rightarrow> a)"

definition after_char :: "char \<Rightarrow> string \<Rightarrow> string" where
  "after_char c s = (case split1 c s of None \<Rightarrow> [] | Some (a, b) \<Rightarrow> b)"

text \<open>\<open>_splitparams\<close>: the parameters of the last path segment are cut off.\<close>

definition url_cut_params :: "string \<Rightarrow> string" where
  "url_cut_params url =
     (case rsplit1 (CHR ''/'') url of
        Some (a, b) \<Rightarrow> a @ CHR ''/'' # before_char (CHR '';'') b
      | None \<Rightarrow> before_char (CHR '';'') url)"

definition uses_params :: "string list" where
  "uses_params = [[], ''ftp'', ''hdl'', ''prospero'', ''http'', ''https'', ''shttp'', ''rtsp'',
     ''rtspu'', ''sip'', ''sips'', ''mms'', ''sftp'', ''tel'']"

text \<open>\<open>urlparse(url)\<close>: the pair of \<open>.path\<close> and \<open>.query\<close>.\<close>

definition urlparse :: "string \<Rightarrow> (string \<times> string) res" where
  "urlparse url =
     (case url_scheme url of (scheme, rest) \<Rightarrow>
        res_bind (url_netloc rest) (\<lambda>(netloc, rest).
          let no_fragment = before_char (CHR ''#'') rest;
              path = before_char (CHR ''?'') no_fragment;
              query = after_char (CHR ''?'') no_fragment
          in Ret (if scheme \<in> set uses_params then url_cut_params path else path, query)))"

section \<open>Query strings\<close>

definition hex_digit :: "char \<Rightarrow> nat option" where
  "hex_digit c = (let n = of_char c :: nat in
     if 48 \<le> n \<and> n \<le> 57 then Some (n - 48)
     else if 65 \<le> n \<and> n \<le> 70 then Some (n - 55)
     else if 97 \<le> n \<and> n \<le> 102 then Some (n - 87) else None)"

fun unquote_to_bytes :: "string \<Rightarrow> string" where
  "unquote_to_bytes [] = []"
| "unquote_to_bytes [c] = [c]"
| "unquote_to_bytes [c, d] = [c, d]"
| "unquote_to_bytes (c # a # b # cs) =
     (if c = CHR ''%''
      then (case (hex_digit a, hex_digit b) of
              (Some x, Some y) \<Rightarrow> char_of (16 * x + y) # unquote_to_bytes cs
            | _ \<Rightarrow> c # unquote_to_bytes (a # b # cs))
      else c # unquote_to_bytes (a # b # cs))"

definition unquote :: "string \<Rightarrow> string" where
  "unquote s = (if CHR ''%'' \<in> set s then py_decode_replace (unquote_to_bytes s) else s)"

definition unquote_plus :: "string \<Rightarrow> string" where
  "unquote_plus s = unquote (py_replace ''+'' '' '' s)"

text \<open>\<open>parse_qsl(query)\<close>: the non-blank fields in order. \<open>parse_qs(query).get(k)\<close> is
  the list of the values of \<open>k\<close>, and \<^const>\<open>None\<close> when there is none.\<close>

definition parse_qsl :: "string \<Rightarrow> (string \<times> string) list" where
  "parse_qsl query =
     List.map_filter (\<lambda>nv. case split1 (CHR ''='') nv of
         None \<Rightarrow> None
       | Some (name, value) \<Rightarrow>
           if value = [] then None else Some (unquote_plus name, unquote_plus value))
       (split_on (CHR ''&'') query)"

definition parse_qs_get :: "string \<Rightarrow> string \<Rightarrow> string list option" where
  "parse_qs_get query k =
     (case map snd (filter (\<lambda>(k', v). k' = k) (parse_qsl query)) of
        [] \<Rightarrow> None | v # vs \<Rightarrow> Some (v # vs))"

section \<open>Lemmas\<close>

lemma before_char_takeWhile: "before_char c s = takeWhile (\<lambda>x. x \<noteq> c) s"
proof (cases "split1 c s")
  case None
  with split1_None_iff [of c s] have all: "takeWhile (\<lambda>x. x \<noteq> c) s = s"
    by (auto simp: takeWhile_eq_all_conv)
  show ?thesis unfolding all using None by (simp add: before_char_def)
next
  case (Some ab)
  then obtain a b where "ab = (a, b)" "s = a @ c # b" "c \<notin> set a"
    using split1_SomeD by (cases ab) blast
  with Some show ?thesis by (auto simp: before_char_def takeWhile_append)
qed

lemma prefix_before_char: "prefix p s \<Longrightarrow> c \<notin> set p \<Longrightarrow> prefix p (before_char c s)"
  by (auto simp: before_char_takeWhile prefix_def takeWhile_append)

lemma prefix_url_cut_params:
  assumes "prefix (CHR ''/'' # p) s" and "CHR ''/'' \<notin> set p" and "CHR '';'' \<notin> set p"
  shows "prefix (CHR ''/'' # p) (url_cut_params s)"
proof -
  obtain a b where r: "rsplit1 (CHR ''/'') s = Some (a, b)"
    using assms(1) rsplit1_None_iff [of "CHR ''/''" s] by (cases "rsplit1 (CHR ''/'') s") (auto simp: prefix_def)
  then have s: "s = a @ CHR ''/'' # b" using rsplit1_SomeD by blast
  show ?thesis
  proof (cases a)
    case Nil
    with assms s have "prefix p b" by auto
    with r Nil assms(3) show ?thesis by (simp add: url_cut_params_def prefix_before_char)
  next
    case (Cons x a')
    with assms s have x: "x = CHR ''/''" and pb: "prefix p (a' @ CHR ''/'' # b)" by auto
    then have "prefix p a'"
      using assms(2) by (auto simp: prefix_append prefix_Cons)
    with r Cons x show ?thesis by (auto simp: url_cut_params_def prefix_def)
  qed
qed

lemma url_esdc_no_authority:
  assumes "prefix ''/esdc'' s"
  shows "url_scheme s = ([], s)" and "url_netloc s = Ret ([], s)"
proof -
  obtain t where t: "s = ''/esdc'' @ t" using assms by (auto simp: prefix_def)
  have slash: "\<not> is_scheme_char (CHR ''/'')"
    by (simp add: is_scheme_char_def is_alpha_def is_digit_def)
  have "pre = [] \<or> \<not> list_all is_scheme_char pre" if "split1 (CHR '':'') s = Some (pre, rest)"
    for pre rest
    using split1_SomeD [OF that] t slash by (cases pre) auto
  then show "url_scheme s = ([], s)"
    by (auto simp: url_scheme_def split: option.splits)
  show "url_netloc s = Ret ([], s)"
    by (simp add: url_netloc_def t)
qed

lemma urlparse_esdc:
  assumes "prefix ''/esdc'' s"
  shows "\<exists>node query. urlparse s = Ret (node, query) \<and> prefix ''/esdc'' node"
proof -
  let ?p = "before_char (CHR ''?'') (before_char (CHR ''#'') s)"
  have "prefix ''/esdc'' ?p"
    using assms by (intro prefix_before_char) simp_all
  then have "prefix ''/esdc'' (url_cut_params ?p)"
    by (intro prefix_url_cut_params) simp_all
  then show ?thesis
    by (simp add: urlparse_def url_esdc_no_authority [OF assms] Let_def uses_params_def)
qed

lemma urlparse_no_query:
  assumes "prefix ''/esdc'' s" and "CHR ''?'' \<notin> set s" and "urlparse s = Ret (node, query)"
  shows "query = []"
proof -
  have "CHR ''?'' \<notin> set (before_char (CHR ''#'') s)"
    using assms(2) by (auto simp: before_char_takeWhile dest: set_takeWhileD)
  then have "split1 (CHR ''?'') (before_char (CHR ''#'') s) = None"
    using split1_None_iff by metis
  with assms(3) show ?thesis
    by (simp add: urlparse_def url_esdc_no_authority [OF assms(1)] Let_def after_char_def)
qed

lemma urlparse_plain:
  assumes "prefix ''/esdc'' s" and "list_all (\<lambda>c. c \<notin> set ''?#;'') s"
  shows "urlparse s = Ret (s, [])"
proof -
  have cut: "split1 c s' = None" if "c \<in> set ''?#;''" "set s' \<subseteq> set s" for c s'
    using assms(2) that split1_None_iff [of c s'] by (auto simp: list_all_iff)
  then have "before_char c s = s" "after_char c s = []" if "c \<in> set ''?#;''" for c
    using that by (simp_all add: before_char_def after_char_def)
  moreover have "url_cut_params s = s"
  proof (cases "rsplit1 (CHR ''/'') s")
    case None
    then show ?thesis using cut [of "CHR '';''" s] by (simp add: url_cut_params_def before_char_def)
  next
    case (Some ab)
    then obtain a b where ab: "rsplit1 (CHR ''/'') s = Some (a, b)" by (cases ab) auto
    then have "s = a @ CHR ''/'' # b" using rsplit1_SomeD by metis
    moreover from this have "split1 (CHR '';'') b = None" by (intro cut) auto
    ultimately show ?thesis using ab by (simp add: url_cut_params_def before_char_def)
  qed
  ultimately show ?thesis
    by (simp add: urlparse_def url_esdc_no_authority [OF assms(1)] Let_def uses_params_def)
qed

end
