(* ===== verification/RestHandler.thy ===== *)
theory RestHandler
  imports PyIO Url
begin

text \<open>
  The generic request handler of \<open>cfgdb_zk_rest_server.py\<close>: the classes
  \<open>ValidationError\<close> (a constructor of \<^typ>\<open>exn\<close>) and \<open>RESTRequestHandler\<close>.

  The state of a handler extends the world of the process by the attributes of the object: the
  request target, headers and unread body (\<open>http.server\<close> has parsed them), the attributes
  \<open>method\<close> and \<open>_content\<close>, and what has been sent to the client so far. Writing to the
  client is assumed to succeed. \<open>json.loads\<close> and \<open>json.dumps\<close> are the parameters
  \<open>h_loads\<close> and \<open>h_dumps\<close>.

  The virtual method \<open>handle_request\<close> is the argument \<open>hr\<close> of the operations that call
  it. The locale \<open>rest_handler\<close> states what an implementation of it promises; the concrete
  handler classes interpret it.
\<close>

section \<open>State\<close>

datatype http_out =
    SendResponse int
  | SendHeader string string
  | EndHeaders
  | WriteBody string
  | SendError int string

record 'h handler = "'h world" +
  rq_method :: "string option"
  rq_content :: "string option"
  rq_path :: string
  rq_headers :: "(string \<times> string) list"
  rq_rfile :: string
  rq_out :: "http_out list"

record jsonrt =
  h_loads :: "string \<Rightarrow> pyval res"
  h_dumps :: "pyval \<Rightarrow> string"

type_synonym ('h, 'a) hio = "('h handler, 'a) io"

section \<open>Operations\<close>

definition send :: "http_out \<Rightarrow> ('h, unit) hio" where
  "send x = (\<lambda>w. (Ret (), w\<lparr>rq_out := rq_out w @ [x]\<rparr>))"

text \<open>\<open>self.headers.get(name)\<close>: field names are compared without regard to case.\<close>

definition header_get :: "(string \<times> string) list \<Rightarrow> string \<Rightarrow> string option" where
  "header_get hs name = map_option snd (find (\<lambda>(k, v). ascii_lower k = ascii_lower name) hs)"

text \<open>\<open>int(s)\<close> for decimal text: optional white space and sign, digits that may be grouped by
  single underscores.\<close>

fun py_digits :: "nat \<Rightarrow> bool \<Rightarrow> string \<Rightarrow> nat option" where
  "py_digits acc digit_before [] = (if digit_before then Some acc else None)"
| "py_digits acc digit_before (c # cs) =
     (if is_digit c then py_digits (10 * acc + (of_char c - 48)) True cs
      else if c = CHR ''_'' \<and> digit_before then py_digits acc False cs
      else None)"

definition py_int :: "string \<Rightarrow> int res" where
  "py_int s =
     (let t = py_strip s;
          r = (case t of
                 c # cs \<Rightarrow>
                   if c = CHR ''-'' then map_option (\<lambda>n. - int n) (py_digits 0 False cs)
                   else if c = CHR ''+'' then map_option int (py_digits 0 False cs)
                   else map_option int (py_digits 0 False t)
               | [] \<Rightarrow> None)
      in case r of Some i \<Rightarrow> Ret i
         | None \<Rightarrow> Exc (ValueError ''invalid literal for int() with base 10''))"

text \<open>The property \<open>content\<close>: the body is read once and kept in \<open>_content\<close>. A negative
  length reads to the end of the stream.\<close>

definition read_body :: "int \<Rightarrow> ('h, string) hio" where
  "read_body content_length = (\<lambda>w.
     let c = (if content_length = 0 then []
              else if content_length < 0 then rq_rfile w
              else take (nat content_length) (rq_rfile w))
     in (Ret c, w\<lparr>rq_content := Some c, rq_rfile := drop (length c) (rq_rfile w)\<rparr>))"

definition content :: "('h, string) hio" where
  "content = (\<lambda>w. case rq_content w of
       Some c \<Rightarrow> (Ret c, w)
     | None \<Rightarrow> bnd (case header_get (rq_headers w) ''Content-Length'' of
                        None \<Rightarrow> ret 0 | Some s \<Rightarrow> lift_res (py_int s)) read_body w)"

definition send_json_response :: "jsonrt \<Rightarrow> pyval \<Rightarrow> int \<Rightarrow> ('h, unit) hio" where
  "send_json_response js data status =
     sq (send (SendResponse status))
     (sq (send (SendHeader ''Content-Type'' ''application/json''))
     (sq (send EndHeaders)
         (send (WriteBody (h_dumps js data)))))"

definition parse_json_content :: "jsonrt \<Rightarrow> ('h, pyval) hio" where
  "parse_json_content js =
     bnd content (\<lambda>c. if c \<noteq> [] then lift_res (h_loads js c) else ret (PDict []))"

text \<open>The base class leaves \<open>handle_request\<close> open.\<close>

definition rest_handle_request :: "('h, unit) hio" where
  "rest_handle_request = raise NotImplementedError"

text \<open>\<open>ValidationError(attr, detail[, status])\<close> and its property \<open>as_json\<close>.\<close>

definition validation_error :: "string \<Rightarrow> string \<Rightarrow> int option \<Rightarrow> exn" where
  [simp]: "validation_error attr detail status =
     ValidationError attr detail (case status of None \<Rightarrow> 400 | Some s \<Rightarrow> s)"

fun as_json :: "exn \<Rightarrow> pyval" where
  "as_json (ValidationError attr detail status) = PDict [(attr, PStr detail)]"
| "as_json _ = PNone"

definition handle_wrapped :: "jsonrt \<Rightarrow> ('h, unit) hio \<Rightarrow> ('h, unit) hio" where
  "handle_wrapped js hr =
     try_except hr is_Exception (\<lambda>exc. case exc of
         ValidationError attr detail status \<Rightarrow>
           send_json_response js (as_json exc) status
       | _ \<Rightarrow> send (SendError 500 ''Internal Server Error''))"

definition set_method :: "string \<Rightarrow> ('h, unit) hio" where
  "set_method s = (\<lambda>w. (Ret (), w\<lparr>rq_method := Some s\<rparr>))"

definition do_GET :: "jsonrt \<Rightarrow> ('h, unit) hio \<Rightarrow> ('h, unit) hio" where
  "do_GET js hr = sq (set_method ''GET'') (handle_wrapped js hr)"

definition do_POST :: "jsonrt \<Rightarrow> ('h, unit) hio \<Rightarrow> ('h, unit) hio" where
  "do_POST js hr = sq (set_method ''POST'') (handle_wrapped js hr)"

definition do_PUT :: "jsonrt \<Rightarrow> ('h, unit) hio \<Rightarrow> ('h, unit) hio" where
  "do_PUT js hr = sq (set_method ''PUT'') (handle_wrapped js hr)"

definition do_DELETE :: "jsonrt \<Rightarrow> ('h, unit) hio \<Rightarrow> ('h, unit) hio" where
  "do_DELETE js hr = sq (set_method ''DELETE'') (handle_wrapped js hr)"

section \<open>Sending\<close>

text \<open>A complete answer: a JSON response or an error page.\<close>

fun is_answer :: "http_out list \<Rightarrow> bool" where
  "is_answer [SendResponse st, SendHeader k v, EndHeaders, WriteBody b] =
     (k = ''Content-Type'' \<and> v = ''application/json'')"
| "is_answer [SendError st msg] = True"
| "is_answer _ = False"

definition json_answer :: "jsonrt \<Rightarrow> int \<Rightarrow> pyval \<Rightarrow> http_out list" where
  "json_answer js status data =
     [SendResponse status, SendHeader ''Content-Type'' ''application/json'', EndHeaders,
      WriteBody (h_dumps js data)]"

lemma is_answer_json [simp]: "is_answer (json_answer js st d)"
  by (simp add: json_answer_def)

lemma send_app [io_simps]: "send x w = (Ret (), w\<lparr>rq_out := rq_out w @ [x]\<rparr>)"
  by (simp add: send_def)

lemma send_json_response_app [io_simps]:
  "send_json_response js d st w = (Ret (), w\<lparr>rq_out := rq_out w @ json_answer js st d\<rparr>)"
  by (simp add: send_json_response_def json_answer_def io_simps)

lemma set_method_app [io_simps]: "set_method s w = (Ret (), w\<lparr>rq_method := Some s\<rparr>)"
  by (simp add: set_method_def)

lemma ext_rq_out [simp]:
  "rq_out (after_call w c s) = rq_out w" "rq_path (after_call w c s) = rq_path w"
  "rq_method (after_call w c s) = rq_method w" "rq_headers (after_call w c s) = rq_headers w"
  "rq_content (after_call w c s) = rq_content w"
  by (simp_all add: after_call_def)

text \<open>\<open>quiet f\<close>: \<open>f\<close> sends nothing. \<open>answers f\<close>: \<open>f\<close> sends one complete
  answer when it returns and nothing when it raises.\<close>

definition quiet :: "('h, 'a) hio \<Rightarrow> bool" where
  "quiet f = (\<forall>w. rq_out (snd (f w)) = rq_out w)"

definition answers :: "('h, 'a) hio \<Rightarrow> bool" where
  "answers f = (\<forall>w. \<exists>os. rq_out (snd (f w)) = rq_out w @ os
     \<and> (case fst (f w) of Ret _ \<Rightarrow> is_answer os | Exc _ \<Rightarrow> os = []))"

named_theorems answer_intros

lemma quiet_ret [answer_intros]: "quiet (ret x)"
  by (simp add: quiet_def io_simps)

lemma quiet_raise [answer_intros]: "quiet (raise e)"
  by (simp add: quiet_def io_simps)

lemma quiet_gets [answer_intros]: "quiet (gets f)"
  by (simp add: quiet_def io_simps)

lemma quiet_lift_res [answer_intros]: "quiet (lift_res r)"
  by (simp add: quiet_def io_simps)

lemma quiet_ext [answer_intros]: "quiet (ext c f)"
  by (simp add: quiet_def io_simps)

lemma quiet_bnd [answer_intros]: "quiet f \<Longrightarrow> (\<And>x. quiet (g x)) \<Longrightarrow> quiet (bnd f g)"
  unfolding quiet_def by (auto simp: io_simps split: prod.splits res.splits) (metis snd_conv)+

lemma quiet_case_option [answer_intros]:
  "(x = None \<Longrightarrow> quiet f) \<Longrightarrow> (\<And>y. x = Some y \<Longrightarrow> quiet (g y)) \<Longrightarrow>
   quiet (case x of None \<Rightarrow> f | Some y \<Rightarrow> g y)"
  by (cases x) auto

lemma quiet_if [answer_intros]:
  "(b \<Longrightarrow> quiet f) \<Longrightarrow> (\<not> b \<Longrightarrow> quiet g) \<Longrightarrow> quiet (if b then f else g)"
  by simp

lemma quiet_case_prod [answer_intros]:
  "(\<And>a b. x = (a, b) \<Longrightarrow> quiet (f a b)) \<Longrightarrow> quiet (case x of (a, b) \<Rightarrow> f a b)"
  by (cases x) auto

lemma quiet_read_body [answer_intros]: "quiet (read_body n)"
  by (simp add: quiet_def read_body_def Let_def)

lemma quiet_content [answer_intros]: "quiet (content :: ('h, string) hio)"
proof -
  have q: "quiet (bnd (case h of None \<Rightarrow> ret 0 | Some s \<Rightarrow> lift_res (py_int s))
      (read_body :: int \<Rightarrow> ('h, string) hio))" for h
    by (intro answer_intros)
  show ?thesis
    unfolding quiet_def
  proof
    fix w :: "'h handler"
    show "rq_out (snd (content w)) = rq_out w"
      using q [of "header_get (rq_headers w) ''Content-Length''"]
      by (cases "rq_content w") (simp_all only: content_def quiet_def option.case snd_conv)
  qed
qed

lemma quiet_parse_json [answer_intros]: "quiet (parse_json_content js)"
  unfolding parse_json_content_def by (intro answer_intros)

lemma answers_send_json [answer_intros]: "answers (send_json_response js d st)"
  by (simp add: answers_def io_simps)

lemma answers_raise [answer_intros]: "answers (raise e)"
  by (simp add: answers_def io_simps)

lemma answers_case_res:
  assumes "quiet f" and "\<And>x. answers (g x)" and "\<And>e. answers (h e)"
  shows "answers (\<lambda>w. case f w of (Ret x, w') \<Rightarrow> g x w' | (Exc e, w') \<Rightarrow> h e w')"
  unfolding answers_def
proof
  fix w
  obtain r w' where f: "f w = (r, w')" by fastforce
  with assms(1) have q: "rq_out w' = rq_out w"
    unfolding quiet_def by (metis snd_conv)
  define k where "k = (case r of Ret x \<Rightarrow> g x | Exc e \<Rightarrow> h e)"
  have "answers k"
    using assms(2,3) by (simp add: k_def split: res.splits)
  moreover have "(case f w of (Ret x, w') \<Rightarrow> g x w' | (Exc e, w') \<Rightarrow> h e w') = k w'"
    using f by (simp add: k_def split: res.splits)
  ultimately show "\<exists>os. rq_out (snd (case f w of (Ret x, w') \<Rightarrow> g x w' | (Exc e, w') \<Rightarrow> h e w'))
        = rq_out w @ os
      \<and> (case fst (case f w of (Ret x, w') \<Rightarrow> g x w' | (Exc e, w') \<Rightarrow> h e w') of
           Ret _ \<Rightarrow> is_answer os | Exc _ \<Rightarrow> os = [])"
    using q unfolding answers_def by metis
qed

lemma answers_bnd [answer_intros]:
  "quiet f \<Longrightarrow> (\<And>x. answers (g x)) \<Longrightarrow> answers (bnd f g)"
  unfolding bnd_def
  by (rule answers_case_res) (auto simp: raise_def [symmetric] intro: answers_raise)

lemma answers_sq [answer_intros]: "quiet f \<Longrightarrow> answers g \<Longrightarrow> answers (sq f g)"
  unfolding sq_def by (rule answers_bnd)

lemma answers_try_else [answer_intros]:
  assumes "quiet f" and "\<And>e. answers (h e)" and "\<And>x. answers (k x)"
  shows "answers (try_else f p h k)"
proof -
  have eq: "try_else f p h k =
      (\<lambda>w. case f w of (Ret x, w') \<Rightarrow> k x w' | (Exc e, w') \<Rightarrow> (if p e then h e else raise e) w')"
    by (rule HOL.ext) (auto simp: io_simps split: prod.splits res.splits)
  show ?thesis
    unfolding eq by (rule answers_case_res [OF assms(1,3)]) (simp add: assms(2) answers_raise)
qed

lemma answers_if [answer_intros]:
  "(b \<Longrightarrow> answers f) \<Longrightarrow> (\<not> b \<Longrightarrow> answers g) \<Longrightarrow> answers (if b then f else g)"
  by simp

lemma answers_case_prod [answer_intros]:
  "(\<And>a b. x = (a, b) \<Longrightarrow> answers (f a b)) \<Longrightarrow> answers (case x of (a, b) \<Rightarrow> f a b)"
  by (cases x) auto

section \<open>The contract of handle_request\<close>

locale rest_handler =
  fixes js :: jsonrt and hr :: "('h, unit) hio"
  assumes hr_answers: "answers hr"
begin

text \<open>The wrapper turns every \<open>Exception\<close> into an answer. It passes on only what is no
  \<open>Exception\<close> (\<open>KeyboardInterrupt\<close>, with which the server is stopped), and has then sent
  nothing.\<close>

lemma wrapped_answers_once:
  "\<exists>os. rq_out (snd (handle_wrapped js hr w)) = rq_out w @ os \<and>
     (case fst (handle_wrapped js hr w) of
        Ret _ \<Rightarrow> is_answer os | Exc e \<Rightarrow> os = [] \<and> \<not> is_Exception e)"
proof -
  obtain r w' where hr: "hr w = (r, w')" by fastforce
  obtain os where os: "rq_out w' = rq_out w @ os"
    "case r of Ret _ \<Rightarrow> is_answer os | Exc _ \<Rightarrow> os = []"
    using hr_answers hr unfolding answers_def by (metis fst_conv snd_conv)
  show ?thesis
  proof (cases r)
    case (Ret x)
    with hr os show ?thesis by (simp add: handle_wrapped_def io_simps)
  next
    case (Exc e)
    with hr os show ?thesis
      by (cases e) (simp_all add: handle_wrapped_def io_simps)
  qed
qed

lemma wrapped_500:
  assumes "hr w = (Exc e, w')" and "is_Exception e" and "\<nexists>a d s. e = ValidationError a d s"
  shows "handle_wrapped js hr w
    = (Ret (), w'\<lparr>rq_out := rq_out w' @ [SendError 500 ''Internal Server Error'']\<rparr>)"
  using assms by (cases e) (simp_all add: handle_wrapped_def io_simps)

lemma wrapped_validation_error:
  assumes "hr w = (Exc (ValidationError a d s), w')"
  shows "handle_wrapped js hr w
    = (Ret (), w'\<lparr>rq_out := rq_out w' @ json_answer js s (PDict [(a, PStr d)])\<rparr>)"
  using assms by (simp add: handle_wrapped_def io_simps)

end

end
