(* ===== verification/CfgdbRest.thy ===== *)
theory CfgdbRest
  imports RestHandler
begin

text \<open>
  The ZooKeeper handlers of \<open>cfgdb_zk_rest_server.py\<close>: \<open>ZKRESTRequestHandler\<close>, which
  turns a request into one run of \<open>zookeepercli\<close>, and \<open>ESDCZKRESTRequestHandler\<close>, which
  admits only targets that start with \<open>/esdc\<close>. The environment variables of the process and
  \<open>subprocess.Popen\<close> with \<open>communicate\<close> (exit code, standard output, standard error, or an
  \<open>OSError\<close>) are the parameter \<open>zkenv\<close>.
\<close>

record 'h zkenv =
  environ :: "string \<rightharpoonup> string"
  zk_popen :: "string list \<Rightarrow> ('h, int \<times> string \<times> string) outside"

definition environ_get :: "'h zkenv \<Rightarrow> string \<Rightarrow> string \<Rightarrow> string" where
  "environ_get env k d = (case environ env k of None \<Rightarrow> d | Some v \<Rightarrow> v)"

section \<open>Class attributes\<close>

definition default_string_max_length :: nat where
  "default_string_max_length = 4019"

definition zk_data_size_limit :: nat where
  "zk_data_size_limit = 2097152"

definition zk_commands :: "string list" where
  "zk_commands = [''exists'', ''get'', ''ls'', ''lsr'', ''create'', ''creater'', ''set'', ''delete'',
     ''rm'', ''deleter'', ''rmr'', ''getacl'', ''setacl'']"

definition method_to_zk_command :: "string \<rightharpoonup> string" where
  "method_to_zk_command = map_of [(''GET'', ''get''), (''POST'', ''create''), (''PUT'', ''set''),
     (''DELETE'', ''delete'')]"

definition zk_servers :: "'h zkenv \<Rightarrow> string" where
  "zk_servers env = environ_get env ''ZK_REST_ZK_SERVERS'' ''127.0.0.1''"

definition zk_base_cmd :: "'h zkenv \<Rightarrow> string list" where
  "zk_base_cmd env = [environ_get env ''ZK_REST_ZK_CLI'' ''zookeepercli'', ''-servers'', zk_servers env]"

section \<open>Running a command\<close>

definition validate_string_input :: "string \<Rightarrow> pyval \<Rightarrow> nat \<Rightarrow> string res" where
  "validate_string_input attr value max_length =
     (case value of
        PStr s \<Rightarrow>
          if max_length \<noteq> 0 \<and> max_length < py_len s
          then Exc (validation_error attr ''Too large.'' (Some 413)) else Ret s
      | _ \<Rightarrow> Exc (validation_error attr ''Invalid value.'' None))"

text \<open>The command line. Options are validated in the order in which they are appended.\<close>

definition zk_option :: "string \<Rightarrow> string \<Rightarrow> string option \<Rightarrow> string list res" where
  "zk_option flag attr v =
     (case v of
        None \<Rightarrow> Ret []
      | Some s \<Rightarrow> res_bind (validate_string_input attr (PStr s) default_string_max_length)
                    (\<lambda>s. Ret [flag, s]))"

definition zk_build_cmd ::
  "'h zkenv \<Rightarrow> string \<Rightarrow> string \<Rightarrow> pyval \<Rightarrow> bool \<Rightarrow> string option \<Rightarrow> string option
   \<Rightarrow> string list res" where
  "zk_build_cmd env command node data force username password =
     res_bind (zk_option ''-auth_usr'' ''username'' username) (\<lambda>usr.
     res_bind (zk_option ''-auth_pwd'' ''password'' password) (\<lambda>pwd.
     res_bind (validate_string_input ''node'' (PStr node) default_string_max_length) (\<lambda>node.
     res_bind (if data = PNone then Ret []
               else res_bind (validate_string_input ''data'' data zk_data_size_limit) (\<lambda>d. Ret [d]))
       (\<lambda>dat.
       Ret (zk_base_cmd env @ (if force then [''-force''] else []) @ usr @ pwd
            @ [''-c'', command, node] @ dat)))))"

definition run_zk_cmd ::
  "'h zkenv \<Rightarrow> string \<Rightarrow> string \<Rightarrow> pyval \<Rightarrow> bool \<Rightarrow> string option \<Rightarrow> string option
   \<Rightarrow> ('h, int \<times> string \<times> string) hio" where
  "run_zk_cmd env command node data force username password =
     bnd (lift_res (zk_build_cmd env command node data force username password)) (\<lambda>cmd.
     bnd (ext (Popen cmd) (zk_popen env cmd)) (\<lambda>(rc, stdout, stderr).
     bnd (lift_res (py_decode (py_strip stdout))) (\<lambda>so.
     bnd (lift_res (py_decode (py_strip stderr))) (\<lambda>se.
       ret (rc, so, se)))))"

text \<open>The status of the response. \<open>res['stderr']\<close> is text, so \<open>res['stderr'][0]\<close> is its
  first character.\<close>

definition zk_status :: "int \<Rightarrow> string \<Rightarrow> int res" where
  "zk_status returncode stderr =
     (if returncode = 0 then Ret 200
      else res_bind (py_char0 stderr) (\<lambda>c.
        if py_in ''node does not exist'' c then Ret 404
        else if py_in ''node already exists'' c then Ret 406
        else Ret 400))"

section \<open>Identification\<close>

text \<open>The overridden \<open>version_string\<close> methods: the \<open>Server\<close> header of every response.\<close>

definition VERSION :: string where
  "VERSION = ''0.1''"

definition zk_version_string :: string where
  "zk_version_string = ''ZooKeeper REST Service / '' @ VERSION"

definition esdc_version_string :: string where
  "esdc_version_string = ''ESDC '' @ zk_version_string"

section \<open>Handling a request\<close>

definition zk_request_command :: "string option \<Rightarrow> string \<Rightarrow> string option" where
  "zk_request_command method query =
     (case parse_qs_get query ''cmd'' of
        Some (v # vs) \<Rightarrow> Some v
      | _ \<Rightarrow> (case method of None \<Rightarrow> None | Some m \<Rightarrow> method_to_zk_command m))"

definition detail :: "string \<Rightarrow> pyval" where
  "detail s = PDict [(''detail'', PStr s)]"

definition zk_result :: "int \<Rightarrow> string \<Rightarrow> string \<Rightarrow> pyval" where
  "zk_result rc so se = PDict [(''returncode'', PInt rc), (''stdout'', PStr so), (''stderr'', PStr se)]"

fun as_dict :: "pyval \<Rightarrow> pydict res" where
  "as_dict (PDict d) = Ret d"
| "as_dict v = Exc (TypeError [])"

definition zk_execute ::
  "jsonrt \<Rightarrow> 'h zkenv \<Rightarrow> string \<Rightarrow> string \<Rightarrow> pydict \<Rightarrow> ('h, unit) hio" where
  "zk_execute js env zk_cmd node data =
     bnd (gets rq_headers) (\<lambda>hs.
     bnd (run_zk_cmd env zk_cmd node
            (case dict_get data ''data'' of None \<Rightarrow> PNone | Some v \<Rightarrow> v)
            (case dict_get data ''force'' of None \<Rightarrow> False | Some v \<Rightarrow> truthy v)
            (header_get hs ''zk-username'') (header_get hs ''zk-password''))
       (\<lambda>(rc, so, se).
          bnd (lift_res (zk_status rc se)) (send_json_response js (zk_result rc so se))))"

definition zk_handle_request :: "jsonrt \<Rightarrow> 'h zkenv \<Rightarrow> ('h, unit) hio" where
  "zk_handle_request js env =
     bnd (gets rq_path) (\<lambda>target.
     bnd (lift_res (urlparse target)) (\<lambda>(url_path, url_query).
     bnd (gets rq_method) (\<lambda>method.
       case zk_request_command method url_query of
         None \<Rightarrow> send_json_response js (detail ''Invalid command'') 400
       | Some zk_cmd \<Rightarrow>
           if zk_cmd = [] \<or> zk_cmd \<notin> set zk_commands
           then send_json_response js (detail ''Invalid command'') 400
           else try_else (bnd (parse_json_content js) (\<lambda>data. lift_res (as_dict data)))
                  (\<lambda>e. is_TypeError e \<or> is_ValueError e)
                  (\<lambda>e. bnd content (\<lambda>_. send_json_response js (detail ''Malformed request'') 400))
                  (zk_execute js env zk_cmd url_path))))"

definition zk_do_HEAD :: "('h, unit) hio" where
  "zk_do_HEAD =
     bnd (gets rq_path) (\<lambda>target.
       if target = ''/''
       then sq (send (SendResponse 200))
              (sq (send (SendHeader ''Content-Type'' ''application/json'')) (send EndHeaders))
       else send (SendError 501 ''Unsupported method''))"

definition esdc_handle_request :: "jsonrt \<Rightarrow> 'h zkenv \<Rightarrow> ('h, unit) hio" where
  "esdc_handle_request js env =
     bnd (gets rq_path) (\<lambda>target.
       if py_startswith target ''/esdc'' then zk_handle_request js env
       else send_json_response js (detail ''Permission Denied'') 403)"

text \<open>How \<open>http.server\<close> calls the deployed handler: by the request's method.\<close>

definition esdc_serve :: "jsonrt \<Rightarrow> 'h zkenv \<Rightarrow> string \<Rightarrow> ('h, unit) hio" where
  "esdc_serve js env command =
     (let hr = esdc_handle_request js env in
      if command = ''GET'' then do_GET js hr
      else if command = ''POST'' then do_POST js hr
      else if command = ''PUT'' then do_PUT js hr
      else if command = ''DELETE'' then do_DELETE js hr
      else if command = ''HEAD'' then zk_do_HEAD
      else send (SendError 501 (''Unsupported method ('' @ quoted command @ '')'')))"

section \<open>The handlers answer once\<close>

lemma quiet_run_zk_cmd [answer_intros]: "quiet (run_zk_cmd env c n d f u p)"
  unfolding run_zk_cmd_def by (intro answer_intros)

lemma answers_zk_execute [answer_intros]: "answers (zk_execute js env c n d)"
  unfolding zk_execute_def by (intro answer_intros)

lemma answers_case_option [answer_intros]:
  "(x = None \<Longrightarrow> answers f) \<Longrightarrow> (\<And>y. x = Some y \<Longrightarrow> answers (g y)) \<Longrightarrow>
   answers (case x of None \<Rightarrow> f | Some y \<Rightarrow> g y)"
  by (cases x) auto

interpretation zk_rest: rest_handler js "zk_handle_request js env" for js env
  by unfold_locales (unfold zk_handle_request_def, intro answer_intros)

interpretation esdc_rest: rest_handler js "esdc_handle_request js env" for js env
  by unfold_locales
    (unfold esdc_handle_request_def, intro answer_intros zk_rest.hr_answers)

interpretation base_rest: rest_handler js rest_handle_request for js
  by unfold_locales (unfold rest_handle_request_def, intro answer_intros)

lemma esdc_serve_answers:
  "\<exists>os. rq_out (snd (esdc_serve js env command w)) = rq_out w @ os \<and>
     (case fst (esdc_serve js env command w) of
        Ret _ \<Rightarrow> is_answer os \<or> (command = ''HEAD'' \<and>
          os = [SendResponse 200, SendHeader ''Content-Type'' ''application/json'', EndHeaders])
      | Exc e \<Rightarrow> os = [] \<and> \<not> is_Exception e)"
proof -
  define good where "good f head = (\<exists>os. rq_out (snd (f w)) = rq_out w @ os \<and>
     (case fst (f w :: unit res \<times> 'a handler) of
        Ret _ \<Rightarrow> is_answer os \<or> (head \<and>
          os = [SendResponse 200, SendHeader ''Content-Type'' ''application/json'', EndHeaders])
      | Exc e \<Rightarrow> os = [] \<and> \<not> is_Exception e))" for f head
  have m: "good (sq (set_method s) (handle_wrapped js (esdc_handle_request js env))) b" for s b
    using esdc_rest.wrapped_answers_once [of js env "w\<lparr>rq_method := Some s\<rparr>"]
    by (auto simp: good_def sq_app set_method_app split: res.splits)
  have e: "good (send (SendError n msg)) b" for n msg b
    by (simp add: good_def send_app)
  have h: "good zk_do_HEAD True"
    by (simp add: good_def zk_do_HEAD_def io_simps)
  have "good (esdc_serve js env command) (command = ''HEAD'')"
    by (simp add: esdc_serve_def do_GET_def do_POST_def do_PUT_def do_DELETE_def Let_def m e h)
  then show ?thesis
    unfolding good_def .
qed

text \<open>C12. Every request gets exactly one complete answer: a JSON response with status line, header
  and body, or an error page (a \<open>HEAD\<close> response has no body). The only exceptions that escape
  are no subclasses of \<open>Exception\<close> (the \<open>KeyboardInterrupt\<close> that stops the server), and
  then nothing has been sent.\<close>

theorem esdc_answers_once:
  "\<exists>os. rq_out (snd (esdc_serve js env command w)) = rq_out w @ os \<and>
     (case fst (esdc_serve js env command w) of
        Ret _ \<Rightarrow> is_answer os \<or> (command = ''HEAD'' \<and>
          os = [SendResponse 200, SendHeader ''Content-Type'' ''application/json'', EndHeaders])
      | Exc e \<Rightarrow> os = [] \<and> \<not> is_Exception e)"
  by (rule esdc_serve_answers)

section \<open>Confinement of the commands\<close>

text \<open>An acceptable command line: the configured client, one of the known commands on a node
  whose name starts with \<open>/esdc\<close>, and arguments within their length limits.\<close>

definition opt_ok :: "string \<Rightarrow> string list \<Rightarrow> bool" where
  "opt_ok flag xs = (xs = [] \<or> (\<exists>s. xs = [flag, s] \<and> py_len s \<le> default_string_max_length))"

definition zk_argv_ok :: "'h zkenv \<Rightarrow> string list \<Rightarrow> bool" where
  "zk_argv_ok env argv =
     (\<exists>force usr pwd cmd node dat.
        argv = zk_base_cmd env @ force @ usr @ pwd @ [''-c'', cmd, node] @ dat
      \<and> (force = [] \<or> force = [''-force'']) \<and> opt_ok ''-auth_usr'' usr \<and> opt_ok ''-auth_pwd'' pwd
      \<and> cmd \<in> set zk_commands \<and> prefix ''/esdc'' node \<and> py_len node \<le> default_string_max_length
      \<and> (dat = [] \<or> (\<exists>d. dat = [d] \<and> py_len d \<le> zk_data_size_limit)))"

lemma validate_Ret:
  "validate_string_input a v n = Ret s \<Longrightarrow> v = PStr s \<and> (n \<noteq> 0 \<longrightarrow> py_len s \<le> n)"
  by (auto simp: validate_string_input_def split: pyval.splits if_splits)

lemma zk_option_Ret: "zk_option flag a v = Ret xs \<Longrightarrow> opt_ok flag xs"
  by (auto simp: zk_option_def opt_ok_def res_bind_Ret_iff default_string_max_length_def
      split: option.splits dest: validate_Ret)

lemma zk_build_cmd_ok:
  assumes "zk_build_cmd env c n d f u p = Ret argv" and "c \<in> set zk_commands"
    and "prefix ''/esdc'' n"
  shows "zk_argv_ok env argv"
proof -
  obtain usr pwd node dat where
    o: "zk_option ''-auth_usr'' ''username'' u = Ret usr" "zk_option ''-auth_pwd'' ''password'' p = Ret pwd"
    and n: "validate_string_input ''node'' (PStr n) default_string_max_length = Ret node"
    and d: "(if d = PNone then Ret [] else res_bind (validate_string_input ''data'' d zk_data_size_limit)
        (\<lambda>d. Ret [d])) = Ret dat"
    and argv: "argv = zk_base_cmd env @ (if f then [''-force''] else []) @ usr @ pwd
        @ [''-c'', c, node] @ dat"
    using assms(1) by (auto simp: zk_build_cmd_def res_bind_Ret_iff)
  have "node = n" "py_len node \<le> default_string_max_length"
    using validate_Ret [OF n] by (simp_all add: default_string_max_length_def)
  moreover have "dat = [] \<or> (\<exists>d. dat = [d] \<and> py_len d \<le> zk_data_size_limit)"
    using d by (auto simp: res_bind_Ret_iff zk_data_size_limit_def split: if_splits dest: validate_Ret)
  moreover have "(if f then [''-force''] else []) = [] \<or> (if f then [''-force''] else []) = [''-force'']"
    by simp
  ultimately show ?thesis
    using zk_option_Ret [OF o(1)] zk_option_Ret [OF o(2)] assms(2,3) argv
    unfolding zk_argv_ok_def by (intro exI conjI) simp_all
qed

definition zk_call_ok :: "'h zkenv \<Rightarrow> call \<Rightarrow> bool" where
  "zk_call_ok env c = (\<exists>argv. c = Popen argv \<and> zk_argv_ok env argv)"

lemma emits_send [emits_intros]: "emits P (send x)"
  by (rule emitsI) (simp add: io_simps)

lemma emits_send_json [emits_intros]: "emits P (send_json_response js d st)"
  by (rule emitsI) (simp add: io_simps)

lemma emits_set_method [emits_intros]: "emits P (set_method s)"
  by (rule emitsI) (simp add: io_simps)

lemma emits_read_body [emits_intros]: "emits P (read_body n)"
  by (rule emitsI) (simp add: read_body_def Let_def)

lemma emits_content [emits_intros]: "emits P content"
  by (rule emitsI) (auto simp: content_def io_simps read_body_def Let_def
      split: option.split res.split)

lemma emits_parse_json [emits_intros]: "emits P (parse_json_content js)"
  unfolding parse_json_content_def by (intro emits_intros)

lemma emits_zk_execute:
  assumes "c \<in> set zk_commands" and "prefix ''/esdc'' n"
  shows "emits (zk_call_ok env) (zk_execute js env c n d)"
  unfolding zk_execute_def run_zk_cmd_def
  using assms
  by (intro emits_intros emits_bnd_lift_res) (auto simp: zk_call_ok_def intro: zk_build_cmd_ok)

lemma emits_esdc_handle_request:
  fixes env :: "'h zkenv"
  shows "emits (zk_call_ok env) (esdc_handle_request js env)"
proof (rule emitsI)
  fix w :: "'h handler"
  show "\<exists>cs. calls (snd (esdc_handle_request js env w)) = calls w @ cs
      \<and> (\<forall>c \<in> set cs. zk_call_ok env c)"
  proof (cases "prefix ''/esdc'' (rq_path w)")
    case True
    obtain node query where u: "urlparse (rq_path w) = Ret (node, query)"
      and node: "prefix ''/esdc'' node"
      using urlparse_esdc [OF True] by blast
    define body where "body = (case zk_request_command (rq_method w) query of
         None \<Rightarrow> send_json_response js (detail ''Invalid command'') 400
       | Some zk_cmd \<Rightarrow>
           if zk_cmd = [] \<or> zk_cmd \<notin> set zk_commands
           then send_json_response js (detail ''Invalid command'') 400
           else try_else (bnd (parse_json_content js) (\<lambda>data. lift_res (as_dict data)))
                  (\<lambda>e. is_TypeError e \<or> is_ValueError e)
                  (\<lambda>e. bnd content (\<lambda>_. send_json_response js (detail ''Malformed request'') 400))
                  (zk_execute js env zk_cmd node))"
    have "esdc_handle_request js env w = body w"
      using True u
      by (simp add: esdc_handle_request_def py_startswith_def zk_handle_request_def io_simps body_def)
    moreover have "emits (zk_call_ok env) body"
      unfolding body_def using node by (intro emits_intros emits_zk_execute) auto
    ultimately show ?thesis
      unfolding emits_def by metis
  next
    case False
    then show ?thesis
      by (simp add: esdc_handle_request_def py_startswith_def io_simps)
  qed
qed

lemma emits_case_exn [emits_intros]:
  "(\<And>a d s. emits P (f a d s)) \<Longrightarrow> emits P g \<Longrightarrow>
   emits P (case e of ValidationError a d s \<Rightarrow> f a d s | _ \<Rightarrow> g)"
  by (cases e) auto

lemma silent_send [makes_intros]: "makes n (send x)"
  by (rule makes_unchanged) (simp add: io_simps)

lemma silent_send_json [makes_intros]: "makes n (send_json_response js d st)"
  by (rule makes_unchanged) (simp add: io_simps)

lemma silent_content [makes_intros]: "makes n content"
  by (rule makes_unchanged) (auto simp: content_def io_simps read_body_def Let_def
      split: option.split res.split)

lemma once_run_zk_cmd: "once (run_zk_cmd env c n d f u p)"
  unfolding run_zk_cmd_def
  by (intro silent_then_once once_then_silent makes_intros)

lemma once_zk_execute: "once (zk_execute js env c n d)"
  unfolding zk_execute_def
  by (intro silent_then_once [OF makes_pure(3)] once_then_silent [OF once_run_zk_cmd] makes_intros)

lemma once_zk_handle_request: "once (zk_handle_request js env)"
proof -
  have malformed: "once (bnd content (\<lambda>_. send_json_response js d st))" for d st
    by (intro silent_then_once makes_intros)
  have parse: "silent (bnd (parse_json_content js) (\<lambda>data. lift_res (as_dict data)))"
    unfolding parse_json_content_def by (intro makes_intros)
  show ?thesis
    unfolding zk_handle_request_def
    by (intro silent_then_once [OF makes_pure(3)] silent_then_once [OF makes_pure(4)] makes_if
        makes_case_option makes_case_prod silent_send_json silent_try_else parse malformed once_zk_execute)
qed

lemma once_esdc_wrapped: "once (handle_wrapped js (esdc_handle_request js env))"
proof -
  have "once (esdc_handle_request js env)"
    unfolding esdc_handle_request_def
    by (intro silent_then_once [OF makes_pure(3)] makes_if once_zk_handle_request silent_send_json)
  moreover have "silent (case e of ValidationError attr d status \<Rightarrow>
        send_json_response js (as_json e) status
      | _ \<Rightarrow> send (SendError 500 ''Internal Server Error''))" for e
    by (cases e) (simp_all add: silent_send silent_send_json)
  ultimately show ?thesis
    unfolding handle_wrapped_def by (rule once_except_silent)
qed

lemma once_esdc_serve: "once (esdc_serve js env command)"
proof -
  have m: "once (sq (set_method s) (handle_wrapped js (esdc_handle_request js env)))" for s
    unfolding sq_def by (intro silent_then_once [OF makes_unchanged] once_esdc_wrapped) (simp add: io_simps)
  have h: "once zk_do_HEAD"
    unfolding zk_do_HEAD_def sq_def
    by (intro silent_then_once makes_intros)
  show ?thesis
    unfolding esdc_serve_def do_GET_def do_POST_def do_PUT_def do_DELETE_def Let_def
    by (intro makes_if m h silent_send)
qed

lemma esdc_commands_bounded:
  "\<exists>argvs. calls (snd (esdc_serve js env command w)) = calls w @ map Popen argvs
     \<and> length argvs \<le> 1 \<and> list_all (zk_argv_ok env) argvs"
proof -
  have popens: "\<forall>c \<in> set cs. zk_call_ok env c \<Longrightarrow> \<exists>argvs. cs = map Popen argvs \<and> list_all (zk_argv_ok env) argvs"
    for cs
    by (induction cs) (auto simp: zk_call_ok_def intro: exI [of _ "_ # _"])
  have "emits (zk_call_ok env) (handle_wrapped js (esdc_handle_request js env))"
    unfolding handle_wrapped_def by (intro emits_intros emits_esdc_handle_request)
  then have "emits (zk_call_ok env) (esdc_serve js env command)"
    unfolding esdc_serve_def do_GET_def do_POST_def do_PUT_def do_DELETE_def zk_do_HEAD_def Let_def
    by (intro emits_intros)
  then obtain argvs where a: "calls (snd (esdc_serve js env command w)) = calls w @ map Popen argvs"
    "list_all (zk_argv_ok env) argvs"
    unfolding emits_def using popens by metis
  moreover have "length argvs \<le> 1"
    using once_esdc_serve [of js env command, unfolded makes_def, THEN spec, of w] a(1) by simp
  ultimately show ?thesis by blast
qed

text \<open>C2. Whatever a client sends, the deployed server starts at most one process for the request, and
  only a run of the configured \<open>zookeepercli\<close> with one of the thirteen known commands on a node
  whose name starts with \<open>/esdc\<close>; node, user name and password have at most 4019 characters, the
  data at most 2097152, and each is a single argument.\<close>

theorem esdc_commands_confined:
  "\<exists>argvs. calls (snd (esdc_serve js env command w)) = calls w @ map Popen argvs
     \<and> length argvs \<le> 1 \<and> list_all (zk_argv_ok env) argvs"
  by (rule esdc_commands_bounded)

section \<open>What a request leads to\<close>

definition zk_methods :: "string list" where
  "zk_methods = [''GET'', ''POST'', ''PUT'', ''DELETE'']"

lemma esdc_serve_method:
  "meth \<in> set zk_methods \<Longrightarrow> esdc_serve js env meth w =
     handle_wrapped js (esdc_handle_request js env) (w\<lparr>rq_method := Some meth\<rparr>)"
  by (auto simp: zk_methods_def esdc_serve_def do_GET_def do_POST_def do_PUT_def do_DELETE_def io_simps)

text \<open>The request \<open>w\<close> asks for command \<open>cmd\<close> on \<open>node\<close>.\<close>

definition asks_for :: "'h handler \<Rightarrow> string \<Rightarrow> string \<Rightarrow> string \<Rightarrow> bool" where
  "asks_for w meth cmd node =
     (meth \<in> set zk_methods \<and> prefix ''/esdc'' (rq_path w)
      \<and> (\<exists>query. urlparse (rq_path w) = Ret (node, query)
               \<and> zk_request_command (Some meth) query = Some cmd))"

lemma esdc_handle_asks_for:
  assumes "asks_for w meth cmd node" and "cmd \<in> set zk_commands"
  shows "esdc_handle_request js env (w\<lparr>rq_method := Some meth\<rparr>) =
     try_else (bnd (parse_json_content js) (\<lambda>data. lift_res (as_dict data)))
       (\<lambda>e. is_TypeError e \<or> is_ValueError e)
       (\<lambda>e. bnd content (\<lambda>_. send_json_response js (detail ''Malformed request'') 400))
       (zk_execute js env cmd node) (w\<lparr>rq_method := Some meth\<rparr>)"
  using assms
  by (auto simp: asks_for_def esdc_handle_request_def py_startswith_def zk_handle_request_def
      zk_commands_def io_simps)

lemma zk_status_cases:
  "zk_status rc se =
     (if rc = 0 then Ret 200
      else if se = [] then Exc (IndexError ''string index out of range'') else Ret 400)"
proof -
  have "\<not> py_in ''node does not exist'' c" "\<not> py_in ''node already exists'' c"
    if "py_char0 se = Ret c" for c
    using py_char0_length [OF that] py_in_length by fastforce+
  then show ?thesis
    by (auto simp: zk_status_def py_char0_def)
qed

definition zk_headers_cmd ::
  "'h zkenv \<Rightarrow> 'h handler \<Rightarrow> string \<Rightarrow> string \<Rightarrow> pydict \<Rightarrow> string list res" where
  "zk_headers_cmd env w cmd node data =
     zk_build_cmd env cmd node
       (case dict_get data ''data'' of None \<Rightarrow> PNone | Some v \<Rightarrow> v)
       (case dict_get data ''force'' of None \<Rightarrow> False | Some v \<Rightarrow> truthy v)
       (header_get (rq_headers w) ''zk-username'') (header_get (rq_headers w) ''zk-password'')"

lemma zk_execute_app:
  "zk_execute js env cmd node data w =
     (case zk_headers_cmd env w cmd node data of
        Exc e \<Rightarrow> (Exc e, w)
      | Ret argv \<Rightarrow>
          (case zk_popen env argv (files w, host w) of
             (Exc e, s) \<Rightarrow> (Exc e, after_call w (Popen argv) s)
           | (Ret (rc, out, err), s) \<Rightarrow>
               bnd (lift_res (py_decode (py_strip out))) (\<lambda>so.
               bnd (lift_res (py_decode (py_strip err))) (\<lambda>se.
               bnd (lift_res (zk_status rc se)) (send_json_response js (zk_result rc so se))))
                 (after_call w (Popen argv) s)))"
  by (auto simp: zk_execute_def run_zk_cmd_def zk_headers_cmd_def io_simps
      split: res.splits prod.splits)

text \<open>C24. An accepted request starts one process and answers from its result: status 200 when the
  exit code is 0, 400 for every other exit code with a message on standard error, and an internal
  server error (500) for a failure without message. In particular neither a missing node nor an
  existing one is ever answered with 404 or 406: the test looks at the first character of the
  message only.\<close>

theorem esdc_status_from_result:
  assumes ask: "asks_for w meth cmd node" and cmd: "cmd \<in> set zk_commands"
    and data: "parse_json_content js (w\<lparr>rq_method := Some meth\<rparr>) = (Ret (PDict data), w1)"
    and argv: "zk_headers_cmd env w1 cmd node data = Ret argv"
    and run: "zk_popen env argv (files w1, host w1) = (Ret (rc, out, err), s)"
    and utf8: "utf8_valid (py_strip out)" "utf8_valid (py_strip err)"
  shows "\<exists>w'. esdc_serve js env meth w = (Ret (), w') \<and> calls w' = calls w1 @ [Popen argv]
     \<and> rq_out w' = rq_out w1 @
         (if rc = 0 then json_answer js 200 (zk_result rc (py_strip out) (py_strip err))
          else if py_strip err = [] then [SendError 500 ''Internal Server Error'']
          else json_answer js 400 (zk_result rc (py_strip out) (py_strip err)))"
proof -
  have m: "meth \<in> set zk_methods" using ask by (simp add: asks_for_def)
  show ?thesis
    unfolding esdc_serve_method [OF m]
    using data argv run utf8
    by (simp add: handle_wrapped_def esdc_handle_asks_for [OF ask cmd] zk_execute_app zk_status_cases
        py_decode_def io_simps)
qed

text \<open>A target that does not start with \<open>/esdc\<close> is answered with 403; the body is not
  read and no process is started.\<close>

lemma esdc_forbids_other_targets:
  assumes "meth \<in> set zk_methods" and "\<not> prefix ''/esdc'' (rq_path w)"
  shows "esdc_serve js env meth w =
     (Ret (), w\<lparr>rq_method := Some meth,
                rq_out := rq_out w @ json_answer js 403 (detail ''Permission Denied'')\<rparr>)"
  using assms
  by (simp add: esdc_serve_method handle_wrapped_def esdc_handle_request_def py_startswith_def io_simps)

text \<open>A command outside the list is answered with 400 before the body is read; no process is
  started.\<close>

lemma esdc_rejects_unknown_commands:
  assumes ask: "asks_for w meth cmd node" and cmd: "cmd \<notin> set zk_commands"
  shows "esdc_serve js env meth w =
     (Ret (), w\<lparr>rq_method := Some meth,
                rq_out := rq_out w @ json_answer js 400 (detail ''Invalid command'')\<rparr>)"
  using assms
  by (auto simp: asks_for_def esdc_serve_method handle_wrapped_def esdc_handle_request_def
      py_startswith_def zk_handle_request_def io_simps)

text \<open>C39. Oversized input is refused: data of more than 2097152 characters is answered with 413 and
  a JSON object naming the offending attribute, and no process is started.\<close>

theorem esdc_refuses_large_data:
  assumes ask: "asks_for w meth cmd node" and cmd: "cmd \<in> set zk_commands"
    and data: "parse_json_content js (w\<lparr>rq_method := Some meth\<rparr>) = (Ret (PDict data), w1)"
    and large: "dict_get data ''data'' = Some (PStr d)" "zk_data_size_limit < py_len d"
    and node: "py_len node \<le> default_string_max_length"
    and hdr: "header_get (rq_headers w1) ''zk-username'' = None"
      "header_get (rq_headers w1) ''zk-password'' = None"
  shows "esdc_serve js env meth w =
     (Ret (), w1\<lparr>rq_out := rq_out w1 @ json_answer js 413 (PDict [(''data'', PStr ''Too large.'')])\<rparr>)"
proof -
  have m: "meth \<in> set zk_methods" using ask by (simp add: asks_for_def)
  have "zk_headers_cmd env w1 cmd node data = Exc (ValidationError ''data'' ''Too large.'' 413)"
    using large node hdr
    by (simp add: zk_headers_cmd_def zk_build_cmd_def zk_option_def validate_string_input_def
        default_string_max_length_def zk_data_size_limit_def)
  then show ?thesis
    unfolding esdc_serve_method [OF m]
    using data by (simp add: handle_wrapped_def esdc_handle_asks_for [OF ask cmd] zk_execute_app io_simps)
qed

text \<open>A body that is not JSON, or whose JSON is not an object, is answered with 400 and no
  process is started (the \<open>Content-Length\<close> being absent or a number).\<close>

lemma esdc_malformed_body_is_400:
  assumes ask: "asks_for w meth cmd node" and cmd: "cmd \<in> set zk_commands"
    and body: "content (w\<lparr>rq_method := Some meth\<rparr>) = (Ret c, w1)" "c \<noteq> []"
    and bad: "h_loads js c = Exc (ValueError s) \<or> (\<exists>v. h_loads js c = Ret v \<and> (\<forall>d. v \<noteq> PDict d))"
  shows "esdc_serve js env meth w =
     (Ret (), w1\<lparr>rq_out := rq_out w1 @ json_answer js 400 (detail ''Malformed request'')\<rparr>)"
proof -
  have m: "meth \<in> set zk_methods" using ask by (simp add: asks_for_def)
  have again: "content w1 = (Ret c, w1)"
    using body(1) by (auto simp: content_def read_body_def io_simps Let_def split: option.splits res.splits)
  have "\<exists>e. bnd (parse_json_content js) (\<lambda>data. lift_res (as_dict data)) (w\<lparr>rq_method := Some meth\<rparr>)
      = (Exc e, w1) \<and> (is_TypeError e \<or> is_ValueError e)"
    using bad body
  proof (elim disjE exE conjE)
    fix v assume "h_loads js c = Ret v" "\<forall>d. v \<noteq> PDict d"
    with body show ?thesis by (cases v) (auto simp: parse_json_content_def io_simps)
  qed (auto simp: parse_json_content_def io_simps)
  then show ?thesis
    unfolding esdc_serve_method [OF m]
    by (auto simp: handle_wrapped_def esdc_handle_asks_for [OF ask cmd] again try_else_app try_except_app
        bnd_app send_json_response_app)
qed

text \<open>A \<open>Content-Length\<close> that is not a number is answered with 500, not with the 400 of a
  malformed request: the handler of the first error evaluates the body once more, for the log, and
  fails again.\<close>

lemma esdc_malformed_length_is_500:
  assumes ask: "asks_for w meth cmd node" and cmd: "cmd \<in> set zk_commands"
    and fresh: "rq_content w = None"
    and len: "header_get (rq_headers w) ''Content-Length'' = Some s" "py_int s = Exc e"
  shows "esdc_serve js env meth w =
     (Ret (), w\<lparr>rq_method := Some meth, rq_out := rq_out w @ [SendError 500 ''Internal Server Error'']\<rparr>)"
proof -
  have m: "meth \<in> set zk_methods" using ask by (simp add: asks_for_def)
  have e: "e = ValueError ''invalid literal for int() with base 10''"
    using len(2) by (auto simp: py_int_def Let_def split: option.splits)
  have "content (w\<lparr>rq_method := Some meth\<rparr>) = (Exc e, w\<lparr>rq_method := Some meth\<rparr>)"
    using fresh len by (simp add: content_def io_simps)
  then show ?thesis
    unfolding esdc_serve_method [OF m]
    by (simp add: handle_wrapped_def esdc_handle_asks_for [OF ask cmd] parse_json_content_def e
        try_else_app try_except_app bnd_app send_app)
qed

text \<open>Without a query string the command follows from the method: \<open>get\<close> for GET,
  \<open>create\<close> for POST, \<open>set\<close> for PUT and \<open>delete\<close> for DELETE, on a node
  whose name starts with \<open>/esdc\<close>.\<close>

lemma esdc_method_commands:
  assumes "(meth, cmd) \<in> set [(''GET'', ''get''), (''POST'', ''create''), (''PUT'', ''set''),
      (''DELETE'', ''delete'')]"
    and "prefix ''/esdc'' (rq_path w)" and "CHR ''?'' \<notin> set (rq_path w)"
  shows "\<exists>node. asks_for w meth cmd node \<and> prefix ''/esdc'' node \<and> cmd \<in> set zk_commands"
proof -
  obtain node query where u: "urlparse (rq_path w) = Ret (node, query)" "prefix ''/esdc'' node"
    using urlparse_esdc [OF assms(2)] by blast
  have "query = []"
    using urlparse_no_query [OF assms(2,3) u(1)] .
  then have "zk_request_command (Some meth) query = method_to_zk_command meth"
    by (simp add: zk_request_command_def parse_qs_get_def parse_qsl_def List.map_filter_def)
  with assms(1,2) u show ?thesis
    by (auto simp: asks_for_def method_to_zk_command_def zk_methods_def zk_commands_def)
qed

section \<open>Witnesses\<close>

definition sample_zkenv :: "unit zkenv" where
  "sample_zkenv = \<lparr>environ = Map.empty,
     zk_popen = (\<lambda>argv s. (Ret (1, [], ''2020 FATAL zk: node does not exist''), s))\<rparr>"

definition sample_js :: jsonrt where
  "sample_js = \<lparr>h_loads = (\<lambda>s. if s = ''D'' then Ret (PDict [(''data'', PStr (replicate 2097153 (CHR ''x'')))])
       else Exc (ValueError ''Expecting value'')),
     h_dumps = (\<lambda>v. ''{}'')\<rparr>"

definition sample_request :: "string \<Rightarrow> (string \<times> string) list \<Rightarrow> string \<Rightarrow> unit handler" where
  "sample_request path hs body = \<lparr>files = Map.empty, host = (), calls = [], rq_method = None,
     rq_content = None, rq_path = path, rq_headers = hs, rq_rfile = body, rq_out = []\<rparr>"

lemmas sample_zk_defs = sample_zkenv_def sample_js_def sample_request_def

lemma sample_url: "urlparse ''/esdc/a'' = Ret (''/esdc/a'', [])"
  "urlparse ''/esdc/a?cmd=stat'' = Ret (''/esdc/a'', ''cmd=stat'')"
  by code_simp+

lemma sample_cmd: "zk_request_command (Some ''GET'') [] = Some ''get''"
  "zk_request_command (Some ''PUT'') [] = Some ''set''"
  "zk_request_command (Some ''GET'') ''cmd=stat'' = Some ''stat''"
  by code_simp+

lemma sample_asks:
  "asks_for (sample_request ''/esdc/a'' hs b) ''GET'' ''get'' ''/esdc/a''"
  "asks_for (sample_request ''/esdc/a'' hs b) ''PUT'' ''set'' ''/esdc/a''"
  "asks_for (sample_request ''/esdc/a?cmd=stat'' hs b) ''GET'' ''stat'' ''/esdc/a''"
  using sample_url sample_cmd by (simp_all add: asks_for_def sample_request_def zk_methods_def)

lemma sample_cmds_known: "''get'' \<in> set zk_commands" "''set'' \<in> set zk_commands"
  by (simp_all add: zk_commands_def)

lemma sample_no_header: "header_get [] k = None"
  by (simp add: header_get_def)

lemma sample_lower: "ascii_lower ''Content-Length'' = ''content-length''"
  "ascii_lower ''content-length'' = ''content-length''" "ascii_lower ''zk-username'' = ''zk-username''"
  "ascii_lower ''zk-password'' = ''zk-password''"
  by code_simp+

lemma sample_length: "header_get [(''content-length'', v)] ''Content-Length'' = Some v"
  "header_get [(''content-length'', v)] ''zk-username'' = None"
  "header_get [(''content-length'', v)] ''zk-password'' = None"
  by (simp_all add: header_get_def sample_lower)

theorem esdc_status_from_result_witness:
  "let w = sample_request ''/esdc/a'' [] []; w1 = w\<lparr>rq_method := Some ''GET'', rq_content := Some []\<rparr>;
       argv = [''zookeepercli'', ''-servers'', ''127.0.0.1'', ''-c'', ''get'', ''/esdc/a''];
       err = ''2020 FATAL zk: node does not exist'' in
   \<exists>w'. esdc_serve sample_js sample_zkenv ''GET'' w = (Ret (), w') \<and> calls w' = calls w1 @ [Popen argv]
     \<and> rq_out w' = rq_out w1 @
         (if (1::int) = 0 then json_answer sample_js 200 (zk_result 1 (py_strip []) (py_strip err))
          else if py_strip err = [] then [SendError 500 ''Internal Server Error'']
          else json_answer sample_js 400 (zk_result 1 (py_strip []) (py_strip err)))"
proof -
  let ?err = "''2020 FATAL zk: node does not exist''"
  show ?thesis
    unfolding Let_def
  proof (rule esdc_status_from_result [OF sample_asks(1) sample_cmds_known(1), where data = "[]"])
    show "utf8_valid (py_strip [])" "utf8_valid (py_strip ?err)"
      by code_simp+
  qed (simp_all add: sample_zk_defs sample_no_header parse_json_content_def content_def read_body_def
      io_simps zk_headers_cmd_def zk_build_cmd_def zk_option_def validate_string_input_def dict_get_def
      zk_base_cmd_def zk_servers_def environ_get_def default_string_max_length_def py_len_def)
qed

theorem esdc_refuses_large_data_witness:
  "let w = sample_request ''/esdc/a'' [(''content-length'', ''1'')] ''D'';
       w1 = w\<lparr>rq_method := Some ''PUT'', rq_content := Some ''D'', rq_rfile := []\<rparr> in
   esdc_serve sample_js sample_zkenv ''PUT'' w =
     (Ret (), w1\<lparr>rq_out := rq_out w1 @
        json_answer sample_js 413 (PDict [(''data'', PStr ''Too large.'')])\<rparr>)"
proof -
  have one: "py_int ''1'' = Ret 1" by code_simp
  have len: "zk_data_size_limit < py_len (replicate 2097153 (CHR ''x''))"
    by (simp add: py_len_def zk_data_size_limit_def)
  show ?thesis
    unfolding Let_def
  proof (rule esdc_refuses_large_data [OF sample_asks(2) sample_cmds_known(2) _ _ len,
        where data = "[(''data'', PStr (replicate 2097153 (CHR ''x'')))]"])
    show "py_len ''/esdc/a'' \<le> default_string_max_length" by code_simp
  qed (simp_all add: sample_zk_defs sample_length parse_json_content_def content_def read_body_def
      io_simps one dict_get_def Let_def)
qed

end
