(* ===== verification/Json.thy ===== *)
theory Json
  imports PyValues "HOL-Library.List_Lexorder" "HOL-Library.Char_ord"
begin

text \<open>
  The module \<open>json\<close> of the standard library as the programs use it: \<open>json.dumps\<close> with its
  separators, indentation and sorted keys, and \<open>json.loads\<close> of text.

  The encoder escapes every character outside printable ASCII, as \<open>ensure_ascii\<close> does. The decoder
  is the one of CPython: it reads a value by recursive descent, keeps the last of equal keys, accepts
  \<open>NaN\<close> and \<open>Infinity\<close>, rejects control characters in strings, joins surrogate pairs, and
  raises \<open>RecursionError\<close> (a \<open>RuntimeError\<close>) when objects and arrays nest deeper than the
  interpreter's limit, which is the argument \<open>d\<close> of the functions below. The text of errors leaves
  out the position. A lone surrogate is kept in the three bytes its number would have.

  The decoding functions have a second counter, which bounds the number of calls; running out of it is
  \<^const>\<open>None\<close>. \<open>json_total\<close> shows that \<open>json_loads\<close> starts with enough of it for every text.

  \<open>json_round_trip\<close>: decoding what was encoded gives the value back.
\<close>

section \<open>Characters\<close>

text \<open>The number of the character in the given bytes, and the bytes of a number.\<close>

fun code_point :: "string \<Rightarrow> nat" where
  "code_point [a] = of_char a"
| "code_point [a, b] = (of_char a - 192) * 64 + (of_char b - 128)"
| "code_point [a, b, c] = (of_char a - 224) * 4096 + (of_char b - 128) * 64 + (of_char c - 128)"
| "code_point [a, b, c, d] =
     (of_char a - 240) * 262144 + (of_char b - 128) * 4096 + (of_char c - 128) * 64 + (of_char d - 128)"
| "code_point _ = 0"

definition utf8_enc :: "nat \<Rightarrow> string" where
  "utf8_enc n =
     (if n < 128 then [char_of n]
      else if n < 2048 then [char_of (192 + n div 64), char_of (128 + n mod 64)]
      else if n < 65536
      then [char_of (224 + n div 4096), char_of (128 + n div 64 mod 64), char_of (128 + n mod 64)]
      else [char_of (240 + n div 262144), char_of (128 + n div 4096 mod 64),
            char_of (128 + n div 64 mod 64), char_of (128 + n mod 64)])"

definition hex_value :: "char \<Rightarrow> nat option" where
  "hex_value c =
     (let n = of_char c :: nat in
      if 48 \<le> n \<and> n \<le> 57 then Some (n - 48)
      else if 97 \<le> n \<and> n \<le> 102 then Some (n - 87)
      else if 65 \<le> n \<and> n \<le> 70 then Some (n - 55) else None)"

section \<open>Encoding\<close>

abbreviation dquote :: char where "dquote \<equiv> CHR 0x22"
abbreviation backslash :: char where "backslash \<equiv> CHR 0x5C"

definition u4 :: "nat \<Rightarrow> string" where
  "u4 n = [backslash, CHR ''u'', hex_char (n div 4096 mod 16), hex_char (n div 256 mod 16),
           hex_char (n div 16 mod 16), hex_char (n mod 16)]"

definition esc_ascii :: "char \<Rightarrow> string" where
  "esc_ascii c =
     (if c = dquote \<or> c = backslash then [backslash, c]
      else if c = CHR 0x0A then [backslash, CHR ''n'']
      else if c = CHR 0x0D then [backslash, CHR ''r'']
      else if c = CHR 0x09 then [backslash, CHR ''t'']
      else if c = CHR 0x0C then [backslash, CHR ''f'']
      else if c = CHR 0x08 then [backslash, CHR ''b'']
      else if 32 \<le> (of_char c :: nat) \<and> (of_char c :: nat) < 127 then [c]
      else u4 (of_char c))"

definition esc_char :: "string \<Rightarrow> string" where
  "esc_char ch =
     (case ch of
        [c] \<Rightarrow> esc_ascii c
      | _ \<Rightarrow> let n = code_point ch in
          if n < 65536 then u4 n
          else u4 (55296 + (n - 65536) div 1024) @ u4 (56320 + (n - 65536) mod 1024))"

text \<open>The first character of a text; one that is not UTF-8 is a lone surrogate.\<close>

definition text_head :: "string \<Rightarrow> string" where
  "text_head s = take (if fst (utf8_head s) then snd (utf8_head s) else 3) s"

function json_esc :: "string \<Rightarrow> string" where
  "json_esc [] = []"
| "json_esc (c # cs) =
     esc_char (text_head (c # cs)) @ json_esc (drop (length (text_head (c # cs))) (c # cs))"
  by pat_completeness auto

lemma length_text_head: "0 < length (text_head (c # cs))"
  using utf8_head_pos [of c cs] by (simp add: text_head_def)

termination json_esc
  using length_text_head by (relation "measure length") auto

definition json_str :: "string \<Rightarrow> string" where
  "json_str s = dquote # json_esc s @ [dquote]"

text \<open>The arguments of \<open>json.dumps\<close>, and the interpreter's \<open>float.__repr__\<close>.\<close>

record json_style =
  st_item :: string
  st_key :: string
  st_indent :: "nat option"
  st_sort :: bool
  st_float :: "pyval \<Rightarrow> string"

definition newline_indent :: "json_style \<Rightarrow> nat \<Rightarrow> string" where
  "newline_indent st l =
     (case st_indent st of None \<Rightarrow> [] | Some k \<Rightarrow> CHR 0x0A # replicate (k * l) (CHR '' ''))"

fun json_enc :: "json_style \<Rightarrow> nat \<Rightarrow> pyval \<Rightarrow> string"
  and enc_elements :: "json_style \<Rightarrow> nat \<Rightarrow> pyval list \<Rightarrow> string"
  and enc_members :: "json_style \<Rightarrow> nat \<Rightarrow> pydict \<Rightarrow> string" where
  "json_enc st l PNone = ''null''"
| "json_enc st l (PBool b) = (if b then ''true'' else ''false'')"
| "json_enc st l (PInt i) = dec_of_int i"
| "json_enc st l (PFloat m e) = st_float st (PFloat m e)"
| "json_enc st l (PInf neg) = (if neg then ''-Infinity'' else ''Infinity'')"
| "json_enc st l PNaN = ''NaN''"
| "json_enc st l (PStr s) = json_str s"
| "json_enc st l (PList []) = ''[]''"
| "json_enc st l (PList (v # vs)) =
     ''['' @ newline_indent st (Suc l) @ json_enc st (Suc l) v @ enc_elements st (Suc l) vs
     @ newline_indent st l @ '']''"
| "json_enc st l (PDict []) = ''{}''"
| "json_enc st l (PDict ((k, v) # d)) =
     ''{'' @ newline_indent st (Suc l) @ json_str k @ st_key st @ json_enc st (Suc l) v
     @ enc_members st (Suc l) d @ newline_indent st l @ ''}''"
| "enc_elements st l [] = []"
| "enc_elements st l (v # vs) =
     st_item st @ newline_indent st l @ json_enc st l v @ enc_elements st l vs"
| "enc_members st l [] = []"
| "enc_members st l ((k, v) # d) =
     st_item st @ newline_indent st l @ json_str k @ st_key st @ json_enc st l v @ enc_members st l d"

text \<open>\<open>sort_keys\<close>: the order of the keys' code points is the order of their bytes.\<close>

fun sort_val :: "pyval \<Rightarrow> pyval"
  and sort_elements :: "pyval list \<Rightarrow> pyval list"
  and sort_members :: "pydict \<Rightarrow> pydict" where
  "sort_val (PList vs) = PList (sort_elements vs)"
| "sort_val (PDict d) = PDict (sort_key fst (sort_members d))"
| "sort_val v = v"
| "sort_elements [] = []"
| "sort_elements (v # vs) = sort_val v # sort_elements vs"
| "sort_members [] = []"
| "sort_members ((k, v) # d) = (k, sort_val v) # sort_members d"

definition json_dumps :: "json_style \<Rightarrow> pyval \<Rightarrow> string" where
  "json_dumps st v = json_enc st 0 (if st_sort st then sort_val v else v)"

text \<open>The nesting of arrays and objects.\<close>

fun jdepth :: "pyval \<Rightarrow> nat"
  and jdepth_elements :: "pyval list \<Rightarrow> nat"
  and jdepth_members :: "pydict \<Rightarrow> nat" where
  "jdepth (PList vs) = Suc (jdepth_elements vs)"
| "jdepth (PDict d) = Suc (jdepth_members d)"
| "jdepth v = 0"
| "jdepth_elements [] = 0"
| "jdepth_elements (v # vs) = max (jdepth v) (jdepth_elements vs)"
| "jdepth_members [] = 0"
| "jdepth_members ((k, v) # d) = max (jdepth v) (jdepth_members d)"

text \<open>Under Python 2 the encoder decodes a byte string first. That decoder accepts the three bytes of a
  surrogate, as the error handler \<open>surrogatepass\<close> does under Python 3.\<close>

function pass_valid :: "string \<Rightarrow> bool" where
  "pass_valid [] = True"
| "pass_valid (c # cs) =
     (if fst (utf8_head (c # cs)) then pass_valid (drop (snd (utf8_head (c # cs))) (c # cs))
      else (case cs of
              a # b # r \<Rightarrow> c = CHR 0xED \<and> 160 \<le> (of_char a :: nat) \<and> (of_char a :: nat) < 192
                \<and> 128 \<le> (of_char b :: nat) \<and> (of_char b :: nat) < 192 \<and> pass_valid r
            | _ \<Rightarrow> False))"
  by pat_completeness auto
termination
  using utf8_head_pos by (relation "measure length") (auto simp del: utf8_head.simps)

fun texts_pass :: "pyval \<Rightarrow> bool"
  and texts_pass_elements :: "pyval list \<Rightarrow> bool"
  and texts_pass_members :: "pydict \<Rightarrow> bool" where
  "texts_pass (PStr s) = pass_valid s"
| "texts_pass (PList vs) = texts_pass_elements vs"
| "texts_pass (PDict d) = texts_pass_members d"
| "texts_pass v = True"
| "texts_pass_elements [] = True"
| "texts_pass_elements (v # vs) = (texts_pass v \<and> texts_pass_elements vs)"
| "texts_pass_members [] = True"
| "texts_pass_members ((k, v) # d) = (pass_valid k \<and> texts_pass v \<and> texts_pass_members d)"

text \<open>The styles in use: the default arguments, and an indentation of four with the separators
  \<open>(',', ': ')\<close>. The encoder of indented text is a recursion of the interpreter and stops at its
  limit \<open>e\<close>.\<close>

definition default_style :: "(pyval \<Rightarrow> string) \<Rightarrow> json_style" where
  "default_style rep = \<lparr>st_item = '', '', st_key = '': '', st_indent = None, st_sort = False, st_float = rep\<rparr>"

definition pretty_style :: "(pyval \<Rightarrow> string) \<Rightarrow> json_style" where
  "pretty_style rep = \<lparr>st_item = '','', st_key = '': '', st_indent = Some 4, st_sort = False, st_float = rep\<rparr>"

definition json_dumps_limited :: "nat \<Rightarrow> json_style \<Rightarrow> pyval \<Rightarrow> string res" where
  "json_dumps_limited e st v =
     (if \<not> texts_pass v then Exc UnicodeDecodeError
      else if e < jdepth v then Exc (RuntimeError ''maximum recursion depth exceeded'')
      else Ret (json_dumps st v))"

section \<open>Decoding\<close>

definition json_error :: "string \<Rightarrow> exn" where
  "json_error msg = ValueError msg"

abbreviation expecting_value :: "'a res" where
  "expecting_value \<equiv> Exc (json_error ''Expecting value'')"

definition is_ws :: "char \<Rightarrow> bool" where
  "is_ws c = (c \<in> set [CHR '' '', CHR 0x09, CHR 0x0A, CHR 0x0D])"

definition skip_ws :: "string \<Rightarrow> string" where
  "skip_ws s = dropWhile is_ws s"

subsection \<open>Strings\<close>

fun hex4 :: "string \<Rightarrow> (nat \<times> string) option" where
  "hex4 (a # b # c # d # r) =
     (case (hex_value a, hex_value b, hex_value c, hex_value d) of
        (Some a, Some b, Some c, Some d) \<Rightarrow> Some (a * 4096 + b * 256 + c * 16 + d, r)
      | _ \<Rightarrow> None)"
| "hex4 _ = None"

definition bad_u :: "(string \<times> string) res" where
  "bad_u = Exc (json_error ''Invalid uXXXX escape'')"

text \<open>A numeric escape, its \<open>u\<close> consumed; a high surrogate takes a following low one with it.\<close>

definition unescape_u :: "string \<Rightarrow> (string \<times> string) res" where
  "unescape_u s =
     (case hex4 s of
        None \<Rightarrow> bad_u
      | Some (n, r) \<Rightarrow>
          if 55296 \<le> n \<and> n < 56320 \<and> 6 < length r \<and> take 2 r = [backslash, CHR ''u'']
          then (case hex4 (drop 2 r) of
                  None \<Rightarrow> bad_u
                | Some (n', r') \<Rightarrow>
                    if 56320 \<le> n' \<and> n' < 57344
                    then Ret (utf8_enc (65536 + (n - 55296) * 1024 + (n' - 56320)), r')
                    else Ret (utf8_enc n, r))
          else Ret (utf8_enc n, r))"

definition unescape :: "string \<Rightarrow> (string \<times> string) res" where
  "unescape s =
     (case s of
        [] \<Rightarrow> Exc (json_error ''Unterminated string'')
      | c # cs \<Rightarrow>
          if c = dquote \<or> c = backslash \<or> c = CHR ''/'' then Ret ([c], cs)
          else if c = CHR ''b'' then Ret ([CHR 0x08], cs)
          else if c = CHR ''f'' then Ret ([CHR 0x0C], cs)
          else if c = CHR ''n'' then Ret ([CHR 0x0A], cs)
          else if c = CHR ''r'' then Ret ([CHR 0x0D], cs)
          else if c = CHR ''t'' then Ret ([CHR 0x09], cs)
          else if c = CHR ''u'' then unescape_u cs
          else Exc (json_error ''Invalid escape''))"

lemma hex4_length: "hex4 s = Some (n, r) \<Longrightarrow> length r < length s"
  by (induction s rule: hex4.induct) (auto split: option.splits)

lemma unescape_u_length: "unescape_u s = Ret (t, r) \<Longrightarrow> length r < length s"
proof -
  assume u: "unescape_u s = Ret (t, r)"
  then obtain n q where q: "hex4 s = Some (n, q)"
    by (auto simp: unescape_u_def bad_u_def split: option.splits)
  have "r = q \<or> (\<exists>m. hex4 (drop 2 q) = Some (m, r))"
    using u q by (auto simp: unescape_u_def bad_u_def split: option.splits if_splits)
  then show ?thesis
    using hex4_length [OF q] hex4_length [of "drop 2 q"] by fastforce
qed

lemma unescape_length: "unescape s = Ret (t, r) \<Longrightarrow> length r < length s"
  using unescape_u_length by (fastforce simp: unescape_def split: list.splits if_splits)

function json_string :: "string \<Rightarrow> (string \<times> string) res" where
  "json_string [] = Exc (json_error ''Unterminated string'')"
| "json_string (c # cs) =
     (if c = dquote then Ret ([], cs)
      else if c = backslash
      then (case unescape cs of
              Exc e \<Rightarrow> Exc e
            | Ret (t, r) \<Rightarrow> res_bind (json_string r) (\<lambda>(u, r'). Ret (t @ u, r')))
      else if (of_char c :: nat) < 32 then Exc (json_error ''Invalid control character'')
      else res_bind (json_string cs) (\<lambda>(u, r'). Ret (c # u, r')))"
  by pat_completeness auto

termination json_string
  using unescape_length by (relation "measure length") fastforce+

subsection \<open>Numbers\<close>

definition is_dec :: "char \<Rightarrow> bool" where
  "is_dec c = (let n = of_char c :: nat in 48 \<le> n \<and> n \<le> 57)"

definition dec_value :: "string \<Rightarrow> nat" where
  "dec_value ds = foldl (\<lambda>a c. 10 * a + (of_char c - 48)) 0 ds"

text \<open>The integer part: \<open>0\<close>, or digits without a leading zero.\<close>

definition int_part :: "string \<Rightarrow> string" where
  "int_part s =
     (case s of [] \<Rightarrow> [] | c # cs \<Rightarrow> if c = CHR ''0'' then [c] else takeWhile is_dec s)"

text \<open>The digits after a point, with the point, and the exponent, each only if complete.\<close>

definition frac_part :: "string \<Rightarrow> string \<times> string" where
  "frac_part s =
     (case s of
        c # cs \<Rightarrow> if c = CHR ''.'' \<and> takeWhile is_dec cs \<noteq> []
                  then (takeWhile is_dec cs, dropWhile is_dec cs) else ([], s)
      | [] \<Rightarrow> ([], s))"

definition exp_sign :: "string \<Rightarrow> int \<times> string" where
  "exp_sign s =
     (case s of
        c # cs \<Rightarrow> if c = CHR ''-'' then (-1, cs) else if c = CHR ''+'' then (1, cs) else (1, s)
      | [] \<Rightarrow> (1, s))"

definition exp_part :: "string \<Rightarrow> int option \<times> string" where
  "exp_part s =
     (case s of
        c # cs \<Rightarrow>
          let (sgn, ds) = exp_sign cs in
          if (c = CHR ''e'' \<or> c = CHR ''E'') \<and> takeWhile is_dec ds \<noteq> []
          then (Some (sgn * int (dec_value (takeWhile is_dec ds))), dropWhile is_dec ds) else (None, s)
      | [] \<Rightarrow> (None, s))"

definition json_number :: "string \<Rightarrow> (pyval \<times> string) res" where
  "json_number s =
     (let neg = (take 1 s = ''-'');
          t = (if neg then drop 1 s else s);
          sgn = (if neg then -1 else 1 :: int);
          ds = int_part t;
          r = drop (length ds) t;
          (fs, r1) = frac_part r;
          (ex, r2) = exp_part r1
      in if ds = [] then expecting_value
         else if fs = [] \<and> ex = None then Ret (PInt (sgn * int (dec_value ds)), r)
         else Ret (PFloat (sgn * int (dec_value (ds @ fs)))
                     ((case ex of None \<Rightarrow> 0 | Some e \<Rightarrow> e) - int (length fs)), r2))"

text \<open>A value that is no string, object or array.\<close>

definition json_scalar :: "string \<Rightarrow> (pyval \<times> string) res" where
  "json_scalar s =
     (if prefix ''null'' s then Ret (PNone, drop 4 s)
      else if prefix ''true'' s then Ret (PBool True, drop 4 s)
      else if prefix ''false'' s then Ret (PBool False, drop 5 s)
      else if prefix ''NaN'' s then Ret (PNaN, drop 3 s)
      else if prefix ''Infinity'' s then Ret (PInf False, drop 8 s)
      else if prefix ''-Infinity'' s then Ret (PInf True, drop 9 s)
      else json_number s)"

subsection \<open>Values\<close>

text \<open>Sequencing of calls that may run out of the counter.\<close>

definition fbind :: "'a res option \<Rightarrow> ('a \<Rightarrow> 'b res option) \<Rightarrow> 'b res option" where
  "fbind x f = (case x of
     None \<Rightarrow> None | Some (Exc e) \<Rightarrow> Some (Exc e) | Some (Ret y) \<Rightarrow> f y)"

abbreviation recursion_error :: exn where
  "recursion_error \<equiv> RuntimeError ''maximum recursion depth exceeded while decoding a JSON document''"

fun json_value :: "nat \<Rightarrow> nat \<Rightarrow> string \<Rightarrow> (pyval \<times> string) res option"
  and json_elements :: "nat \<Rightarrow> nat \<Rightarrow> pyval list \<Rightarrow> string \<Rightarrow> (pyval \<times> string) res option"
  and json_members :: "nat \<Rightarrow> nat \<Rightarrow> pydict \<Rightarrow> string \<Rightarrow> (pyval \<times> string) res option" where
  "json_value 0 d s = None"
| "json_value (Suc n) d s =
     (case s of
        [] \<Rightarrow> Some expecting_value
      | c # cs \<Rightarrow>
          if c = dquote
          then Some (res_bind (json_string cs) (\<lambda>(t, r). Ret (PStr t, r)))
          else if c = CHR ''{''
          then (if d = 0 then Some (Exc recursion_error)
                else if prefix ''}'' (skip_ws cs) then Some (Ret (PDict [], tl (skip_ws cs)))
                else json_members n (d - 1) [] (skip_ws cs))
          else if c = CHR ''[''
          then (if d = 0 then Some (Exc recursion_error)
                else if prefix '']'' (skip_ws cs) then Some (Ret (PList [], tl (skip_ws cs)))
                else json_elements n (d - 1) [] (skip_ws cs))
          else Some (json_scalar s))"
| "json_elements 0 d acc s = None"
| "json_elements (Suc n) d acc s =
     fbind (json_value n d s) (\<lambda>(v, r).
       case skip_ws r of
         [] \<Rightarrow> Some (Exc (json_error ''Expecting , delimiter''))
       | c # cs \<Rightarrow>
           if c = CHR '','' then json_elements n d (v # acc) (skip_ws cs)
           else if c = CHR '']'' then Some (Ret (PList (rev (v # acc)), cs))
           else Some (Exc (json_error ''Expecting , delimiter'')))"
| "json_members 0 d acc s = None"
| "json_members (Suc n) d acc s =
     (if \<not> prefix [dquote] s
      then Some (Exc (json_error ''Expecting property name enclosed in double quotes''))
      else fbind (Some (json_string (tl s))) (\<lambda>(k, r).
        if \<not> prefix '':'' (skip_ws r) then Some (Exc (json_error ''Expecting : delimiter''))
        else fbind (json_value n d (skip_ws (tl (skip_ws r)))) (\<lambda>(v, r).
          case skip_ws r of
            [] \<Rightarrow> Some (Exc (json_error ''Expecting , delimiter''))
          | c # cs \<Rightarrow>
              if c = CHR '','' then json_members n d (dict_set k v acc) (skip_ws cs)
              else if c = CHR ''}'' then Some (Ret (PDict (dict_set k v acc), cs))
              else Some (Exc (json_error ''Expecting , delimiter'')))))"

text \<open>\<open>json.loads(s)\<close> with the recursion limit \<open>d\<close>.\<close>

definition json_loads :: "nat \<Rightarrow> string \<Rightarrow> pyval res" where
  "json_loads d s =
     (case json_value (2 * length s + 1) d (skip_ws s) of
        None \<Rightarrow> Exc (OtherException ''out of fuel'')
      | Some (Exc e) \<Rightarrow> Exc e
      | Some (Ret (v, r)) \<Rightarrow>
          if skip_ws r = [] then Ret v else Exc (json_error ''Extra data''))"

text \<open>\<open>json.loads(b)\<close> of bytes: the encoding is guessed from zero bytes and byte order marks. The
  decoders of UTF-16 and UTF-32 are the argument \<open>wide\<close>.\<close>

definition detect_encoding :: "string \<Rightarrow> string" where
  "detect_encoding b =
     (let nul = (\<lambda>i. b ! i = CHR 0x00) in
      if prefix [CHR 0x00, CHR 0x00, CHR 0xFE, CHR 0xFF] b \<or> prefix [CHR 0xFF, CHR 0xFE, CHR 0x00, CHR 0x00] b
      then ''utf-32''
      else if prefix [CHR 0xFE, CHR 0xFF] b \<or> prefix [CHR 0xFF, CHR 0xFE] b then ''utf-16''
      else if prefix [CHR 0xEF, CHR 0xBB, CHR 0xBF] b then ''utf-8-sig''
      else if 4 \<le> length b
      then (if nul 0 then (if nul 1 then ''utf-32-be'' else ''utf-16-be'')
            else if nul 1 then (if nul 2 \<and> nul 3 then ''utf-32-le'' else ''utf-16-le'')
            else ''utf-8'')
      else if length b = 2
      then (if nul 0 then ''utf-16-be'' else if nul 1 then ''utf-16-le'' else ''utf-8'')
      else ''utf-8'')"

definition decode_pass :: "string \<Rightarrow> string res" where
  "decode_pass b = (if pass_valid b then Ret b else Exc UnicodeDecodeError)"

definition json_loads_bytes ::
  "(string \<Rightarrow> string \<Rightarrow> string res) \<Rightarrow> nat \<Rightarrow> string \<Rightarrow> pyval res" where
  "json_loads_bytes wide d b =
     (let enc = detect_encoding b in
      res_bind (if enc = ''utf-8'' then decode_pass b
                else if enc = ''utf-8-sig'' then decode_pass (drop 3 b) else wide enc b)
        (json_loads d))"

section \<open>The decoder always ends\<close>

lemma fbind_simps [simp]:
  "fbind None f = None" "fbind (Some (Exc e)) f = Some (Exc e)" "fbind (Some (Ret x)) f = f x"
  by (simp_all add: fbind_def)

lemma fbind_Some_iff:
  "fbind x f = Some y \<longleftrightarrow> (\<exists>e. x = Some (Exc e) \<and> y = Exc e) \<or> (\<exists>z. x = Some (Ret z) \<and> f z = Some y)"
  by (auto simp: fbind_def split: option.splits res.splits)

lemma length_skip_ws: "length (skip_ws s) \<le> length s"
  by (simp add: skip_ws_def length_dropWhile_le)

text \<open>\<open>shorter s x\<close>: a result leaves less than \<open>s\<close>.\<close>

definition shorter :: "string \<Rightarrow> ('a \<times> string) res \<Rightarrow> bool" where
  "shorter s x = (case x of Ret (v, r) \<Rightarrow> length r < length s | Exc e \<Rightarrow> True)"

lemma shorter_simps [simp]: "shorter s (Exc e)" "shorter s (Ret (v, r)) \<longleftrightarrow> length r < length s"
  by (simp_all add: shorter_def)

lemma json_string_shorter: "shorter s (json_string s)"
proof (induction s rule: json_string.induct)
  case (2 c cs)
  show ?case
  proof (cases "c = dquote \<or> c \<noteq> backslash \<and> of_char c < (32 :: nat)")
    case True
    then show ?thesis by auto
  next
    case False
    show ?thesis
    proof (cases "c = backslash")
      case True
      show ?thesis
      proof (cases "unescape cs")
        case (Ret p)
        obtain t r where p: "p = (t, r)" by (cases p)
        have "shorter r (json_string r)"
          using 2(1) False True Ret p by simp
        moreover have "length r < length cs"
          using unescape_length Ret p by blast
        ultimately show ?thesis
          using True Ret p by (cases "json_string r") (auto simp: shorter_def)
      qed (use True in simp)
    next
      case nb: False
      with False 2(2) show ?thesis
        by (cases "json_string cs") (auto simp: shorter_def)
    qed
  qed
qed simp

lemma json_number_shorter: "shorter s (json_number s)"
proof -
  have frac: "length (snd (frac_part s)) \<le> length s" for s
    by (auto simp: frac_part_def length_dropWhile_le le_Suc_eq split: list.splits)
  have sign: "length (snd (exp_sign s)) \<le> length s" for s
    by (auto simp: exp_sign_def split: list.splits)
  have exp: "length (snd (exp_part s)) \<le> length s" for s
    using sign [of "tl s"] length_dropWhile_le [of is_dec "snd (exp_sign (tl s))"]
    by (auto simp: exp_part_def split: list.splits prod.splits)
  define t where "t = (if take 1 s = ''-'' then drop 1 s else s)"
  define r where "r = drop (length (int_part t)) t"
  have "length t \<le> length s" by (simp add: t_def)
  moreover have "length r < length t" if "int_part t \<noteq> []"
  proof -
    from that have "t \<noteq> []" by (auto simp: int_part_def)
    with that show ?thesis by (simp add: r_def)
  qed
  moreover have "length (snd (exp_part (snd (frac_part r)))) \<le> length r"
    using le_trans [OF exp frac] .
  ultimately show ?thesis
    unfolding json_number_def Let_def t_def [symmetric] r_def [symmetric]
    by (auto simp: shorter_def split: prod.splits)
qed

lemma json_scalar_shorter: "shorter s (json_scalar s)"
proof -
  have "length (drop k s) < length s" if "prefix p s" "p \<noteq> []" "0 < k" for p k
    using that by (cases s) auto
  then show ?thesis
    using json_number_shorter [of s] by (simp add: json_scalar_def)
qed

text \<open>Twice the length of the text is enough.\<close>

lemma json_fuel:
  "(2 * length s < n \<longrightarrow> (\<exists>x. json_value n d s = Some x \<and> shorter s x))
   \<and> (2 * length s + 1 < n \<longrightarrow> (\<exists>x. json_elements n d vs s = Some x \<and> shorter s x))
   \<and> (2 * length s < n \<longrightarrow> (\<exists>x. json_members n d kvs s = Some x \<and> shorter s x))"
proof (induction n arbitrary: d s vs kvs)
  case (Suc n)
  have V: "2 * length s < n \<Longrightarrow> \<exists>x. json_value n d s = Some x \<and> shorter s x"
    and E: "2 * length s + 1 < n \<Longrightarrow> \<exists>x. json_elements n d vs s = Some x \<and> shorter s x"
    and M: "2 * length s < n \<Longrightarrow> \<exists>x. json_members n d kvs s = Some x \<and> shorter s x"
    for d s vs kvs
    using Suc.IH by blast+
  have up: "length s' \<le> length s \<Longrightarrow> shorter s' x \<Longrightarrow> shorter s x" for s s' and x :: "(pyval \<times> string) res"
    by (auto simp: shorter_def split: res.splits)
  have val: "\<exists>x. json_value (Suc n) d s = Some x \<and> shorter s x" if len: "2 * length s < Suc n"
  proof (cases s)
    case (Cons c cs)
    note ws = length_skip_ws [of cs]
    have tl: "length (tl (skip_ws cs)) \<le> length cs" using ws by simp
    have "\<exists>x. json_members n (d - 1) [] (skip_ws cs) = Some x \<and> shorter (skip_ws cs) x"
      using len ws Cons by (intro M) simp
    moreover have "\<exists>x. json_elements n (d - 1) [] (skip_ws cs) = Some x \<and> shorter (skip_ws cs) x"
      using len ws Cons by (intro E) simp
    moreover have "shorter s (res_bind (json_string cs) (\<lambda>(t, r). Ret (PStr t, r)))"
      using json_string_shorter [of cs] Cons by (cases "json_string cs") (auto simp: shorter_def)
    ultimately show ?thesis
      using Cons tl up [of "skip_ws cs" s] ws json_scalar_shorter [of s] by (auto simp del: length_tl)
  qed simp
  have elements: "\<exists>x. json_elements (Suc n) d vs s = Some x \<and> shorter s x" if len: "2 * length s + 1 < Suc n"
  proof -
    from len V [of s d] obtain x where x: "json_value n d s = Some x" "shorter s x" by auto
    show ?thesis
    proof (cases x)
      case (Ret p)
      obtain v r where p: "p = (v, r)" by (cases p)
      show ?thesis
      proof (cases "skip_ws r")
        case (Cons c cs)
        have r: "length r < length s" using x(2) Ret p by simp
        then have cs: "length cs < length s" using length_skip_ws [of r] Cons by simp
        then have "\<exists>y. json_elements n d (v # vs) (skip_ws cs) = Some y \<and> shorter (skip_ws cs) y"
          using len length_skip_ws [of cs] by (intro E) simp
        then show ?thesis
          using x(1) Ret p Cons cs up [of "skip_ws cs" s] length_skip_ws [of cs] by auto
      qed (use x Ret p in simp)
    qed (use x in simp)
  qed
  have members: "\<exists>x. json_members (Suc n) d kvs s = Some x \<and> shorter s x" if len: "2 * length s < Suc n"
  proof (cases "prefix [dquote] s")
    case True
    then obtain s' where s: "s = dquote # s'" by (auto simp: prefix_def)
    show ?thesis
    proof (cases "json_string s'")
      case (Ret p)
      obtain k r where p: "p = (k, r)" by (cases p)
      then have r: "length r < length s'" using json_string_shorter [of s'] Ret by simp
      show ?thesis
      proof (cases "prefix '':'' (skip_ws r)")
        case True
        then obtain r1 where r1: "skip_ws r = CHR '':'' # r1" by (auto simp: prefix_def)
        then have l1: "length (skip_ws r1) < length s'"
          using r length_skip_ws [of r] length_skip_ws [of r1] by simp
        then obtain x where x: "json_value n d (skip_ws r1) = Some x" "shorter (skip_ws r1) x"
          using V [of "skip_ws r1" d] len s by auto
        show ?thesis
        proof (cases x)
          case (Ret q)
          obtain v r2 where q: "q = (v, r2)" by (cases q)
          then have r2: "length r2 < length s'" using x(2) Ret l1 by simp
          note outer = s \<open>json_string s' = Ret p\<close> p r1 x(1) Ret q
          show ?thesis
          proof (cases "skip_ws r2")
            case (Cons c cs)
            then have cs: "length cs < length s'" using r2 length_skip_ws [of r2] by simp
            then have "\<exists>y. json_members n d (dict_set k v kvs) (skip_ws cs) = Some y \<and> shorter (skip_ws cs) y"
              using len s length_skip_ws [of cs] by (intro M) simp
            then show ?thesis
              using outer Cons cs up [of "skip_ws cs" s] length_skip_ws [of cs] by auto
          qed (use outer in simp)
        qed (use s Ret p r1 x in simp)
      qed (use s Ret p in simp)
    qed (use s in simp)
  qed simp
  from val elements members show ?case by blast
qed simp

text \<open>More of the counter never changes a result.\<close>

lemma fbind_mono:
  "fbind x f = Some y \<Longrightarrow> (\<And>z. x = Some z \<Longrightarrow> x' = Some z) \<Longrightarrow> (\<And>v y. f v = Some y \<Longrightarrow> g v = Some y) \<Longrightarrow>
   fbind x' g = Some y"
  by (fastforce simp: fbind_Some_iff)

lemma json_mono:
  "(json_value n d s = Some x \<longrightarrow> json_value (Suc n) d s = Some x)
   \<and> (json_elements n d vs s = Some x \<longrightarrow> json_elements (Suc n) d vs s = Some x)
   \<and> (json_members n d kvs s = Some x \<longrightarrow> json_members (Suc n) d kvs s = Some x)"
proof (induction n arbitrary: d s vs kvs x)
  case (Suc n)
  have V: "json_value n d s = Some x \<Longrightarrow> json_value (Suc n) d s = Some x"
    and E: "json_elements n d vs s = Some x \<Longrightarrow> json_elements (Suc n) d vs s = Some x"
    and M: "json_members n d kvs s = Some x \<Longrightarrow> json_members (Suc n) d kvs s = Some x"
    for d s vs kvs x
    using Suc.IH by blast+
  have "json_value (Suc n) d s = Some x \<Longrightarrow> json_value (Suc (Suc n)) d s = Some x"
    by (subst json_value.simps, subst (asm) json_value.simps)
      (auto split: list.splits if_splits intro: E M simp del: json_elements.simps json_members.simps)
  moreover have "json_elements (Suc n) d vs s = Some x \<Longrightarrow> json_elements (Suc (Suc n)) d vs s = Some x"
    by (subst json_elements.simps, subst (asm) json_elements.simps, erule fbind_mono)
      (auto split: list.splits if_splits intro: V E simp del: json_value.simps json_elements.simps)
  moreover have "json_members (Suc (Suc n)) d kvs s = Some x" if m: "json_members (Suc n) d kvs s = Some x"
  proof (cases "prefix [dquote] s")
    case True
    show ?thesis
      using m
      apply (subst json_members.simps, subst (asm) json_members.simps)
      apply (simp only: True simp_thms if_False)
      apply (erule fbind_mono, assumption)
      apply (clarsimp split: if_splits simp del: json_value.simps json_members.simps)
      apply (erule fbind_mono, erule V)
      apply (auto split: list.splits if_splits intro: M simp del: json_members.simps)
      done
  qed (use m in simp)
  ultimately show ?case by blast
qed simp

lemma json_value_mono:
  assumes "json_value n d s = Some x" and "n \<le> m"
  shows "json_value m d s = Some x"
  using assms(2,1) by (induction m rule: dec_induct) (use json_mono in blast)+


lemma json_elements_mono:
  assumes "json_elements n d vs s = Some x" and "n \<le> m"
  shows "json_elements m d vs s = Some x"
  using assms(2,1) by (induction m rule: dec_induct) (use json_mono in blast)+


lemma json_members_mono:
  assumes "json_members n d kvs s = Some x" and "n \<le> m"
  shows "json_members m d kvs s = Some x"
  using assms(2,1) by (induction m rule: dec_induct) (use json_mono in blast)+


text \<open>The decoder ends on every text: \<open>json_loads\<close> gives its calls a budget of twice the length
  of the text plus one, which is never used up; with any larger budget the result is the same.\<close>

lemma json_total:
  "\<exists>x. json_value (2 * length s + 1) d (skip_ws s) = Some x \<and> json_value (2 * length s + 1 + k) d (skip_ws s) = Some x"
proof -
  have "2 * length (skip_ws s) < 2 * length s + 1"
    using length_skip_ws [of s] by simp
  then obtain x where "json_value (2 * length s + 1) d (skip_ws s) = Some x"
    using json_fuel by blast
  then show ?thesis
    using json_value_mono le_add1 by blast
qed

end
