(* ===== verification/JsonString.thy ===== *)
theory JsonString
  imports Json
begin

text \<open>
  Decoding strings that were encoded: the arithmetic of UTF-8 and of numeric escapes, surrogate pairs
  included, up to \<open>json_string_esc\<close>: the decoder reads back every well-formed text.
\<close>

section \<open>Characters\<close>

lemma of_char_less_256 [simp]: "(of_char c :: nat) < 256"
  using nat_of_char_less_256 [of c] by simp

text \<open>The shapes of a well-formed first character.\<close>

definition two_bytes :: "char \<Rightarrow> char \<Rightarrow> bool" where
  "two_bytes a b = (194 \<le> (of_char a :: nat) \<and> (of_char a :: nat) < 224
     \<and> 128 \<le> (of_char b :: nat) \<and> (of_char b :: nat) < 192)"

definition three_bytes :: "char \<Rightarrow> char \<Rightarrow> char \<Rightarrow> bool" where
  "three_bytes a b c = (224 \<le> (of_char a :: nat) \<and> (of_char a :: nat) < 240
     \<and> 128 \<le> (of_char b :: nat) \<and> (of_char b :: nat) < 192
     \<and> 128 \<le> (of_char c :: nat) \<and> (of_char c :: nat) < 192
     \<and> ((of_char a :: nat) = 224 \<longrightarrow> 160 \<le> (of_char b :: nat))
     \<and> ((of_char a :: nat) = 237 \<longrightarrow> (of_char b :: nat) < 160))"

definition four_bytes :: "char \<Rightarrow> char \<Rightarrow> char \<Rightarrow> char \<Rightarrow> bool" where
  "four_bytes a b c d = (240 \<le> (of_char a :: nat) \<and> (of_char a :: nat) < 245
     \<and> 128 \<le> (of_char b :: nat) \<and> (of_char b :: nat) < 192
     \<and> 128 \<le> (of_char c :: nat) \<and> (of_char c :: nat) < 192
     \<and> 128 \<le> (of_char d :: nat) \<and> (of_char d :: nat) < 192
     \<and> ((of_char a :: nat) = 240 \<longrightarrow> 144 \<le> (of_char b :: nat))
     \<and> ((of_char a :: nat) = 244 \<longrightarrow> (of_char b :: nat) < 144))"

lemma utf8_head_cases:
  assumes "fst (utf8_head s)"
  obtains (one) a t where "s = a # t" "(of_char a :: nat) < 128" "text_head s = [a]" "snd (utf8_head s) = 1"
  | (two) a b t where "s = a # b # t" "two_bytes a b" "text_head s = [a, b]" "snd (utf8_head s) = 2"
  | (three) a b c t where "s = a # b # c # t" "three_bytes a b c" "text_head s = [a, b, c]"
      "snd (utf8_head s) = 3"
  | (four) a b c d t where "s = a # b # c # d # t" "four_bytes a b c d" "text_head s = [a, b, c, d]"
      "snd (utf8_head s) = 4"
proof -
  from assms obtain a t where s: "s = a # t" by (cases s) auto
  with assms obtain rs where rs: "utf8_tail (of_char a) = Some rs" "utf8_match rs t = length rs"
    by (auto simp: Let_def split: option.splits)
  have th: "text_head s = take (Suc (length rs)) s" "snd (utf8_head s) = Suc (length rs)"
    using assms s rs by (simp_all add: text_head_def Let_def)
  have "length rs < 4" using utf8_tail_length [OF rs(1)] by simp
  then consider "length rs = 0" | "length rs = 1" | "length rs = 2" | "length rs = 3"
    by linarith
  then show ?thesis
  proof cases
    case 1
    then show ?thesis
      using rs(1) s th one by (auto simp: utf8_tail_def split: if_splits)
  next
    case 2
    then obtain p where p: "rs = [p]" by (auto simp: length_Suc_conv)
    then obtain b t' where "t = b # t'" using rs(2) by (cases t) auto
    then show ?thesis
      using p rs s th two [of a b t'] by (auto simp: utf8_tail_def two_bytes_def split: if_splits)
  next
    case 3
    then obtain p q where p: "rs = [p, q]" by (auto simp: length_Suc_conv numeral_2_eq_2)
    then obtain b t1 where b: "t = b # t1" using rs(2) by (cases t) auto
    then obtain c t' where "t1 = c # t'"
      using rs(2) p by (cases t1; cases p) (auto split: if_splits)
    then show ?thesis
      using p b rs s th three [of a b c t']
      by (auto simp: utf8_tail_def three_bytes_def split: if_splits)
  next
    case 4
    then obtain p q u where p: "rs = [p, q, u]" by (auto simp: length_Suc_conv numeral_3_eq_3)
    then obtain b t1 where b: "t = b # t1" using rs(2) by (cases t) auto
    then obtain c t2 where c: "t1 = c # t2"
      using rs(2) p by (cases t1; cases p) (auto split: if_splits)
    then obtain d t' where "t2 = d # t'"
      using rs(2) p b by (cases t2; cases p; cases q) (auto split: if_splits)
    then show ?thesis
      using p b c rs s th four [of a b c d t']
      by (auto simp: utf8_tail_def four_bytes_def split: if_splits)
  qed
qed

lemma utf8_valid_shapes:
  "(of_char a :: nat) < 128 \<Longrightarrow> utf8_valid (a # t) = utf8_valid t"
  "two_bytes a b \<Longrightarrow> utf8_valid (a # b # t) = utf8_valid t"
  "three_bytes a b c \<Longrightarrow> utf8_valid (a # b # c # t) = utf8_valid t"
  "four_bytes a b c d \<Longrightarrow> utf8_valid (a # b # c # d # t) = utf8_valid t"
  by (auto simp: utf8_tail_def two_bytes_def three_bytes_def four_bytes_def)

text \<open>Text that is cut at an ASCII character stays well-formed.\<close>

lemma utf8_valid_cut:
  "utf8_valid (s @ c # r) \<Longrightarrow> (of_char c :: nat) < 128 \<Longrightarrow> utf8_valid s"
proof (induction "length s" arbitrary: s rule: less_induct)
  case less
  show ?case
  proof (cases s)
    case (Cons x xs)
    have "fst (utf8_head (s @ c # r))"
      using less.prems(1) Cons by (simp del: utf8_head.simps)
    then show ?thesis
    proof (cases rule: utf8_head_cases)
      case (one a t)
      then show ?thesis
        using less Cons by (auto simp: utf8_valid_shapes(1) simp del: utf8_valid.simps(2))
    next
      case (two a b t)
      then obtain ys where "s = a # b # ys"
        using less.prems(2) Cons by (cases xs) (auto simp: two_bytes_def)
      then show ?thesis
        using less two by (auto simp: utf8_valid_shapes(2) simp del: utf8_valid.simps(2))
    next
      case (three a b e t)
      then obtain ys where "s = a # b # e # ys"
        using less.prems(2) Cons by (cases xs; cases "tl xs") (auto simp: three_bytes_def)
      then show ?thesis
        using less three by (auto simp: utf8_valid_shapes(3) simp del: utf8_valid.simps(2))
    next
      case (four a b e f t)
      then obtain ys where "s = a # b # e # f # ys"
        using less.prems(2) Cons by (cases xs; cases "tl xs"; cases "tl (tl xs)") (auto simp: four_bytes_def)
      then show ?thesis
        using less four by (auto simp: utf8_valid_shapes(4) simp del: utf8_valid.simps(2))
    qed
  qed simp
qed

lemma utf8_valid_takeWhile:
  assumes "utf8_valid s" "(of_char c :: nat) < 128"
  shows "utf8_valid (takeWhile (\<lambda>x. x \<noteq> c) s)"
proof (cases "dropWhile (\<lambda>x. x \<noteq> c) s")
  case Nil
  then have "takeWhile (\<lambda>x. x \<noteq> c) s = s"
    by (metis append_Nil2 takeWhile_dropWhile_id)
  then show ?thesis using assms(1) by (simp only:)
next
  case (Cons y ys)
  then have "y = c" using hd_dropWhile [of "\<lambda>x. x \<noteq> c" s] by simp
  then show ?thesis
    using assms Cons utf8_valid_cut [of "takeWhile (\<lambda>x. x \<noteq> c) s" c ys]
    by (metis takeWhile_dropWhile_id)
qed

lemma horner64:
  fixes n d :: nat
  assumes "d < 64"
  shows "(n * 64 + d) div 64 = n" "(n * 64 + d) mod 64 = d"
  using assms by simp_all

lemma digits2:
  fixes x y n :: nat
  assumes "n = x * 64 + y" "y < 64" "2 \<le> x" "x < 32"
  shows "n div 64 = x" "n mod 64 = y" "128 \<le> n" "n < 2048"
  using assms horner64 [of y x] by simp_all

lemma digits3:
  fixes x y z n :: nat
  assumes "n = x * 4096 + y * 64 + z" "y < 64" "z < 64" "x < 16" "x = 0 \<longrightarrow> 32 \<le> y" "x = 13 \<longrightarrow> y < 32"
  shows "n div 4096 = x" "n div 64 mod 64 = y" "n mod 64 = z" "2048 \<le> n" "n < 65536"
    "n < 55296 \<or> 57344 \<le> n"
proof -
  have n: "n = (x * 64 + y) * 64 + z" by (simp add: assms(1) algebra_simps)
  show "n mod 64 = z" "n div 64 mod 64 = y"
    by (simp_all only: n horner64 assms)
  show "n div 4096 = x"
    using div_mult2_eq [of n 64 64] by (simp only: n horner64 assms) simp
  show "2048 \<le> n" "n < 65536" using assms by (cases "x = 0"; linarith)+
  show "n < 55296 \<or> 57344 \<le> n"
    using assms by (cases "x = 13"; cases "x < 13"; linarith)
qed

lemma digits4:
  fixes x y z u n :: nat
  assumes "n = x * 262144 + y * 4096 + z * 64 + u" "y < 64" "z < 64" "u < 64" "x < 5"
    "x = 0 \<longrightarrow> 16 \<le> y" "x = 4 \<longrightarrow> y < 16"
  shows "n div 262144 = x" "n div 4096 mod 64 = y" "n div 64 mod 64 = z" "n mod 64 = u"
    "65536 \<le> n" "n < 1114112"
proof -
  have n: "n = ((x * 64 + y) * 64 + z) * 64 + u" by (simp add: assms(1) algebra_simps)
  have d: "n div 64 = (x * 64 + y) * 64 + z" "n div 4096 = x * 64 + y"
    using div_mult2_eq [of n 64 64] by (simp_all only: n horner64 assms) simp
  show "n div 64 mod 64 = z" "n div 4096 mod 64 = y"
    by (simp_all only: d horner64 assms(2-4))
  show "n mod 64 = u"
    by (simp only: n horner64 assms(4))
  show "n div 262144 = x"
    using div_mult2_eq [of n 4096 64] by (simp only: d horner64 assms(2)) simp
  show "65536 \<le> n" using assms by (cases "x = 0"; linarith)
  show "n < 1114112" using assms by (cases "x = 4"; linarith)
qed

lemma of_char_split: "k \<le> of_char c \<Longrightarrow> \<exists>x. of_char c = k + x \<and> c = char_of (k + x :: nat)"
  by (rule exI [of _ "of_char c - k"]) simp

lemma utf8_enc_two:
  assumes "two_bytes a b"
  shows "utf8_enc (code_point [a, b]) = [a, b]" "128 \<le> code_point [a, b]" "code_point [a, b] < 2048"
proof -
  obtain x y :: nat where xy: "of_char a = 192 + x" "a = char_of (192 + x)" "of_char b = 128 + y"
    "b = char_of (128 + y)"
    using assms of_char_split [of 192 a] of_char_split [of 128 b] by (auto simp: two_bytes_def)
  have r: "y < 64" "2 \<le> x" "x < 32" using assms by (simp_all add: two_bytes_def xy(1,3))
  have cp: "code_point [a, b] = x * 64 + y" by (simp add: xy(1,3))
  note ds = digits2 [OF cp r]
  show "128 \<le> code_point [a, b]" "code_point [a, b] < 2048" by (fact ds(3), fact ds(4))
  then show "utf8_enc (code_point [a, b]) = [a, b]"
    unfolding utf8_enc_def ds(1,2) xy(2,4) [symmetric] by simp
qed

lemma utf8_enc_three:
  assumes "three_bytes a b c"
  shows "utf8_enc (code_point [a, b, c]) = [a, b, c]" "2048 \<le> code_point [a, b, c]"
    "code_point [a, b, c] < 65536" "code_point [a, b, c] < 55296 \<or> 57344 \<le> code_point [a, b, c]"
proof -
  obtain x y z :: nat where xyz: "of_char a = 224 + x" "a = char_of (224 + x)" "of_char b = 128 + y"
    "b = char_of (128 + y)" "of_char c = 128 + z" "c = char_of (128 + z)"
    using assms of_char_split [of 224 a] of_char_split [of 128 b] of_char_split [of 128 c]
    by (auto simp: three_bytes_def)
  have r: "y < 64" "z < 64" "x < 16" "x = 0 \<longrightarrow> 32 \<le> y" "x = 13 \<longrightarrow> y < 32"
    using assms by (simp_all add: three_bytes_def xyz(1,3,5))
  have cp: "code_point [a, b, c] = x * 4096 + y * 64 + z" by (simp add: xyz(1,3,5))
  note ds = digits3 [OF cp r]
  show r: "2048 \<le> code_point [a, b, c]" "code_point [a, b, c] < 65536"
    "code_point [a, b, c] < 55296 \<or> 57344 \<le> code_point [a, b, c]"
    by (fact ds(4), fact ds(5), fact ds(6))
  from r(1,2) show "utf8_enc (code_point [a, b, c]) = [a, b, c]"
    unfolding utf8_enc_def ds(1-3) xyz(2,4,6) [symmetric] by simp
qed

lemma utf8_enc_four:
  assumes "four_bytes a b c d"
  shows "utf8_enc (code_point [a, b, c, d]) = [a, b, c, d]" "65536 \<le> code_point [a, b, c, d]"
    "code_point [a, b, c, d] < 1114112"
proof -
  obtain x y z u :: nat where xyz: "of_char a = 240 + x" "a = char_of (240 + x)" "of_char b = 128 + y"
    "b = char_of (128 + y)" "of_char c = 128 + z" "c = char_of (128 + z)" "of_char d = 128 + u"
    "d = char_of (128 + u)"
    using assms of_char_split [of 240 a] of_char_split [of 128 b] of_char_split [of 128 c]
      of_char_split [of 128 d]
    by (auto simp: four_bytes_def)
  have r: "y < 64" "z < 64" "u < 64" "x < 5" "x = 0 \<longrightarrow> 16 \<le> y" "x = 4 \<longrightarrow> y < 16"
    using assms by (simp_all add: four_bytes_def xyz(1,3,5,7))
  have cp: "code_point [a, b, c, d] = x * 262144 + y * 4096 + z * 64 + u" by (simp add: xyz(1,3,5,7))
  note ds = digits4 [OF cp r]
  show r: "65536 \<le> code_point [a, b, c, d]" "code_point [a, b, c, d] < 1114112"
    by (fact ds(5), fact ds(6))
  from r(1) show "utf8_enc (code_point [a, b, c, d]) = [a, b, c, d]"
    unfolding utf8_enc_def ds(1-4) xyz(2,4,6,8) [symmetric] by simp
qed

section \<open>Escapes\<close>

lemma hex_value_char: "n < 16 \<Longrightarrow> hex_value (hex_char n) = Some n"
  by (auto simp: hex_value_def hex_char_def Let_def)

lemma hex_digits:
  fixes n :: nat
  assumes "n < 65536"
  shows "n div 4096 mod 16 * 4096 + n div 256 mod 16 * 256 + n div 16 mod 16 * 16 + n mod 16 = n"
proof -
  define a where "a = n div 16"
  define b where "b = a div 16"
  define c where "c = b div 16"
  have d: "n div 256 = b" "n div 4096 = c"
    using div_mult2_eq [of n 16 16] div_mult2_eq [of n 256 16] by (simp_all add: a_def b_def c_def)
  have c: "c < 16" using assms unfolding d(2) [symmetric] by (simp add: less_mult_imp_div_less)
  have "n = a * 16 + n mod 16" "a = b * 16 + a mod 16" "b = c * 16 + b mod 16"
    unfolding a_def b_def c_def by (simp_all only: div_mult_mod_eq)
  then show ?thesis
    unfolding d a_def [symmetric] mod_less [OF c] by linarith
qed

lemma hex4_u4: "n < 65536 \<Longrightarrow> hex4 (drop 2 (u4 n) @ r) = Some (n, r)"
  using hex_digits [of n] by (simp add: u4_def hex_value_char del: mod_less)

lemma u4_shape: "u4 n = backslash # CHR ''u'' # drop 2 (u4 n)" "length (u4 n) = 6"
  by (simp_all add: u4_def)

definition is_surrogate :: "nat \<Rightarrow> bool" where
  "is_surrogate n = (55296 \<le> n \<and> n < 57344)"

lemma unescape_u4:
  assumes "n < 65536" "\<not> is_surrogate n"
  shows "unescape (CHR ''u'' # drop 2 (u4 n) @ r) = Ret (utf8_enc n, r)"
  using assms by (auto simp: unescape_def unescape_u_def hex4_u4 is_surrogate_def)

lemma unescape_pair:
  assumes "65536 \<le> n" "n < 1114112" "r \<noteq> []"
  shows "unescape (CHR ''u'' # drop 2 (u4 (55296 + (n - 65536) div 1024))
      @ u4 (56320 + (n - 65536) mod 1024) @ r) = Ret (utf8_enc n, r)"
proof -
  define h l where "h = (n - 65536) div 1024" and "l = (n - 65536) mod 1024"
  have hl: "h < 1024" "l < 1024" "65536 + h * 1024 + l = n"
    using assms by (simp_all add: h_def l_def less_mult_imp_div_less)
  have "unescape (CHR ''u'' # drop 2 (u4 (55296 + h)) @ u4 (56320 + l) @ r)
      = unescape_u (drop 2 (u4 (55296 + h)) @ u4 (56320 + l) @ r)"
    by (simp add: unescape_def)
  also have "\<dots> = Ret (utf8_enc (65536 + h * 1024 + l), r)"
    using hl(1,2) hex4_u4 [of "55296 + h" "u4 (56320 + l) @ r"] hex4_u4 [of "56320 + l" r]
      assms(3)
    by (simp add: unescape_u_def u4_shape(2)) (simp add: u4_def)
  finally have "unescape (CHR ''u'' # drop 2 (u4 (55296 + h)) @ u4 (56320 + l) @ r) = Ret (utf8_enc n, r)"
    unfolding hl(3) .
  then show ?thesis unfolding h_def l_def .
qed

text \<open>An escaped character is read back, whatever follows, at least the closing quote.\<close>

definition reads_back :: "string \<Rightarrow> string \<Rightarrow> bool" where
  "reads_back e t = (\<forall>r. r \<noteq> [] \<longrightarrow> json_string (e @ r) = res_bind (json_string r) (\<lambda>(u, r'). Ret (t @ u, r')))"

lemma reads_back_escape:
  assumes "\<And>r. r \<noteq> [] \<Longrightarrow> unescape (e @ r) = Ret (t, r)"
  shows "reads_back (backslash # e) t"
  using assms by (simp add: reads_back_def)

lemma reads_back_u4: "n < 65536 \<Longrightarrow> \<not> is_surrogate n \<Longrightarrow> reads_back (u4 n) (utf8_enc n)"
  using reads_back_escape [of "CHR ''u'' # drop 2 (u4 n)"] unescape_u4 [of n]
  by (metis append_Cons u4_shape(1))

lemma reads_back_ascii:
  assumes "(of_char c :: nat) < 128"
  shows "reads_back (esc_ascii c) [c]"
proof (cases "esc_ascii c = [c]")
  case True
  then show ?thesis
    by (auto simp: reads_back_def esc_ascii_def u4_def split: if_splits)
next
  case False
  show ?thesis
  proof (cases "esc_ascii c = u4 (of_char c)")
    case True
    have "utf8_enc (of_char c) = [c]" using assms by (simp add: utf8_enc_def)
    then show ?thesis
      using True reads_back_u4 [of "of_char c"] assms by (simp add: is_surrogate_def)
  next
    case nu: False
    have "\<exists>x. esc_ascii c = [backslash, x] \<and> (\<forall>r. unescape (x # r) = Ret ([c], r))"
      using False nu by (auto simp: esc_ascii_def unescape_def split: if_splits)
    then show ?thesis
      using reads_back_escape by (metis append_Cons append_Nil)
  qed
qed

lemma reads_back_char:
  assumes "fst (utf8_head s)"
  shows "reads_back (esc_char (text_head s)) (text_head s)"
  using assms
proof (cases rule: utf8_head_cases)
  case (one a t)
  then show ?thesis by (simp add: esc_char_def reads_back_ascii)
next
  case (two a b t)
  then show ?thesis
    using utf8_enc_two [OF two(2)] reads_back_u4 [of "code_point [a, b]"]
    by (simp add: esc_char_def is_surrogate_def Let_def del: code_point.simps)
next
  case (three a b c t)
  then show ?thesis
    using utf8_enc_three [OF three(2)] reads_back_u4 [of "code_point [a, b, c]"]
    by (auto simp: esc_char_def is_surrogate_def Let_def simp del: code_point.simps)
next
  case (four a b c d t)
  define n where "n = code_point [a, b, c, d]"
  note enc = utf8_enc_four [OF four(2), folded n_def]
  have "reads_back (backslash # CHR ''u'' # drop 2 (u4 (55296 + (n - 65536) div 1024))
      @ u4 (56320 + (n - 65536) mod 1024)) (utf8_enc n)"
    using unescape_pair [OF enc(2,3)] by (intro reads_back_escape) simp
  then have "reads_back (u4 (55296 + (n - 65536) div 1024) @ u4 (56320 + (n - 65536) mod 1024)) (utf8_enc n)"
    by (metis append_Cons u4_shape(1))
  then show ?thesis
    using enc four(3) by (simp add: esc_char_def n_def [symmetric] Let_def del: code_point.simps)
qed

lemma text_head_valid: "fst (utf8_head s) \<Longrightarrow> text_head s = take (snd (utf8_head s)) s
    \<and> drop (length (text_head s)) s = drop (snd (utf8_head s)) s"
  by (cases rule: utf8_head_cases) auto

lemma json_string_esc:
  assumes "utf8_valid s"
  shows "json_string (json_esc s @ dquote # r) = Ret (s, r)"
  using assms
proof (induction s rule: utf8_valid.induct)
  case (2 c cs)
  let ?s = "c # cs"
  have v: "fst (utf8_head ?s)" "utf8_valid (drop (snd (utf8_head ?s)) ?s)"
    using 2(2) by (simp_all del: utf8_head.simps)
  note th = text_head_valid [OF v(1)]
  have "json_string (json_esc (drop (snd (utf8_head ?s)) ?s) @ dquote # r) = Ret (drop (snd (utf8_head ?s)) ?s, r)"
    using 2(1) v by blast
  moreover have "json_esc ?s = esc_char (text_head ?s) @ json_esc (drop (snd (utf8_head ?s)) ?s)"
    by (simp only: json_esc.simps conjunct2 [OF th])
  ultimately show ?case
    using reads_back_char [OF v(1)] th append_take_drop_id [of "snd (utf8_head ?s)" ?s]
    by (simp add: reads_back_def del: utf8_head.simps json_string.simps json_esc.simps)
qed simp

lemma is_space_ascii: "is_space c \<Longrightarrow> of_char c < (128 :: nat)"
  by (auto simp: is_space_def Let_def)

lemma utf8_valid_strip:
  assumes "utf8_valid s"
  shows "utf8_valid (py_strip s)"
proof -
  have l: "utf8_valid (dropWhile is_space s)" using assms
  proof (induction s)
    case (Cons c s)
    then show ?case
      using is_space_ascii [of c] by (auto simp: utf8_tail_def)
  qed simp
  have "rev (dropWhile is_space (rev t)) @ rev (takeWhile is_space (rev t)) = t" for t
    by (metis rev_append rev_rev_ident takeWhile_dropWhile_id)
  then obtain r where r: "rstrip_with is_space (dropWhile is_space s) @ r = dropWhile is_space s"
    "\<forall>c \<in> set r. is_space c"
    unfolding rstrip_with_def using set_takeWhileD by (metis set_rev)
  show ?thesis
  proof (cases r)
    case Nil
    then show ?thesis using r(1) l by (simp add: py_strip_def lstrip_with_def)
  next
    case (Cons c r')
    then show ?thesis
      using r l is_space_ascii [of c] utf8_valid_cut [of "rstrip_with is_space (dropWhile is_space s)" c r']
      by (simp add: py_strip_def lstrip_with_def)
  qed
qed

end
