(* ===== verification/JsonRoundTrip.thy ===== *)
theory JsonRoundTrip
  imports JsonString
begin

text \<open>
  Decoding what was encoded: numbers, then containers by induction over the encoder, up to
  \<open>json_round_trip\<close>, which the programs that print or store JSON rest on.

  \<open>jsonable\<close> are the values without finite floats, whose texts are well-formed and whose
  dictionaries have distinct keys; \<open>jdepth\<close> is the nesting of arrays and objects, which the
  decoder's recursion limit must admit; \<open>style_ok\<close> are the separators a decoder can read.
\<close>

section \<open>Numbers\<close>

lemma is_dec_digit [simp]: "is_dec (digit_char n)"
  by (simp add: is_dec_def digit_char_def)

lemma dec_of_nat_digits: "list_all is_dec (dec_of_nat n)"
proof (induction n rule: dec_of_nat.induct)
  case (1 n)
  then show ?case by (subst dec_of_nat.simps) simp
qed

lemma dec_value_snoc: "dec_value (ds @ [digit_char n]) = 10 * dec_value ds + n mod 10"
  by (simp add: dec_value_def digit_char_def)

lemma dec_value_dec_of_nat: "dec_value (dec_of_nat n) = n"
proof (induction n rule: dec_of_nat.induct)
  case (1 n)
  show ?case
  proof (cases "n < 10")
    case True
    then show ?thesis
      using dec_value_snoc [of "[]" n] by (subst dec_of_nat.simps) (simp add: dec_value_def)
  next
    case False
    then show ?thesis
      using 1 by (subst dec_of_nat.simps) (simp add: dec_value_snoc)
  qed
qed

lemma digit_char_0 [simp]: "digit_char n = CHR ''0'' \<longleftrightarrow> n mod 10 = 0"
proof
  assume "digit_char n = CHR ''0''"
  then have "(of_char (digit_char n) :: nat) = 48" by simp
  then show "n mod 10 = 0" by (simp add: digit_char_def)
next
  assume "n mod 10 = 0"
  then have "(of_char (digit_char n) :: nat) = of_char (CHR ''0'')" by (simp add: digit_char_def)
  then show "digit_char n = CHR ''0''" by (simp only: of_char_eq_iff)
qed

lemma dec_of_nat_hd: "0 < n \<Longrightarrow> hd (dec_of_nat n) \<noteq> CHR ''0''"
proof (induction n rule: dec_of_nat.induct)
  case (1 n)
  then show ?case by (subst dec_of_nat.simps) (simp add: hd_append)
qed

text \<open>What may follow a value: a separator, a closing bracket, white space or nothing.\<close>

definition delimits :: "string \<Rightarrow> bool" where
  "delimits r = (case r of [] \<Rightarrow> True | c # cs \<Rightarrow> c \<in> set '',]}'' \<or> is_ws c)"

lemma delimits_number:
  assumes "delimits r"
  shows "takeWhile is_dec r = []" "frac_part r = ([], r)" "exp_part r = (None, r)"
  using assms
  by (auto simp: delimits_def is_ws_def is_dec_def frac_part_def exp_part_def split: list.splits prod.splits)

lemma int_part_dec_of_nat:
  assumes "delimits r"
  shows "int_part (dec_of_nat n @ r) = dec_of_nat n"
proof (cases "n = 0")
  case True
  then show ?thesis by (simp add: dec_of_nat.simps int_part_def)
next
  case False
  have "takeWhile is_dec (dec_of_nat n @ r) = dec_of_nat n"
    using dec_of_nat_digits [of n] delimits_number(1) [OF assms]
    by (simp add: takeWhile_append2 list_all_iff)
  moreover obtain c cs where "dec_of_nat n = c # cs" by (cases "dec_of_nat n") auto
  ultimately show ?thesis
    using dec_of_nat_hd [of n] False by (simp add: int_part_def)
qed

lemma dec_of_nat_first: "\<exists>c cs. dec_of_nat n = c # cs \<and> is_dec c"
  using dec_of_nat_digits [of n] by (cases "dec_of_nat n") auto

lemma json_number_dec_of_int:
  assumes "delimits r"
  shows "json_number (dec_of_int i @ r) = Ret (PInt i, r)"
proof (cases "i < 0")
  case True
  then show ?thesis
    using int_part_dec_of_nat [OF assms] delimits_number(2,3) [OF assms]
    by (simp add: json_number_def dec_of_int_def dec_value_dec_of_nat)
next
  case False
  obtain c cs where c: "dec_of_nat (nat i) = c # cs" "is_dec c"
    using dec_of_nat_first by blast
  then have "take 1 (dec_of_nat (nat i) @ r) \<noteq> ''-''"
    by (auto simp: is_dec_def)
  then show ?thesis
    using False int_part_dec_of_nat [OF assms] delimits_number(2,3) [OF assms]
    by (simp add: json_number_def dec_of_int_def dec_value_dec_of_nat)
qed

lemma dec_of_int_first:
  "\<exists>c cs. dec_of_int i = c # cs \<and> (is_dec c \<or> c = CHR ''-'' \<and> (\<exists>b bs. cs = b # bs \<and> is_dec b))"
  using dec_of_nat_first [of "nat i"] dec_of_nat_first [of "nat (- i)"] by (auto simp: dec_of_int_def)

lemma is_dec_not: "is_dec c \<Longrightarrow> c \<notin> set ''ntfNI\"{[-'' \<and> \<not> is_ws c"
  by (auto simp: is_dec_def is_ws_def)

lemma json_scalar_dec_of_int:
  assumes "delimits r"
  shows "json_scalar (dec_of_int i @ r) = Ret (PInt i, r)"
proof -
  obtain c cs where c: "dec_of_int i = c # cs"
    and sgn: "is_dec c \<or> c = CHR ''-'' \<and> (\<exists>b bs. cs = b # bs \<and> is_dec b)"
    using dec_of_int_first [of i] by (elim exE conjE)
  have "c \<notin> set ''ntfNI''"
    using sgn is_dec_not [of c] by (elim disjE) simp_all
  moreover have "\<not> prefix ''-Infinity'' (c # cs @ r)"
    using sgn
  proof
    assume "is_dec c"
    then show ?thesis using is_dec_not [of c] by auto
  next
    assume "c = CHR ''-'' \<and> (\<exists>b bs. cs = b # bs \<and> is_dec b)"
    then obtain b bs where "cs = b # bs" "is_dec b" by blast
    then show ?thesis using is_dec_not [of b] by auto
  qed
  ultimately show ?thesis
    using c json_number_dec_of_int [OF assms, of i] by (auto simp: json_scalar_def)
qed

section \<open>Values the encoder and the decoder agree on\<close>

fun jsonable :: "pyval \<Rightarrow> bool"
  and jsonable_elements :: "pyval list \<Rightarrow> bool"
  and jsonable_members :: "pydict \<Rightarrow> bool" where
  "jsonable (PFloat m e) = False"
| "jsonable (PStr s) = utf8_valid s"
| "jsonable (PList vs) = jsonable_elements vs"
| "jsonable (PDict d) = (distinct (dict_keys d) \<and> jsonable_members d)"
| "jsonable v = True"
| "jsonable_elements [] = True"
| "jsonable_elements (v # vs) = (jsonable v \<and> jsonable_elements vs)"
| "jsonable_members [] = True"
| "jsonable_members ((k, v) # d) = (utf8_valid k \<and> jsonable v \<and> jsonable_members d)"

definition separator :: "char \<Rightarrow> string \<Rightarrow> bool" where
  "separator c s = (s \<noteq> [] \<and> hd s = c \<and> list_all is_ws (tl s))"

definition style_ok :: "json_style \<Rightarrow> bool" where
  "style_ok st = (separator (CHR '','') (st_item st) \<and> separator (CHR '':'') (st_key st))"

lemma separatorD: "separator c s \<Longrightarrow> \<exists>w. s = c # w \<and> list_all is_ws w"
  by (cases s) (auto simp: separator_def)

section \<open>White space\<close>

lemma is_ws_simps [simp]: "is_ws (CHR 0x0A)" "is_ws (CHR '' '')" "\<not> is_ws dquote"
    "\<not> is_ws (CHR '','')" "\<not> is_ws (CHR '':'')" "\<not> is_ws (CHR '']'')" "\<not> is_ws (CHR ''}'')"
  by (simp_all add: is_ws_def)

lemma skip_ws_append: "list_all is_ws w \<Longrightarrow> skip_ws (w @ s) = skip_ws s"
  by (induction w) (auto simp: skip_ws_def)

lemma skip_ws_Cons: "\<not> is_ws c \<Longrightarrow> skip_ws (c # s) = c # s"
  by (simp add: skip_ws_def)

lemma newline_indent_ws: "list_all is_ws (newline_indent st l)"
  by (auto simp: newline_indent_def list_all_iff split: option.splits)

lemma skip_newline [simp]: "skip_ws (newline_indent st l @ s) = skip_ws s"
  by (rule skip_ws_append [OF newline_indent_ws])

lemma delimits_newline: "delimits s \<Longrightarrow> delimits (newline_indent st l @ s)"
  by (auto simp: delimits_def newline_indent_def split: option.splits)

lemma delimits_Cons [simp]: "delimits (c # s) \<longleftrightarrow> c \<in> set '',]}'' \<or> is_ws c"
  by (simp add: delimits_def)

lemma delimits_Nil [simp]: "delimits []"
  by (simp add: delimits_def)

text \<open>The text of a value starts with a character that is neither white space nor a closing
  bracket.\<close>

definition starts :: "string \<Rightarrow> bool" where
  "starts s = (case s of [] \<Rightarrow> False | c # cs \<Rightarrow> \<not> is_ws c \<and> c \<notin> set '',]}'')"

lemma starts_append: "starts s \<Longrightarrow> starts (s @ r)"
  by (auto simp: starts_def split: list.splits)

lemma starts_skip: "starts s \<Longrightarrow> skip_ws s = s"
  by (auto simp: starts_def skip_ws_def split: list.splits)

lemma is_dec_starts: "is_dec c \<Longrightarrow> starts (c # cs)"
  by (auto simp: starts_def is_dec_def is_ws_def)

lemma json_enc_starts: "jsonable v \<Longrightarrow> starts (json_enc st l v)"
proof (cases v)
  case (PInt i)
  then show ?thesis
    using dec_of_int_first [of i] is_dec_starts by (auto simp: starts_def is_ws_def)
next
  case (PList vs)
  then show ?thesis by (cases vs) (simp_all add: starts_def is_ws_def)
next
  case (PDict d)
  then show ?thesis by (cases d) (auto simp: starts_def is_ws_def)
qed (auto simp: starts_def is_ws_def json_str_def)

section \<open>The decoder reads the encoder\<close>

text \<open>With enough of the counter, the text \<open>s\<close> decodes to \<open>v\<close> and leaves \<open>r\<close>.\<close>

definition parses :: "nat \<Rightarrow> string \<Rightarrow> pyval \<Rightarrow> string \<Rightarrow> bool" where
  "parses d s v r = (\<exists>n. json_value n d s = Some (Ret (v, r)))"

definition parses_elements :: "nat \<Rightarrow> pyval list \<Rightarrow> string \<Rightarrow> pyval \<Rightarrow> string \<Rightarrow> bool" where
  "parses_elements d acc s v r = (\<exists>n. json_elements n d acc s = Some (Ret (v, r)))"

definition parses_members :: "nat \<Rightarrow> pydict \<Rightarrow> string \<Rightarrow> pyval \<Rightarrow> string \<Rightarrow> bool" where
  "parses_members d acc s v r = (\<exists>n. json_members n d acc s = Some (Ret (v, r)))"

lemma parses_scalar:
  assumes "s = c # cs" "c \<notin> {dquote, CHR ''{'', CHR ''[''}" "json_scalar s = Ret (v, r)"
  shows "parses d s v r"
  unfolding parses_def by (rule exI [of _ "Suc 0"]) (use assms in simp)

lemma parses_str: "json_string s = Ret (t, r) \<Longrightarrow> parses d (dquote # s) (PStr t) r"
  unfolding parses_def by (rule exI [of _ "Suc 0"]) simp

lemma parses_empty: "parses (Suc d) (''[]'' @ r) (PList []) r" "parses (Suc d) (''{}'' @ r) (PDict []) r"
  unfolding parses_def by (rule exI [of _ "Suc 0"], simp add: skip_ws_def)+

lemma parses_list:
  assumes "parses_elements d [] (skip_ws s) v r" "starts (skip_ws s)"
  shows "parses (Suc d) (CHR ''['' # s) v r"
proof -
  from assms(1) obtain n where "json_elements n d [] (skip_ws s) = Some (Ret (v, r))"
    by (auto simp: parses_elements_def)
  moreover have "\<not> prefix '']'' (skip_ws s)"
    using assms(2) by (auto simp: starts_def prefix_def)
  ultimately show ?thesis
    unfolding parses_def by (intro exI [of _ "Suc n"]) simp
qed

lemma parses_dict:
  assumes "parses_members d [] (skip_ws s) v r" "starts (skip_ws s)"
  shows "parses (Suc d) (CHR ''{'' # s) v r"
proof -
  from assms(1) obtain n where "json_members n d [] (skip_ws s) = Some (Ret (v, r))"
    by (auto simp: parses_members_def)
  moreover have "\<not> prefix ''}'' (skip_ws s)"
    using assms(2) by (auto simp: starts_def prefix_def)
  ultimately show ?thesis
    unfolding parses_def by (intro exI [of _ "Suc n"]) simp
qed

lemma elements_end:
  assumes "parses d s v r" "skip_ws r = CHR '']'' # r'"
  shows "parses_elements d acc s (PList (rev acc @ [v])) r'"
proof -
  from assms(1) obtain n where "json_value n d s = Some (Ret (v, r))"
    by (auto simp: parses_def)
  then show ?thesis
    unfolding parses_elements_def by (intro exI [of _ "Suc n"]) (simp add: assms(2))
qed

lemma elements_more:
  assumes "parses d s v r" "skip_ws r = CHR '','' # r'" "parses_elements d (v # acc) (skip_ws r') x q"
  shows "parses_elements d acc s x q"
proof -
  from assms(1,3) obtain n m where n: "json_value n d s = Some (Ret (v, r))"
    and m: "json_elements m d (v # acc) (skip_ws r') = Some (Ret (x, q))"
    by (auto simp: parses_def parses_elements_def)
  have "json_value (max n m) d s = Some (Ret (v, r))"
    using json_value_mono [OF n] by simp
  moreover have "json_elements (max n m) d (v # acc) (skip_ws r') = Some (Ret (x, q))"
    using json_elements_mono [OF m] by simp
  ultimately show ?thesis
    unfolding parses_elements_def by (intro exI [of _ "Suc (max n m)"]) (simp add: assms(2))
qed

text \<open>\<open>member s k t\<close>: the text is a key, a colon and the text \<open>t\<close> of a value.\<close>

definition member :: "string \<Rightarrow> string \<Rightarrow> string \<Rightarrow> bool" where
  "member s k t = (\<exists>r0 r. prefix [dquote] s \<and> json_string (tl s) = Ret (k, r0)
     \<and> skip_ws r0 = CHR '':'' # r \<and> skip_ws r = t)"

lemma members_end:
  assumes "member s k t" "parses d t v r" "skip_ws r = CHR ''}'' # r'"
  shows "parses_members d acc s (PDict (dict_set k v acc)) r'"
proof -
  from assms(2) obtain n where "json_value n d t = Some (Ret (v, r))"
    by (auto simp: parses_def)
  then show ?thesis
    using assms(1,3) unfolding parses_members_def
    by (intro exI [of _ "Suc n"]) (auto simp: member_def)
qed

lemma members_more:
  assumes "member s k t" "parses d t v r" "skip_ws r = CHR '','' # r'"
    "parses_members d (dict_set k v acc) (skip_ws r') x q"
  shows "parses_members d acc s x q"
proof -
  from assms(2,4) obtain n m where n: "json_value n d t = Some (Ret (v, r))"
    and m: "json_members m d (dict_set k v acc) (skip_ws r') = Some (Ret (x, q))"
    by (auto simp: parses_def parses_members_def)
  have "json_value (max n m) d t = Some (Ret (v, r))"
    using json_value_mono [OF n] by simp
  moreover have "json_members (max n m) d (dict_set k v acc) (skip_ws r') = Some (Ret (x, q))"
    using json_members_mono [OF m] by simp
  ultimately show ?thesis
    using assms(1,3) unfolding parses_members_def
    by (intro exI [of _ "Suc (max n m)"]) (auto simp: member_def)
qed

lemma dict_set_new: "k \<notin> set (dict_keys d) \<Longrightarrow> dict_set k v d = d @ [(k, v)]"
  by (induction k v d rule: dict_set.induct) (auto simp: dict_keys_def)

lemma member_enc:
  assumes "style_ok st" "utf8_valid k" "starts t"
  shows "member (json_str k @ st_key st @ t) k t"
proof -
  obtain w where w: "st_key st = CHR '':'' # w" "list_all is_ws w"
    using assms(1) by (auto simp: style_ok_def dest: separatorD)
  have "json_string (json_esc k @ dquote # st_key st @ t) = Ret (k, st_key st @ t)"
    by (rule json_string_esc [OF assms(2)])
  then show ?thesis
    using assms(3) by (simp add: member_def json_str_def w skip_ws_Cons skip_ws_append starts_skip)
qed

lemma delimits_item: "style_ok st \<Longrightarrow> delimits (st_item st @ s)"
  by (auto simp: style_ok_def dest: separatorD)

lemma delimits_elements:
  assumes "style_ok st" "delimits r"
  shows "delimits (enc_elements st l vs @ r)" "delimits (enc_members st l d @ r)"
proof -
  show "delimits (enc_elements st l vs @ r)"
    using assms delimits_item by (cases vs) auto
  show "delimits (enc_members st l d @ r)"
    using assms delimits_item by (cases d) auto
qed

lemma item_skip:
  assumes "style_ok st" "starts s"
  shows "\<exists>r'. skip_ws (st_item st @ newline_indent st l @ s) = CHR '','' # r' \<and> skip_ws r' = s"
proof -
  obtain w where "st_item st = CHR '','' # w" "list_all is_ws w"
    using assms(1) by (auto simp: style_ok_def dest: separatorD)
  then show ?thesis
    using assms(2) by (simp add: skip_ws_Cons skip_ws_append starts_skip)
qed

abbreviation tail_of :: "json_style \<Rightarrow> nat \<Rightarrow> char \<Rightarrow> string \<Rightarrow> string" where
  "tail_of st l c r \<equiv> newline_indent st l @ c # r"

lemma enc_parses:
  shows "style_ok st \<Longrightarrow> jsonable v \<Longrightarrow> jdepth v \<le> d \<Longrightarrow> delimits r \<Longrightarrow> parses d (json_enc st l v @ r) v r"
    and "style_ok st \<Longrightarrow> jsonable_elements vs \<Longrightarrow> jdepth_elements vs \<le> d \<Longrightarrow>
      parses d s u (enc_elements st l vs @ tail_of st k (CHR '']'') r) \<Longrightarrow>
      parses_elements d acc s (PList (rev acc @ u # vs)) r"
    and "style_ok st \<Longrightarrow> jsonable_members kvs \<Longrightarrow> jdepth_members kvs \<le> d \<Longrightarrow>
      distinct (dict_keys (accm @ (key, u) # kvs)) \<Longrightarrow> member s key t \<Longrightarrow>
      parses d t u (enc_members st l kvs @ tail_of st k (CHR ''}'') r) \<Longrightarrow>
      parses_members d accm s (PDict (accm @ (key, u) # kvs)) r"
proof (induction st l v and st l vs and st l kvs arbitrary: d r and d r k s u acc and d r k s t u key accm
    rule: json_enc_enc_elements_enc_members.induct)
  case (1 st l)
  show ?case by (simp add: parses_scalar json_scalar_def)
next
  case (2 st l b)
  show ?case by (cases b) (simp_all add: parses_scalar json_scalar_def)
next
  case (3 st l i)
  then show ?case
    using dec_of_int_first [of i] is_dec_not json_scalar_dec_of_int [of r i]
    by (fastforce intro: parses_scalar)
next
  case (4 st l m e)
  then show ?case by simp
next
  case (5 st l neg)
  show ?case by (cases neg) (simp_all add: parses_scalar json_scalar_def)
next
  case (6 st l)
  show ?case by (simp add: parses_scalar json_scalar_def)
next
  case (7 st l str)
  then show ?case by (simp add: json_str_def parses_str json_string_esc)
next
  case (8 st l)
  then show ?case by (cases d) (simp_all add: parses_empty [simplified])
next
  case (9 st l v vs)
  then obtain d' where d: "d = Suc d'" by (cases d) auto
  let ?t = "enc_elements st (Suc l) vs @ tail_of st l (CHR '']'') r"
  have "parses d' (json_enc st (Suc l) v @ ?t) v ?t"
    using 9 d delimits_elements(1) delimits_newline by (intro 9(1)) auto
  then have "parses_elements d' [] (json_enc st (Suc l) v @ ?t) (PList (v # vs)) r"
    using 9(2) [where acc = "[]"] 9(3-6) d by simp
  moreover have "starts (json_enc st (Suc l) v @ ?t)"
    using 9(4) by (simp add: json_enc_starts starts_append)
  ultimately show ?case
    by (simp add: d parses_list starts_skip)
next
  case (10 st l)
  then show ?case by (cases d) (simp_all add: parses_empty [simplified])
next
  case (11 st l key v kvs)
  then obtain d' where d: "d = Suc d'" by (cases d) auto
  let ?t = "enc_members st (Suc l) kvs @ tail_of st l (CHR ''}'') r"
  let ?v = "json_enc st (Suc l) v @ ?t"
  have "parses d' ?v v ?t"
    using 11 d delimits_elements(2) delimits_newline by (intro 11(1)) auto
  moreover have "member (json_str key @ st_key st @ ?v) key ?v"
    using 11 by (intro member_enc) (simp_all add: json_enc_starts starts_append)
  ultimately have "parses_members d' [] (json_str key @ st_key st @ ?v) (PDict ((key, v) # kvs)) r"
    using 11(2) [where accm = "[]"] 11(3-6) d by simp
  moreover have "starts (json_str key @ st_key st @ ?v)"
    by (simp add: json_str_def starts_def)
  ultimately show ?case
    by (simp add: d parses_dict starts_skip)
next
  case (12 st l)
  then show ?case by (auto intro: elements_end simp: skip_ws_Cons)
next
  case (13 st l v vs)
  let ?t = "enc_elements st l vs @ tail_of st k (CHR '']'') r"
  have "parses d (json_enc st l v @ ?t) v ?t"
    using 13 delimits_elements(1) delimits_newline by (intro 13(1)) auto
  then have "parses_elements d (u # acc) (json_enc st l v @ ?t) (PList (rev acc @ u # v # vs)) r"
    using 13(2) [where acc = "u # acc"] 13(3-6) by simp
  moreover have "starts (json_enc st l v @ ?t)"
    using 13(4) by (simp add: json_enc_starts starts_append)
  moreover obtain q where q: "skip_ws (st_item st @ newline_indent st l @ json_enc st l v @ ?t) = CHR '','' # q"
    "skip_ws q = json_enc st l v @ ?t"
    using item_skip [OF 13(3) calculation(2), of l] by blast
  moreover have "parses d s u (st_item st @ newline_indent st l @ json_enc st l v @ ?t)"
    using 13(6) by (simp only: enc_elements.simps append_assoc)
  ultimately show ?case
    using elements_more [OF _ q(1)] by metis
next
  case (14 st l)
  have "key \<notin> set (dict_keys accm)" "parses d t u (tail_of st k (CHR ''}'') r)"
    using 14(4,6) by (simp_all add: dict_keys_def)
  then show ?case
    using members_end [OF 14(5), of d u "tail_of st k (CHR ''}'') r" r accm] by (simp add: dict_set_new skip_ws_Cons)
next
  case (15 st l key' v kvs)
  let ?t = "enc_members st l kvs @ tail_of st k (CHR ''}'') r"
  let ?v = "json_enc st l v @ ?t"
  have "parses d ?v v ?t"
    using 15 delimits_elements(2) delimits_newline by (intro 15(1)) auto
  moreover have "member (json_str key' @ st_key st @ ?v) key' ?v"
    using 15 by (intro member_enc) (simp_all add: json_enc_starts starts_append)
  ultimately have "parses_members d (accm @ [(key, u)]) (json_str key' @ st_key st @ ?v)
      (PDict (accm @ (key, u) # (key', v) # kvs)) r"
    using 15(2) [where accm = "accm @ [(key, u)]"] 15(3-6) by simp
  moreover have "starts (json_str key' @ st_key st @ ?v)"
    by (simp add: json_str_def starts_def)
  moreover obtain q where q: "skip_ws (st_item st @ newline_indent st l @ json_str key' @ st_key st @ ?v)
      = CHR '','' # q" "skip_ws q = json_str key' @ st_key st @ ?v"
    using item_skip [OF 15(3) calculation(2), of l] by blast
  moreover have "dict_set key u accm = accm @ [(key, u)]"
    using 15(6) by (simp add: dict_set_new dict_keys_def)
  moreover have "parses d t u (st_item st @ newline_indent st l @ json_str key' @ st_key st @ ?v)"
    using 15(8) by (simp only: enc_members.simps append_assoc)
  ultimately show ?case
    using members_more [OF 15(7) _ q(1)] by metis
qed

section \<open>Sorted keys\<close>

lemma jsonable_members_iff:
  "jsonable_members d \<longleftrightarrow> (\<forall>(k, v) \<in> set d. utf8_valid k \<and> jsonable v)"
  by (induction d) auto

lemma jdepth_members_iff: "jdepth_members d \<le> n \<longleftrightarrow> (\<forall>(k, v) \<in> set d. jdepth v \<le> n)"
  by (induction d) auto

lemma keys_sort_members [simp]: "map fst (sort_members d) = map fst d"
  by (induction d rule: list.induct) auto

lemma distinct_sort_key: "distinct (map f (sort_key f xs)) = distinct (map f xs)"
  by (induction xs) (simp_all add: distinct_insort_key)

lemma sort_val_jsonable:
  "jsonable v \<Longrightarrow> jsonable (sort_val v)"
  "jsonable_elements vs \<Longrightarrow> jsonable_elements (sort_elements vs)"
  "jsonable_members d \<Longrightarrow> jsonable_members (sort_members d)"
  by (induction v and vs and d rule: sort_val_sort_elements_sort_members.induct)
    (simp_all add: dict_keys_def jsonable_members_iff distinct_sort_key)

lemma sort_val_jdepth:
  "jdepth v \<le> n \<Longrightarrow> jdepth (sort_val v) \<le> n"
  "jdepth_elements vs \<le> n \<Longrightarrow> jdepth_elements (sort_elements vs) \<le> n"
  "jdepth_members d \<le> n \<Longrightarrow> jdepth_members (sort_members d) \<le> n"
proof (induction v and vs and d arbitrary: n and n and n rule: sort_val_sort_elements_sort_members.induct)
  case (1 vs)
  then show ?case by (cases n) simp_all
next
  case (2 d)
  then show ?case by (cases n) (simp_all add: jdepth_members_iff)
qed simp_all

section \<open>Round trip\<close>

text \<open>What \<open>json.dumps\<close> writes, with or without indentation and sorted keys, \<open>json.loads\<close> reads
  back: the same value, its dictionaries in the order of their keys when they were sorted. This covers
  escapes, surrogate pairs, negative and large numbers, and every nesting the recursion limit admits.\<close>

lemma json_round_trip:
  assumes "style_ok st" and "jsonable v" and "jdepth v \<le> d"
  shows "json_loads d (json_dumps st v) = Ret (if st_sort st then sort_val v else v)"
proof -
  define v' where "v' = (if st_sort st then sort_val v else v)"
  define s where "s = json_enc st 0 v'"
  have v': "jsonable v'" "jdepth v' \<le> d"
    using assms(2,3) by (simp_all add: v'_def sort_val_jsonable sort_val_jdepth)
  then obtain n where n: "json_value n d s = Some (Ret (v', []))"
    using enc_parses(1) [OF assms(1), of v' d "[]" 0] by (auto simp: s_def parses_def)
  have s: "skip_ws s = s"
    unfolding s_def by (rule starts_skip [OF json_enc_starts [OF v'(1)]])
  obtain x where x: "json_value (2 * length s + 1) d s = Some x"
    using json_fuel [of s "2 * length s + 1" d] by auto
  have "x = Ret (v', [])"
    using json_value_mono [OF n, of "max n (2 * length s + 1)"]
      json_value_mono [OF x, of "max n (2 * length s + 1)"] by simp
  then show ?thesis
    using x by (simp add: json_loads_def json_dumps_def s v'_def [symmetric] s_def [symmetric])
      (simp add: skip_ws_def)
qed

end
