(* ===== verification/JsonResults.thy ===== *)
theory JsonResults
  imports JsonRoundTrip
begin

text \<open>
  What is known of every document: what the encoder writes is ASCII, so that \<open>json.loads\<close> of the
  bytes reads it back too, and what the decoder returns is a value Python can hold, nested no deeper
  than the recursion limit.
\<close>

section \<open>Bytes\<close>

text \<open>What is written consists of non-zero ASCII characters, so that the encoding of its bytes is
  recognised.\<close>

definition plain :: "char \<Rightarrow> bool" where
  "plain c = (0 < (of_char c :: nat) \<and> (of_char c :: nat) < 128)"

lemma plain_hex: "n < 16 \<Longrightarrow> plain (hex_char n)"
  by (simp add: plain_def hex_char_def)

lemma plain_u4: "list_all plain (u4 n)"
  by (simp add: u4_def plain_hex) (simp add: plain_def)

lemma plain_esc_ascii: "list_all plain (esc_ascii c)"
  by (simp add: esc_ascii_def plain_u4) (simp add: plain_def)

lemma plain_esc_char: "list_all plain (esc_char ch)"
  by (auto simp: esc_char_def plain_u4 plain_esc_ascii Let_def split: list.split)

lemma plain_json_str: "list_all plain (json_str s)"
proof -
  have "list_all plain (json_esc s)"
    by (induction s rule: json_esc.induct)
      (simp_all only: json_esc.simps list_all_append plain_esc_char list.pred_inject simp_thms)
  then show ?thesis by (simp add: json_str_def) (simp add: plain_def)
qed

lemma plain_ws: "list_all is_ws w \<Longrightarrow> list_all plain w"
  by (erule list.pred_mono_strong) (auto simp: is_ws_def plain_def)

lemma plain_separator: "separator c s \<Longrightarrow> plain c \<Longrightarrow> list_all plain s"
  by (auto dest!: separatorD intro: plain_ws)

lemma plain_separators:
  assumes "style_ok st"
  shows "list_all plain (st_item st)" "list_all plain (st_key st)"
  using assms by (auto simp: style_ok_def plain_def intro: plain_separator)

lemma plain_dec_of_int: "list_all plain (dec_of_int i)"
proof -
  have "list_all plain (dec_of_nat n)" for n
    using dec_of_nat_digits [of n] by (rule list.pred_mono_strong) (simp add: is_dec_def plain_def Let_def)
  then show ?thesis by (simp add: dec_of_int_def) (simp add: plain_def)
qed

lemmas plain_newline = plain_ws [OF newline_indent_ws]

lemma plain_json_enc:
  "style_ok st \<Longrightarrow> jsonable v \<Longrightarrow> list_all plain (json_enc st l v)"
  "style_ok st \<Longrightarrow> jsonable_elements vs \<Longrightarrow> list_all plain (enc_elements st l vs)"
  "style_ok st \<Longrightarrow> jsonable_members d \<Longrightarrow> list_all plain (enc_members st l d)"
  by (induction st l v and st l vs and st l d rule: json_enc_enc_elements_enc_members.induct)
    (simp_all add: plain_json_str plain_separators plain_dec_of_int plain_newline, simp_all add: plain_def)

lemma plain_dumps: "style_ok st \<Longrightarrow> jsonable v \<Longrightarrow> list_all plain (json_dumps st v)"
  by (simp add: json_dumps_def plain_json_enc sort_val_jsonable)

lemma utf8_valid_pass: "utf8_valid s \<Longrightarrow> pass_valid s"
  by (induction s rule: utf8_valid.induct) (simp_all del: utf8_head.simps drop_Cons')

lemma jsonable_texts_pass:
  "jsonable v \<Longrightarrow> texts_pass v"
  "jsonable_elements vs \<Longrightarrow> texts_pass_elements vs"
  "jsonable_members d \<Longrightarrow> texts_pass_members d"
  by (induction v and vs and d rule: jsonable_jsonable_elements_jsonable_members.induct)
    (simp_all add: utf8_valid_pass)

lemma plain_bytes:
  assumes "list_all plain s"
  shows "detect_encoding s = ''utf-8''" "decode_pass s = Ret s"
proof -
  have bom: "\<not> prefix (a # p) s" if "\<not> plain a" for a p
    using assms that by (auto simp: prefix_def)
  have nul: "s ! i \<noteq> CHR 0x00" if "i < length s" for i
    using assms that by (force simp: list_all_length plain_def)
  show "detect_encoding s = ''utf-8''"
    using bom nul [of 0] nul [of 1]
    by (cases "s = []") (auto simp: detect_encoding_def plain_def Let_def)
  have "utf8_valid s"
    using assms by (intro utf8_valid_ascii) (auto simp: list_all_iff plain_def)
  then show "decode_pass s = Ret s"
    by (simp add: decode_pass_def utf8_valid_pass)
qed

section \<open>The interface\<close>

text \<open>What the programs rely on when they write documents and read them back: admissible values come
  back, up to the order of keys when they are sorted.\<close>

locale codec =
  fixes dumps :: "pyval \<Rightarrow> string" and loads :: "string \<Rightarrow> pyval res"
    and norm :: "pyval \<Rightarrow> pyval" and admits :: "pyval \<Rightarrow> bool"
  assumes decodes: "admits v \<Longrightarrow> loads (dumps v) = Ret (norm v)"
    and writes: "admits v \<Longrightarrow> dumps v \<noteq> []"
begin

text \<open>A document determines its value, and writing what was read keeps the value.\<close>

lemma dumps_determines: "admits v \<Longrightarrow> admits w \<Longrightarrow> dumps v = dumps w \<Longrightarrow> norm v = norm w"
  using decodes [of v] decodes [of w] by simp

lemma dumps_again: "loads s = Ret v \<Longrightarrow> admits v \<Longrightarrow> norm v = v \<Longrightarrow> loads (dumps v) = loads s"
  by (simp add: decodes)

end

definition admissible :: "json_style \<Rightarrow> nat \<Rightarrow> pyval \<Rightarrow> bool" where
  "admissible st d v = (style_ok st \<and> jsonable v \<and> jdepth v \<le> d)"

definition key_order :: "json_style \<Rightarrow> pyval \<Rightarrow> pyval" where
  "key_order st v = (if st_sort st then sort_val v else v)"

text \<open>The library keeps the contract for text and for the bytes of a body.\<close>

interpretation json_text: codec "json_dumps st" "json_loads d" "key_order st" "admissible st d" for st d
proof
  show "json_loads d (json_dumps st v) = Ret (key_order st v)" if "admissible st d v" for v
    using that json_round_trip by (simp add: admissible_def key_order_def)
  show "json_dumps st v \<noteq> []" if "admissible st d v" for v
    using that json_enc_starts [OF sort_val_jsonable(1), of v st 0] json_enc_starts [of v st 0]
    by (auto simp: admissible_def json_dumps_def starts_def)
qed

interpretation json_bytes: codec "json_dumps st" "json_loads_bytes wide d" "key_order st" "admissible st d"
  for st wide d
proof
  show "json_loads_bytes wide d (json_dumps st v) = Ret (key_order st v)" if "admissible st d v" for v
    using that json_text.decodes [OF that] plain_bytes [OF plain_dumps [of st v]]
    by (simp add: admissible_def json_loads_bytes_def)
qed (rule json_text.writes)

lemma json_dumps_limited_jsonable:
  "jsonable v \<Longrightarrow> jdepth v \<le> e \<Longrightarrow> json_dumps_limited e st v = Ret (json_dumps st v)"
  by (simp add: json_dumps_limited_def jsonable_texts_pass)

lemma styles_ok [simp]: "style_ok (default_style rep)" "style_ok (pretty_style rep)"
  "style_ok ((pretty_style rep)\<lparr>st_sort := b\<rparr>)"
  "st_sort (default_style rep) = False" "st_sort (pretty_style rep) = False"
  by (simp_all add: style_ok_def separator_def default_style_def pretty_style_def)

section \<open>The decoder's results\<close>

text \<open>\<open>wf_val\<close>: a value Python can hold: the keys of every dictionary are distinct.\<close>

fun wf_val :: "pyval \<Rightarrow> bool"
  and wf_elements :: "pyval list \<Rightarrow> bool"
  and wf_members :: "pydict \<Rightarrow> bool" where
  "wf_val (PList vs) = wf_elements vs"
| "wf_val (PDict d) = (distinct (dict_keys d) \<and> wf_members d)"
| "wf_val v = True"
| "wf_elements [] = True"
| "wf_elements (v # vs) = (wf_val v \<and> wf_elements vs)"
| "wf_members [] = True"
| "wf_members ((k, v) # d) = (wf_val v \<and> wf_members d)"

lemma wf_elements_iff: "wf_elements vs \<longleftrightarrow> list_all wf_val vs"
  by (induction vs) auto

lemma jdepth_elements_iff: "jdepth_elements vs \<le> n \<longleftrightarrow> list_all (\<lambda>v. jdepth v \<le> n) vs"
  by (induction vs) auto

lemma wf_dict_set: "wf_val v \<Longrightarrow> wf_members d \<Longrightarrow> wf_members (dict_set k v d)"
  by (induction k v d rule: dict_set.induct) auto

lemma jdepth_dict_set:
  "jdepth v \<le> n \<Longrightarrow> jdepth_members d \<le> n \<Longrightarrow> jdepth_members (dict_set k v d) \<le> n"
  by (induction k v d rule: dict_set.induct) auto

definition sound :: "nat \<Rightarrow> pyval \<Rightarrow> bool" where
  "sound d v = (wf_val v \<and> jdepth v \<le> d)"

lemma sound_list: "list_all (sound d) vs \<Longrightarrow> sound (Suc d) (PList vs)"
  by (auto simp: sound_def wf_elements_iff jdepth_elements_iff list_all_iff)

definition sound_dict :: "nat \<Rightarrow> pydict \<Rightarrow> bool" where
  "sound_dict d kvs = (distinct (dict_keys kvs) \<and> wf_members kvs \<and> jdepth_members kvs \<le> d)"

lemma sound_dict_set: "sound_dict d kvs \<Longrightarrow> sound d v \<Longrightarrow> sound_dict d (dict_set k v kvs)"
  by (simp add: sound_dict_def sound_def distinct_dict_set wf_dict_set jdepth_dict_set)

lemma sound_dict_PDict: "sound_dict d kvs \<Longrightarrow> sound (Suc d) (PDict kvs)"
  by (simp add: sound_dict_def sound_def)

lemma json_number_sound: "json_number s = Ret (v, r) \<Longrightarrow> sound d v"
  by (auto simp: json_number_def sound_def Let_def split: prod.splits if_splits)

lemma json_scalar_sound: "json_scalar s = Ret (v, r) \<Longrightarrow> sound d v"
  using json_number_sound by (auto simp: json_scalar_def sound_def split: if_splits)

lemma json_sound:
  "(json_value n d s = Some (Ret (v, r)) \<longrightarrow> sound d v)
   \<and> (json_elements n d vs s = Some (Ret (v, r)) \<longrightarrow> list_all (sound d) vs \<longrightarrow> sound (Suc d) v)
   \<and> (json_members n d kvs s = Some (Ret (v, r)) \<longrightarrow> sound_dict d kvs \<longrightarrow> sound (Suc d) v)"
proof (induction n arbitrary: d s v r vs kvs)
  case (Suc n)
  have V: "json_value n d s = Some (Ret (v, r)) \<Longrightarrow> sound d v"
    and E: "json_elements n d vs s = Some (Ret (v, r)) \<Longrightarrow> list_all (sound d) vs \<Longrightarrow> sound (Suc d) v"
    and M: "json_members n d kvs s = Some (Ret (v, r)) \<Longrightarrow> sound_dict d kvs \<Longrightarrow> sound (Suc d) v"
    for d s v r vs kvs
    using Suc.IH by blast+
  have start: "sound_dict d []" "sound d (PStr t)" "0 < d \<Longrightarrow> sound d (PList [])" "0 < d \<Longrightarrow> sound d (PDict [])"
    for d t
    by (simp_all add: sound_dict_def sound_def dict_keys_def)
  have "json_value (Suc n) d s = Some (Ret (v, r)) \<Longrightarrow> sound d v"
    using start E [of "d - 1" "[]"] M [of "d - 1" "[]"] json_scalar_sound
    by (subst (asm) json_value.simps)
      (auto simp: res_bind_Ret_iff split: list.splits if_splits simp del: json_elements.simps json_members.simps)
  moreover have "sound (Suc d) v" if p: "json_elements (Suc n) d vs s = Some (Ret (v, r))" "list_all (sound d) vs"
  proof -
    obtain x q2 where x: "json_value n d s = Some (Ret (x, q2))"
      using p(1) by (auto simp: fbind_Some_iff)
    have vs: "list_all (sound d) (x # vs)" "sound (Suc d) (PList (rev (x # vs)))"
      using p(2) V [OF x] by (simp_all add: sound_list)
    show ?thesis
      using p(1) x E [OF _ vs(1)] vs(2) by (simp split: list.splits if_splits)
  qed
  moreover have "sound (Suc d) v" if p: "json_members (Suc n) d kvs s = Some (Ret (v, r))" "sound_dict d kvs"
  proof -
    obtain k q where k: "json_string (tl s) = Ret (k, q)"
      using p(1) by (cases "json_string (tl s)") (auto split: if_splits)
    obtain x q2 where x: "json_value n d (skip_ws (tl (skip_ws q))) = Some (Ret (x, q2))"
      using p(1) k by (auto simp: fbind_Some_iff split: if_splits simp del: json_value.simps)
    have kvs: "sound_dict d (dict_set k x kvs)"
      using p(2) V [OF x] by (rule sound_dict_set)
    then show ?thesis
      using p(1) k x M [OF _ kvs] sound_dict_PDict [OF kvs]
      by (auto split: list.splits if_splits simp del: json_value.simps)
  qed
  ultimately show ?case by blast
qed simp

lemma json_loads_sound: "json_loads d s = Ret v \<Longrightarrow> sound d v"
  using json_sound
  by (auto simp: json_loads_def split: option.splits res.splits if_splits prod.splits simp del: json_value.simps)

end
