(* ===== verification/CfgdbJson.thy ===== *)
theory CfgdbJson
  imports CfgdbRest JsonResults
begin

text \<open>
  The REST service with the JSON library it runs with: what a client encodes reaches ZooKeeper
  unchanged, what the service answers decodes to the outcome of the command, and a body nested too deeply
  is not answered like other malformed bodies.
\<close>

section \<open>The library\<close>

text \<open>\<open>json.dumps(data)\<close> with its default arguments and \<open>json.loads\<close> of the bytes of a body. Arguments:
  \<open>float.__repr__\<close>, the decoders of UTF-16 and UTF-32, and the recursion limit.\<close>

definition py3_json ::
  "(pyval \<Rightarrow> string) \<Rightarrow> (string \<Rightarrow> string \<Rightarrow> string res) \<Rightarrow> nat \<Rightarrow> jsonrt" where
  "py3_json rep wide d =
     \<lparr>h_loads = json_loads_bytes wide d, h_dumps = json_dumps (default_style rep)\<rparr>"

section \<open>Reading a body\<close>

lemma is_digit_is_dec: "is_digit = is_dec"
  by (rule ext) (simp add: is_digit_def is_dec_def)

lemma py_digits_dec:
  "list_all is_dec ds \<Longrightarrow> b \<or> ds \<noteq> [] \<Longrightarrow>
     py_digits acc b ds = Some (foldl (\<lambda>a c. 10 * a + (of_char c - 48)) acc ds)"
  by (induction ds arbitrary: acc b) (simp_all add: is_digit_is_dec)

lemma py_strip_digits: "list_all is_dec ds \<Longrightarrow> py_strip ds = ds"
proof -
  assume ds: "list_all is_dec ds"
  have "\<not> is_space c" if "c \<in> set ds" for c
    using ds that by (auto simp: list_all_iff is_dec_def is_space_def Let_def)
  then have "dropWhile is_space ds = ds" "ds = [] \<or> \<not> is_space (last ds)"
    by (cases ds; simp)+
  then show ?thesis
    by (simp add: py_strip_def lstrip_with_def rstrip_with_id)
qed

text \<open>\<open>int(str(n))\<close>.\<close>

lemma py_int_dec: "py_int (dec_of_nat n) = Ret (int n)"
proof -
  note ds = dec_of_nat_digits [of n]
  have "py_digits 0 False (dec_of_nat n) = Some n"
    using py_digits_dec [OF ds, of False 0] dec_value_dec_of_nat [of n] by (simp add: dec_value_def)
  moreover obtain c cs where c: "dec_of_nat n = c # cs" "is_dec c"
    using dec_of_nat_first by blast
  then have "c \<noteq> CHR ''-''" "c \<noteq> CHR ''+''"
    by (auto simp: is_dec_def)
  ultimately show ?thesis
    using c py_strip_digits [OF ds] by (simp add: py_int_def del: py_digits.simps)
qed

text \<open>A request whose unread body starts with \<open>b\<close>, announced by its length.\<close>

definition carries :: "'h handler \<Rightarrow> string \<Rightarrow> bool" where
  "carries w b = (rq_content w = None \<and> prefix b (rq_rfile w)
     \<and> header_get (rq_headers w) ''Content-Length'' = Some (dec_of_nat (length b)))"

abbreviation body_read :: "'h handler \<Rightarrow> string \<Rightarrow> 'h handler" where
  "body_read w b \<equiv> w\<lparr>rq_content := Some b, rq_rfile := drop (length b) (rq_rfile w)\<rparr>"

lemma content_carries: "carries w b \<Longrightarrow> content w = (Ret b, body_read w b)"
  by (auto simp: carries_def content_def py_int_dec read_body_def io_simps prefix_def Let_def)

lemma parse_carries:
  "carries w b \<Longrightarrow> b \<noteq> [] \<Longrightarrow> parse_json_content js w = (h_loads js b, body_read w b)"
  by (simp add: parse_json_content_def content_carries io_simps)

section \<open>Encoded by the client, decoded by the service\<close>

lemma emits_silent_tail: "emits (\<lambda>_. False) f \<Longrightarrow> calls (snd (f w)) = calls w"
  by (fastforce simp: emits_def)

text \<open>Once the command line is built and the process started, nothing else is called.\<close>

lemma zk_execute_calls:
  fixes w :: "'h handler"
  assumes "zk_headers_cmd env w cmd node data = Ret argv"
  shows "calls (snd (zk_execute js env cmd node data w)) = calls w @ [Popen argv]"
proof -
  have quiet: "calls (snd (bnd (lift_res a) (\<lambda>so. bnd (lift_res b) (\<lambda>se.
      bnd (lift_res (zk_status rc se)) (send_json_response js (zk_result rc so se)))) w')) = calls w'"
    for a b rc and w' :: "'h handler"
    by (intro emits_silent_tail emits_intros)
  show ?thesis
    using assms quiet
    by (cases "fst (zk_popen env argv (files w, host w))"; cases "zk_popen env argv (files w, host w)")
      (auto simp: zk_execute_app split: res.splits prod.splits)
qed

lemma handle_wrapped_calls: "calls (snd (handle_wrapped js f w)) = calls (snd (f w))"
  by (auto simp: handle_wrapped_def io_simps split: prod.splits res.splits exn.splits)

lemma esdc_runs:
  assumes ask: "asks_for w meth cmd node" and cmd: "cmd \<in> set zk_commands"
    and data: "parse_json_content js (w\<lparr>rq_method := Some meth\<rparr>) = (Ret (PDict data), w1)"
    and argv: "zk_headers_cmd env w1 cmd node data = Ret argv"
  shows "calls (snd (esdc_serve js env meth w)) = calls w1 @ [Popen argv]"
proof -
  have m: "meth \<in> set zk_methods" using ask by (simp add: asks_for_def)
  have "esdc_handle_request js env (w\<lparr>rq_method := Some meth\<rparr>) = zk_execute js env cmd node data w1"
    by (simp add: esdc_handle_asks_for [OF ask cmd] data io_simps)
  then show ?thesis
    by (simp add: esdc_serve_method [OF m] handle_wrapped_calls zk_execute_calls [OF argv])
qed

text \<open>C10. What a client stores is handed on verbatim. When the body of a request is an object with the one
  entry \<open>data\<close>, a text within the size limit, as Python's \<open>json.dumps\<close> writes it in any layout, the
  service makes exactly one call of \<open>Popen\<close>, for \<open>zookeepercli\<close>, and its last argument is that text: no
  quoting, escaping or other change on the way, whatever characters it has. Whether the operating system
  can start the process with it (not with a \<open>NUL\<close>, nor beyond its limit for arguments) is another matter.\<close>

theorem esdc_data_arrives_verbatim:
  assumes ask: "asks_for w meth cmd node" and cmd: "cmd \<in> set zk_commands"
    and body: "carries w (json_dumps st (PDict [(''data'', PStr txt)]))"
    and style: "style_ok st" and depth: "1 \<le> d"
    and valid: "utf8_valid txt" "py_len txt \<le> zk_data_size_limit"
    and node: "py_len node \<le> default_string_max_length"
    and hdr: "header_get (rq_headers w) ''zk-username'' = None"
      "header_get (rq_headers w) ''zk-password'' = None"
  shows "calls (snd (esdc_serve (py3_json rep wide d) env meth w))
     = calls w @ [Popen (zk_base_cmd env @ [''-c'', cmd, node, txt])]"
proof -
  let ?v = "PDict [(''data'', PStr txt)]"
  let ?b = "json_dumps st ?v"
  let ?w = "w\<lparr>rq_method := Some meth\<rparr>"
  have "utf8_valid ''data''"
    by (rule utf8_valid_ascii) simp
  then have ok: "admissible st d ?v"
    using style valid(1) depth by (simp add: admissible_def dict_keys_def del: utf8_valid.simps)
  have "json_loads_bytes wide d ?b = Ret ?v"
    using json_bytes.decodes [OF ok] by (simp add: key_order_def)
  moreover have "?b \<noteq> []"
    by (rule json_bytes.writes [OF ok])
  moreover have "carries ?w ?b"
    using body by (simp add: carries_def)
  ultimately have "parse_json_content (py3_json rep wide d) ?w = (Ret ?v, body_read ?w ?b)"
    by (simp add: parse_carries py3_json_def)
  moreover have "zk_headers_cmd env (body_read ?w ?b) cmd node [(''data'', PStr txt)]
      = Ret (zk_base_cmd env @ [''-c'', cmd, node, txt])"
    using valid(2) node hdr
    by (simp add: zk_headers_cmd_def zk_build_cmd_def zk_option_def validate_string_input_def dict_get_def)
  ultimately show ?thesis
    using esdc_runs [OF ask cmd] by fastforce
qed

lemma esdc_executes:
  assumes ask: "asks_for w meth cmd node" and cmd: "cmd \<in> set zk_commands"
    and data: "parse_json_content (py3_json rep wide d) (w\<lparr>rq_method := Some meth\<rparr>) = (Ret (PDict data), w1)"
    and argv: "zk_headers_cmd env w1 cmd node data = Ret argv"
    and run: "zk_popen env argv (files w1, host w1) = (Ret (rc, out, err), s)"
    and utf8: "utf8_valid (py_strip out)" "utf8_valid (py_strip err)"
    and answered: "rc = 0 \<or> py_strip err \<noteq> []" and depth: "1 \<le> d"
  shows "\<exists>w' b. esdc_serve (py3_json rep wide d) env meth w = (Ret (), w') \<and> (files w', host w') = s
     \<and> rq_out w' = rq_out w1 @ [SendResponse (if rc = 0 then 200 else 400),
         SendHeader ''Content-Type'' ''application/json'', EndHeaders, WriteBody b]
     \<and> json_loads_bytes wide d b = Ret (PDict [(''returncode'', PInt rc),
         (''stdout'', PStr (py_strip out)), (''stderr'', PStr (py_strip err))])"
proof -
  let ?js = "py3_json rep wide d"
  let ?v = "zk_result rc (py_strip out) (py_strip err)"
  have m: "meth \<in> set zk_methods" using ask by (simp add: asks_for_def)
  have "utf8_valid ''returncode''" "utf8_valid ''stdout''" "utf8_valid ''stderr''"
    by (rule utf8_valid_ascii, simp)+
  then have ok: "admissible (default_style rep) d ?v"
    using utf8 depth by (simp add: admissible_def zk_result_def dict_keys_def del: utf8_valid.simps)
  have "json_loads_bytes wide d (json_dumps (default_style rep) ?v) = Ret ?v"
    using json_bytes.decodes [OF ok] by (simp add: key_order_def)
  moreover have "\<exists>w'. esdc_serve ?js env meth w = (Ret (), w') \<and> (files w', host w') = s
      \<and> rq_out w' = rq_out w1 @ json_answer ?js (if rc = 0 then 200 else 400) ?v"
    unfolding esdc_serve_method [OF m]
    using data argv run utf8 answered
    by (auto simp: handle_wrapped_def esdc_handle_asks_for [OF ask cmd] zk_execute_app zk_status_cases
        py_decode_def io_simps)
  ultimately show ?thesis
    by (auto simp: json_answer_def py3_json_def zk_result_def)
qed

text \<open>What the service answers can be read: the body of the answer to an executed request decodes,
  as bytes, to the object with the exit code and the stripped texts of the command's two streams, with
  status 200 for exit code 0 and 400 otherwise.\<close>

lemma esdc_answer_decodes:
  assumes ask: "asks_for w meth cmd node" and cmd: "cmd \<in> set zk_commands"
    and data: "parse_json_content (py3_json rep wide d) (w\<lparr>rq_method := Some meth\<rparr>) = (Ret (PDict data), w1)"
    and argv: "zk_headers_cmd env w1 cmd node data = Ret argv"
    and run: "zk_popen env argv (files w1, host w1) = (Ret (rc, out, err), s)"
    and utf8: "utf8_valid (py_strip out)" "utf8_valid (py_strip err)"
    and answered: "rc = 0 \<or> py_strip err \<noteq> []" and depth: "1 \<le> d"
  shows "\<exists>w' b. esdc_serve (py3_json rep wide d) env meth w = (Ret (), w')
     \<and> rq_out w' = rq_out w1 @ [SendResponse (if rc = 0 then 200 else 400),
         SendHeader ''Content-Type'' ''application/json'', EndHeaders, WriteBody b]
     \<and> json_loads_bytes wide d b = Ret (PDict [(''returncode'', PInt rc),
         (''stdout'', PStr (py_strip out)), (''stderr'', PStr (py_strip err))])"
  using esdc_executes [OF assms] by blast

section \<open>Bodies that nest too deeply\<close>

lemma deep_value:
  "json_value n d (replicate (Suc d) (CHR ''['') @ r) = Some x \<Longrightarrow> x = Exc recursion_error"
proof (induction d arbitrary: n x)
  case 0
  then show ?case by (cases n) simp_all
next
  case (Suc d)
  let ?t = "replicate (Suc d) (CHR ''['') @ r"
  from Suc.prems obtain m where n: "n = Suc m" by (cases n) simp_all
  have t: "skip_ws ?t = ?t" "\<not> prefix '']'' ?t" by (simp_all add: skip_ws_def is_ws_def)
  have e: "json_elements m d [] ?t = Some x"
    using Suc.prems t by (simp add: n del: json_elements.simps)
  then obtain k where m: "m = Suc k" by (cases m) simp_all
  obtain y where y: "json_value k d ?t = Some y"
    using e by (auto simp: m fbind_def simp del: json_value.simps split: option.splits)
  have "y = Exc recursion_error" by (rule Suc.IH [OF y])
  with e y show ?case by (simp add: m del: json_value.simps)
qed

lemma deep_loads: "json_loads d (replicate (Suc d) (CHR ''['') @ r) = Exc recursion_error"
proof -
  let ?s = "replicate (Suc d) (CHR ''['') @ r"
  have s: "skip_ws ?s = ?s" by (simp add: skip_ws_def is_ws_def)
  obtain x where x: "json_value (2 * length ?s + 1) d ?s = Some x"
    using json_total [of ?s] unfolding s by blast
  then show ?thesis
    using deep_value [OF x] unfolding json_loads_def s by (simp del: json_value.simps)
qed


section \<open>Witnesses\<close>

abbreviation sample_py3 :: "nat \<Rightarrow> jsonrt" where
  "sample_py3 \<equiv> py3_json (\<lambda>v. []) (\<lambda>enc b. Exc UnicodeDecodeError)"

text \<open>A request with a body: a text with a quote, a newline and a euro sign, indented.\<close>

definition sample_text :: string where
  "sample_text = ''a'' @ [CHR 0x22, CHR 0x0A, CHR 0xE2, CHR 0x82, CHR 0xAC]"

definition sample_body :: string where
  "sample_body = json_dumps (pretty_style (\<lambda>v. [])) (PDict [(''data'', PStr sample_text)])"

definition sample_carrying :: "string \<Rightarrow> unit handler" where
  "sample_carrying b = sample_request ''/esdc/a'' [(''content-length'', dec_of_nat (length b))] b"

lemma sample_carries: "carries (sample_carrying b) b"
  by (simp add: carries_def sample_carrying_def sample_request_def sample_length)

lemma sample_carrying_asks:
  "asks_for (sample_carrying b) ''GET'' ''get'' ''/esdc/a''"
  "asks_for (sample_carrying b) ''PUT'' ''set'' ''/esdc/a''"
  using sample_asks(1,2) by (simp_all add: sample_carrying_def)

theorem esdc_data_arrives_verbatim_witness:
  "calls (snd (esdc_serve (sample_py3 9) sample_zkenv ''PUT'' (sample_carrying sample_body)))
     = [Popen [''zookeepercli'', ''-servers'', ''127.0.0.1'', ''-c'', ''set'', ''/esdc/a'', sample_text]]"
proof -
  have "calls (snd (esdc_serve (sample_py3 9) sample_zkenv ''PUT'' (sample_carrying sample_body)))
      = calls (sample_carrying sample_body)
        @ [Popen (zk_base_cmd sample_zkenv @ [''-c'', ''set'', ''/esdc/a'', sample_text])]"
  proof (rule esdc_data_arrives_verbatim [OF sample_carrying_asks(2) sample_cmds_known(2)])
    show "carries (sample_carrying sample_body)
        (json_dumps (pretty_style (\<lambda>v. [])) (PDict [(''data'', PStr sample_text)]))"
      using sample_carries [of sample_body] by (simp only: sample_body_def)
    show "utf8_valid sample_text" "py_len ''/esdc/a'' \<le> default_string_max_length" by code_simp+
    show "py_len sample_text \<le> zk_data_size_limit"
      by (simp add: py_len_def sample_text_def zk_data_size_limit_def)
  qed (simp_all add: sample_carrying_def sample_request_def sample_length)
  then show ?thesis
    by (simp add: zk_base_cmd_def zk_servers_def environ_get_def sample_zkenv_def sample_carrying_def
        sample_request_def)
qed


end
