(* ===== verification/CfgdbServer.thy ===== *)
theory CfgdbServer
  imports PyIO
begin

text \<open>
  The server process of \<open>cfgdb_zk_rest_server.py\<close>: \<open>run_server\<close> and \<open>main\<close>. What
  \<open>serve_forever\<close> does after it has been entered is the argument \<open>serve\<close>: \<open>CfgdbService\<close> puts the
  handling of requests there. It ends with the \<open>KeyboardInterrupt\<close> of \<open>stop_server\<close>. The environment
  variables and the library calls (the socket, TLS, signals) are the record \<open>srvenv\<close>.
\<close>

section \<open>The server\<close>

record 'h srvenv =
  sv_environ :: "string \<rightharpoonup> string"
  sv_lib :: "string \<Rightarrow> pyval list \<Rightarrow> ('h, unit) outside"

definition sv_call :: "'h srvenv \<Rightarrow> string \<Rightarrow> pyval list \<Rightarrow> ('h world, unit) io" where
  "sv_call env name args = ext (LibCall name args) (sv_lib env name args)"

definition DEFAULT_HTTP_ADDRESS :: pyval where
  "DEFAULT_HTTP_ADDRESS = PStr []"

definition DEFAULT_HTTP_PORT :: pyval where
  "DEFAULT_HTTP_PORT = PInt 12181"

text \<open>\<open>HTTPServer((address, port), handler)\<close>: binding the socket needs an integer port.\<close>

fun http_server :: "'h srvenv \<Rightarrow> pyval \<Rightarrow> pyval \<Rightarrow> ('h world, unit) io" where
  "http_server env address (PInt i) =
     (if 0 \<le> i \<and> i \<le> 65535 then sv_call env ''HTTPServer'' [address, PInt i]
      else raise (OtherException ''bind(): port must be 0-65535.''))"
| "http_server env address port = raise (TypeError ''an integer is required'')"

text \<open>The handler of the signals.\<close>

definition stop_server :: "('h world, unit) io" where
  "stop_server = raise KeyboardInterrupt"

definition serve_forever :: "'h srvenv \<Rightarrow> ('h world, unit) io \<Rightarrow> ('h world, unit) io" where
  "serve_forever env serve = sq (sv_call env ''serve_forever'' []) serve"

definition run_server ::
  "'h srvenv \<Rightarrow> ('h world, unit) io \<Rightarrow> pyval \<Rightarrow> pyval \<Rightarrow> pyval \<Rightarrow> pyval \<Rightarrow> pyval \<Rightarrow> ('h world, unit) io" where
  "run_server env serve address port ssl_cert ssl_key ca_certs =
     sq (http_server env address port)
     (sq (if_then (truthy ssl_cert) (sv_call env ''wrap_socket'' [ssl_key, ssl_cert, ca_certs]))
     (sq (sv_call env ''signal'' [PStr ''SIGINT''])
     (sq (sv_call env ''signal'' [PStr ''SIGTERM''])
     (sq (try_except (serve_forever env serve) (\<lambda>e. e = KeyboardInterrupt)
            (\<lambda>e. sv_call env ''shutdown'' []))
         (sv_call env ''server_close'' [])))))"

text \<open>\<open>os.environ.get(k, d)\<close>.\<close>

definition sv_get :: "'h srvenv \<Rightarrow> string \<Rightarrow> pyval \<Rightarrow> pyval" where
  "sv_get env k d = (case sv_environ env k of None \<Rightarrow> d | Some s \<Rightarrow> PStr s)"

definition server_main :: "'h srvenv \<Rightarrow> ('h world, unit) io \<Rightarrow> ('h world, unit) io" where
  "server_main env serve =
     run_server env serve (sv_get env ''ZK_REST_HTTP_ADDRESS'' DEFAULT_HTTP_ADDRESS)
       (sv_get env ''ZK_REST_HTTP_PORT'' DEFAULT_HTTP_PORT)
       (sv_get env ''ZK_REST_HTTP_SSL_CERT'' PNone) (sv_get env ''ZK_REST_HTTP_SSL_KEY'' PNone)
       (sv_get env ''ZK_REST_HTTP_CA_CERTS'' PNone)"

section \<open>Behaviour\<close>

abbreviation sv_tls :: "'h srvenv \<Rightarrow> call list" where
  "sv_tls env \<equiv>
     (if truthy (sv_get env ''ZK_REST_HTTP_SSL_CERT'' PNone)
      then [LibCall ''wrap_socket'' [sv_get env ''ZK_REST_HTTP_SSL_KEY'' PNone,
              sv_get env ''ZK_REST_HTTP_SSL_CERT'' PNone, sv_get env ''ZK_REST_HTTP_CA_CERTS'' PNone]]
      else [])"

text \<open>The calls of a run, as far as it gets.\<close>

definition sv_script :: "'h srvenv \<Rightarrow> call list" where
  "sv_script env =
     LibCall ''HTTPServer'' [sv_get env ''ZK_REST_HTTP_ADDRESS'' DEFAULT_HTTP_ADDRESS, DEFAULT_HTTP_PORT]
     # sv_tls env
     @ [LibCall ''signal'' [PStr ''SIGINT''], LibCall ''signal'' [PStr ''SIGTERM'']]"

lemma sv_call_app:
  "sv_call env n a w = (fst (sv_lib env n a (files w, host w)),
     after_call w (LibCall n a) (snd (sv_lib env n a (files w, host w))))"
  by (simp add: sv_call_def io_simps)

lemma sv_default_port:
  assumes "sv_environ env ''ZK_REST_HTTP_PORT'' = None"
  shows "http_server env address (sv_get env ''ZK_REST_HTTP_PORT'' DEFAULT_HTTP_PORT)
     = sv_call env ''HTTPServer'' [address, DEFAULT_HTTP_PORT]"
  using assms by (simp add: sv_get_def DEFAULT_HTTP_PORT_def)

text \<open>A call that extends the log by at most one entry of the script.\<close>

lemma sq_script:
  assumes "\<And>w. calls (snd (f w)) = calls w @ [c]"
    and "\<And>w. \<exists>cs. calls (snd (g w)) = calls w @ cs \<and> P cs"
    and "P' [c]" and "\<And>cs. P cs \<Longrightarrow> P' (c # cs)"
  shows "\<exists>cs. calls (snd (sq f g w)) = calls w @ cs \<and> P' cs"
proof (cases "f w")
  case (Pair r w')
  with assms(1) [of w] have "calls w' = calls w @ [c]" by simp
  with Pair assms(2) [of w'] assms(3,4) show ?thesis
    by (cases r) (auto simp: sq_app)
qed

text \<open>\<open>follows c0 pre cs\<close>: the call \<open>c0\<close> happens in \<open>cs\<close> only right after \<open>pre\<close>.\<close>

definition follows :: "call \<Rightarrow> call list \<Rightarrow> call list \<Rightarrow> bool" where
  "follows c0 pre cs = (c0 \<in> set cs \<longrightarrow> (\<exists>post. cs = pre @ c0 # post))"

lemma sq_follows:
  assumes "\<And>w. calls (snd (f w)) = calls w @ [c]" and "c \<noteq> c0"
    and "\<And>w. \<exists>cs. calls (snd (g w)) = calls w @ cs \<and> follows c0 pre cs"
  shows "\<exists>cs. calls (snd (sq f g w)) = calls w @ cs \<and> follows c0 (c # pre) cs"
  by (rule sq_script [OF assms(1,3)]) (use assms(2) in \<open>auto simp: follows_def\<close>)

lemma calls_sv_call: "calls (snd (sv_call env n a w)) = calls w @ [LibCall n a]"
  by (simp add: sv_call_app)

lemma serve_follows:
  fixes serve :: "('h world, unit) io"
  assumes "emits (\<lambda>_. True) serve"
  shows "\<exists>cs. calls (snd (sq (try_except (serve_forever env serve) p (\<lambda>e. sv_call env ''shutdown'' []))
        (sv_call env ''server_close'' []) w)) = calls w @ cs
     \<and> follows (LibCall ''serve_forever'' []) [] cs"
proof -
  let ?f = "sv_call env ''serve_forever'' []"
  have more: "emits (\<lambda>_. True) (sq (try_except serve p (\<lambda>e. sv_call env ''shutdown'' []))
      (sv_call env ''server_close'' []))"
    "emits (\<lambda>_. True) (sq (sv_call env ''shutdown'' []) (sv_call env ''server_close'' []))"
    using assms unfolding sv_call_def by (auto intro!: emits_intros)
  have appends: "\<exists>cs. calls (snd (g v)) = calls v @ cs" if "emits (\<lambda>_. True) g"
    for g :: "('h world, unit) io" and v
    using that by (simp add: emits_def)
  obtain r w1 where f: "?f w = (r, w1)" "calls w1 = calls w @ [LibCall ''serve_forever'' []]"
    by (simp add: sv_call_app)
  have "\<exists>cs. calls (snd (sq (try_except (serve_forever env serve) p (\<lambda>e. sv_call env ''shutdown'' []))
        (sv_call env ''server_close'' []) w)) = calls w1 @ cs"
  proof (cases r)
    case (Ret x)
    have "sq (try_except (serve_forever env serve) p (\<lambda>e. sv_call env ''shutdown'' []))
        (sv_call env ''server_close'' []) w
      = sq (try_except serve p (\<lambda>e. sv_call env ''shutdown'' [])) (sv_call env ''server_close'' []) w1"
      using f(1) Ret by (simp add: serve_forever_def sq_app try_except_app)
    then show ?thesis using appends [OF more(1), of w1] by simp
  next
    case (Exc e)
    have "sq (try_except (serve_forever env serve) p (\<lambda>e. sv_call env ''shutdown'' []))
        (sv_call env ''server_close'' []) w
      = (if p e then sq (sv_call env ''shutdown'' []) (sv_call env ''server_close'' []) w1 else (Exc e, w1))"
      using f(1) Exc by (simp add: serve_forever_def sq_app try_except_app)
    then show ?thesis using appends [OF more(2), of w1] by simp
  qed
  with f(2) show ?thesis by (auto simp: follows_def)
qed

lemma run_server_follows:
  assumes server: "http_server env address port = sv_call env ''HTTPServer'' [address, port]"
    and serve: "emits (\<lambda>_. True) serve"
  shows "\<exists>cs. calls (snd (run_server env serve address port cert key ca w)) = calls w @ cs
     \<and> follows (LibCall ''serve_forever'' [])
         (LibCall ''HTTPServer'' [address, port]
          # (if truthy cert then [LibCall ''wrap_socket'' [key, cert, ca]] else [])
          @ [LibCall ''signal'' [PStr ''SIGINT''], LibCall ''signal'' [PStr ''SIGTERM'']]) cs"
proof -
  let ?serve = "sq (try_except (serve_forever env serve) (\<lambda>e. e = KeyboardInterrupt)
      (\<lambda>e. sv_call env ''shutdown'' [])) (sv_call env ''server_close'' [])"
  let ?signals = "sq (sv_call env ''signal'' [PStr ''SIGINT''])
      (sq (sv_call env ''signal'' [PStr ''SIGTERM'']) ?serve)"
  note step = sq_follows [OF calls_sv_call, rotated]
  have signals: "\<exists>cs. calls (snd (?signals w)) = calls w @ cs
     \<and> follows (LibCall ''serve_forever'' [])
         [LibCall ''signal'' [PStr ''SIGINT''], LibCall ''signal'' [PStr ''SIGTERM'']] cs" for w
    by (intro step serve_follows [OF serve]) simp_all
  show ?thesis
  proof (cases "truthy cert")
    case True
    show ?thesis
      unfolding run_server_def server if_then_def if_P [OF True] append_Cons append_Nil
      by (intro step signals) simp_all
  next
    case False
    show ?thesis
      unfolding run_server_def server if_then_def if_not_P [OF False] sq_ret append_Cons append_Nil
      by (intro step signals) simp_all
  qed
qed

lemma server_main_follows:
  assumes port: "sv_environ env ''ZK_REST_HTTP_PORT'' = None" and serve: "emits (\<lambda>_. True) serve"
  shows "\<exists>cs. calls (snd (server_main env serve w)) = calls w @ cs
     \<and> follows (LibCall ''serve_forever'' []) (sv_script env) cs"
proof -
  have p: "sv_get env ''ZK_REST_HTTP_PORT'' DEFAULT_HTTP_PORT = DEFAULT_HTTP_PORT"
    using port by (simp add: sv_get_def)
  show ?thesis
    unfolding server_main_def sv_script_def p
    using run_server_follows [OF sv_default_port [OF port, unfolded p] serve] by simp
qed

text \<open>When the library calls return, the process gets to serve. \<open>reaches f g cs\<close>: \<open>f\<close> makes the calls \<open>cs\<close>
  and goes on as \<open>g\<close>.\<close>

definition reaches :: "('h world, unit) io \<Rightarrow> ('h world, unit) io \<Rightarrow> call list \<Rightarrow> bool" where
  "reaches f g cs = (\<forall>w. \<exists>w1. f w = g w1 \<and> calls w1 = calls w @ cs)"

lemma reaches_refl: "reaches f f []"
  by (auto simp: reaches_def)

lemma reaches_call:
  fixes f :: "('h world, unit) io"
  assumes "\<And>s. fst (sv_lib env n a s) = Ret ()" and "reaches f g cs"
  shows "reaches (sq (sv_call env n a) f) g (LibCall n a # cs)"
  unfolding reaches_def
proof
  fix w :: "'h world"
  let ?v = "after_call w (LibCall n a) (snd (sv_lib env n a (files w, host w)))"
  obtain w1 where "f ?v = g w1" "calls w1 = calls ?v @ cs"
    using assms(2) unfolding reaches_def by blast
  then show "\<exists>w1. sq (sv_call env n a) f w = g w1 \<and> calls w1 = calls w @ LibCall n a # cs"
    using assms(1) by (intro exI [of _ w1]) (simp add: sq_app sv_call_app)
qed

lemma server_main_serves:
  assumes port: "sv_environ env ''ZK_REST_HTTP_PORT'' = None"
    and lib: "\<And>f args s. fst (sv_lib env f args s) = Ret ()"
  shows "\<exists>w1. server_main env serve w = sq (try_except serve (\<lambda>e. e = KeyboardInterrupt)
      (\<lambda>e. sv_call env ''shutdown'' [])) (sv_call env ''server_close'' []) w1
     \<and> calls w1 = calls w @ sv_script env @ [LibCall ''serve_forever'' []]"
proof -
  have p: "sv_get env ''ZK_REST_HTTP_PORT'' DEFAULT_HTTP_PORT = DEFAULT_HTTP_PORT"
    using port by (simp add: sv_get_def)
  let ?P = "\<lambda>e. e = KeyboardInterrupt" and ?h = "\<lambda>e. sv_call env ''shutdown'' []"
    and ?close = "sv_call env ''server_close'' []"
  let ?goal = "sq (try_except serve ?P ?h) ?close"
  have "sq (try_except (serve_forever env serve) ?P ?h) ?close = sq (sv_call env ''serve_forever'' []) ?goal"
    using lib by (auto simp: serve_forever_def fun_eq_iff sq_app try_except_app sv_call_app)
  then have "reaches (sq (sv_call env ''signal'' [PStr ''SIGINT'']) (sq (sv_call env ''signal'' [PStr ''SIGTERM''])
      (sq (try_except (serve_forever env serve) ?P ?h) ?close))) ?goal
      [LibCall ''signal'' [PStr ''SIGINT''], LibCall ''signal'' [PStr ''SIGTERM''], LibCall ''serve_forever'' []]"
    by (simp only:) (intro reaches_call lib reaches_refl)
  then have "reaches (server_main env serve) ?goal (sv_script env @ [LibCall ''serve_forever'' []])"
    unfolding server_main_def run_server_def sv_script_def p sv_default_port [OF port, unfolded p]
    by (cases "truthy (sv_get env ''ZK_REST_HTTP_SSL_CERT'' PNone)")
      (auto simp: if_then_def sq_ret intro!: reaches_call lib)
  then show ?thesis
    unfolding reaches_def by blast
qed

text \<open>The port cannot be configured: any value of the variable \<open>ZK_REST_HTTP_PORT\<close> reaches
  the socket as text, and the process dies before it binds.\<close>

lemma server_port_variable_dies:
  assumes "sv_environ env ''ZK_REST_HTTP_PORT'' = Some p"
  shows "server_main env serve w = (Exc (TypeError ''an integer is required''), w)"
  using assms by (simp add: server_main_def run_server_def sv_get_def io_simps)

section \<open>Witnesses\<close>

definition sample_srvenv :: "string option \<Rightarrow> unit srvenv" where
  "sample_srvenv port = \<lparr>sv_environ = [''ZK_REST_HTTP_SSL_CERT'' \<mapsto> ''c.crt''](''ZK_REST_HTTP_PORT'' := port),
     sv_lib = (\<lambda>n a s. (Ret (), s))\<rparr>"

definition sample_srv_world :: "unit world" where
  "sample_srv_world = \<lparr>files = Map.empty, host = (), calls = []\<rparr>"

end
