(* ===== verification/CfgdbService.thy ===== *)
theory CfgdbService
  imports CfgdbJson CfgdbServer
begin

text \<open>
  The REST service as a whole: the server process of \<open>CfgdbServer\<close>, whose \<open>serve_forever\<close> hands one
  request after the other to a fresh object of the handler class of \<open>CfgdbRest\<close>.

  \<open>http.server\<close> speaks HTTP/1.0 by default, hence one request per connection, and works on one
  connection at a time. It logs an \<open>Exception\<close> of a handler and goes on; everything else, the
  \<open>KeyboardInterrupt\<close> of a signal, leaves \<open>serve_forever\<close>. A signal comes between two requests, which
  is the end of the finite sequence of requests that the loop runs on, or while the client program runs
  for one (\<open>zk_popen\<close> raises \<open>KeyboardInterrupt\<close>); at other moments within a request it is not modelled.
\<close>

section \<open>Serving requests\<close>

record http_request =
  hq_method :: string
  hq_path :: string
  hq_headers :: "(string \<times> string) list"
  hq_body :: string

definition new_handler :: "http_request \<Rightarrow> 'h world \<Rightarrow> 'h handler" where
  "new_handler q w = \<lparr>files = files w, host = host w, calls = calls w, rq_method = None, rq_content = None,
     rq_path = hq_path q, rq_headers = hq_headers q, rq_rfile = hq_body q, rq_out = []\<rparr>"

text \<open>What is sent to the client is the result.\<close>

definition serve_one :: "jsonrt \<Rightarrow> 'h zkenv \<Rightarrow> http_request \<Rightarrow> ('h world, http_out list) io" where
  "serve_one js env q = (\<lambda>w. case esdc_serve js env (hq_method q) (new_handler q w) of
     (r, h) \<Rightarrow> (case r of Ret _ \<Rightarrow> Ret (rq_out h)
                | Exc e \<Rightarrow> if is_Exception e then Ret (rq_out h) else Exc e, world.truncate h))"

fun serve_requests ::
  "jsonrt \<Rightarrow> 'h zkenv \<Rightarrow> http_request list \<Rightarrow> ('h world, http_out list list) io" where
  "serve_requests js env [] = ret []"
| "serve_requests js env (q # qs) =
     bnd (serve_one js env q) (\<lambda>out. bnd (serve_requests js env qs) (\<lambda>outs. ret (out # outs)))"

definition rest_service :: "jsonrt \<Rightarrow> 'h zkenv \<Rightarrow> 'h srvenv \<Rightarrow> http_request list \<Rightarrow> ('h world, unit) io" where
  "rest_service js env sv qs = server_main sv (bnd (serve_requests js env qs) (\<lambda>_. stop_server))"

section \<open>The life of the process\<close>

lemma truncate_sels [simp]:
  "files (world.truncate w) = files w" "host (world.truncate w) = host w" "calls (world.truncate w) = calls w"
  by (simp_all add: world.truncate_def)

lemma new_handler_sels [simp]:
  "files (new_handler q w) = files w" "host (new_handler q w) = host w" "calls (new_handler q w) = calls w"
  "rq_path (new_handler q w) = hq_path q" "rq_headers (new_handler q w) = hq_headers q"
  "rq_rfile (new_handler q w) = hq_body q" "rq_content (new_handler q w) = None"
  "rq_out (new_handler q w) = []"
  by (simp_all add: new_handler_def)

text \<open>The commands of a sequence of requests.\<close>

lemma serve_one_commands:
  "\<exists>argvs. calls (snd (serve_one js env q w)) = calls w @ map Popen argvs
     \<and> list_all (zk_argv_ok env) argvs \<and> length argvs \<le> 1"
  using esdc_commands_bounded [of js env "hq_method q" "new_handler q w"]
  by (cases "esdc_serve js env (hq_method q) (new_handler q w)") (auto simp: serve_one_def)

lemma serve_requests_commands:
  "\<exists>argvs. calls (snd (serve_requests js env qs w)) = calls w @ map Popen argvs
     \<and> list_all (zk_argv_ok env) argvs \<and> length argvs \<le> length qs"
proof (induction qs arbitrary: w)
  case Nil
  show ?case by (simp add: ret_app)
next
  case (Cons q qs)
  obtain r w1 where w1: "serve_one js env q w = (r, w1)" by (cases "serve_one js env q w")
  with serve_one_commands [of js env q w] obtain as where as: "calls w1 = calls w @ map Popen as"
    "list_all (zk_argv_ok env) as" "length as \<le> 1" by auto
  show ?case
  proof (cases r)
    case (Exc e)
    then show ?thesis using w1 as by (intro exI [of _ as]) (simp add: bnd_app)
  next
    case (Ret out)
    obtain bs where bs: "calls (snd (serve_requests js env qs w1)) = calls w1 @ map Popen bs"
      "list_all (zk_argv_ok env) bs" "length bs \<le> length qs"
      using Cons.IH by blast
    have "calls (snd (serve_requests js env (q # qs) w)) = calls (snd (serve_requests js env qs w1))"
      using w1 Ret by (auto simp: bnd_app ret_app split: prod.splits res.splits)
    then show ?thesis using as bs by (intro exI [of _ "as @ bs"]) simp
  qed
qed

text \<open>\<open>spares P f\<close>: no exception in \<open>P\<close> leaves \<open>f\<close>. The interesting ones are no subclasses of \<open>Exception\<close>:
  the \<open>SystemExit\<close> that would end the process, and the \<open>KeyboardInterrupt\<close> of a signal.\<close>

definition spares :: "(exn \<Rightarrow> bool) \<Rightarrow> ('w, 'a) io \<Rightarrow> bool" where
  "spares P f = (\<forall>w e. fst (f w) = Exc e \<longrightarrow> \<not> P e)"

definition outer :: "(exn \<Rightarrow> bool) \<Rightarrow> bool" where
  "outer P = (\<forall>e. P e \<longrightarrow> \<not> is_Exception e)"

definition is_exit :: "exn \<Rightarrow> bool" where
  "is_exit e = (\<exists>n. e = SystemExit n)"

definition is_interrupt :: "exn \<Rightarrow> bool" where
  "is_interrupt e = (e = KeyboardInterrupt)"

lemma outer_exits: "outer is_exit" "outer is_interrupt"
  by (auto simp: outer_def is_exit_def is_interrupt_def)

named_theorems spares_intros

lemma spares_pure [spares_intros]: "spares P (ret x)" "spares P (gets g)" "spares P (send o')"
  "spares P (read_body i)" "spares P (set_method m)"
  by (simp_all add: spares_def io_simps read_body_def Let_def)

lemma spares_lift_res: "outer P \<Longrightarrow> (\<And>e. r = Exc e \<Longrightarrow> is_Exception e) \<Longrightarrow> spares P (lift_res r)"
  by (cases r) (auto simp: spares_def outer_def io_simps)

lemma spares_ext: "(\<And>s e. fst (f s) = Exc e \<Longrightarrow> \<not> P e) \<Longrightarrow> spares P (ext c f)"
  by (simp add: spares_def io_simps)

lemma spares_bnd [spares_intros]: "spares P f \<Longrightarrow> (\<And>x. spares P (g x)) \<Longrightarrow> spares P (bnd f g)"
  unfolding spares_def bnd_app by (auto split: prod.splits res.splits) (metis fst_conv)+

lemma spares_sq [spares_intros]: "spares P f \<Longrightarrow> spares P g \<Longrightarrow> spares P (sq f g)"
  unfolding sq_def by (rule spares_bnd)

lemma spares_try_except [spares_intros]:
  "spares P f \<Longrightarrow> (\<And>e. spares P (h e)) \<Longrightarrow> spares P (try_except f p h)"
  unfolding spares_def try_except_app by (auto split: prod.splits res.splits if_splits) (metis fst_conv)+

lemma spares_try_else [spares_intros]:
  "spares P f \<Longrightarrow> (\<And>e. spares P (h e)) \<Longrightarrow> (\<And>x. spares P (k x)) \<Longrightarrow> spares P (try_else f p h k)"
  unfolding spares_def try_else_app by (auto split: prod.splits res.splits if_splits) (metis fst_conv)+

lemma spares_if [spares_intros]: "spares P f \<Longrightarrow> spares P g \<Longrightarrow> spares P (if b then f else g)"
  by simp

lemma spares_case_option [spares_intros]:
  "spares P f \<Longrightarrow> (\<And>y. spares P (g y)) \<Longrightarrow> spares P (case x of None \<Rightarrow> f | Some y \<Rightarrow> g y)"
  by (cases x) auto

lemma spares_case_prod [spares_intros]: "(\<And>a b. spares P (f a b)) \<Longrightarrow> spares P (case x of (a, b) \<Rightarrow> f a b)"
  by (cases x) auto

lemma res_bind_Exc: "res_bind r f = Exc e \<Longrightarrow> (\<And>e. r = Exc e \<Longrightarrow> P e) \<Longrightarrow> (\<And>x e. f x = Exc e \<Longrightarrow> P e) \<Longrightarrow> P e"
  by (cases r) auto

lemma own_results:
  "py_int s = Exc e \<Longrightarrow> is_Exception e" "py_decode s = Exc e \<Longrightarrow> is_Exception e"
  "zk_status rc se = Exc e \<Longrightarrow> is_Exception e" "urlparse u = Exc e \<Longrightarrow> is_Exception e"
  "as_dict v = Exc e \<Longrightarrow> is_Exception e" "validate_string_input a v n = Exc e \<Longrightarrow> is_Exception e"
  by (auto simp: py_int_def py_decode_def zk_status_cases urlparse_def url_netloc_def validate_string_input_def Let_def
      split: option.splits if_splits prod.splits pyval.splits elim!: as_dict.elims res_bind_Exc)

lemma zk_option_exceptions: "zk_option flag a v = Exc e \<Longrightarrow> is_Exception e"
  by (auto simp: zk_option_def split: option.splits elim!: res_bind_Exc dest: own_results(6))

lemma zk_build_cmd_exceptions: "zk_build_cmd env c nd d f us pw = Exc e \<Longrightarrow> is_Exception e"
  unfolding zk_build_cmd_def
  by (elim res_bind_Exc; (elim zk_option_exceptions own_results(6))?;
      simp split: if_splits; elim res_bind_Exc; (elim own_results(6))?; simp)

lemmas own_exceptions = own_results(1-5) zk_build_cmd_exceptions

text \<open>The decoder and the client program, as far as their exceptions go.\<close>

definition outside_spares :: "(exn \<Rightarrow> bool) \<Rightarrow> jsonrt \<Rightarrow> 'h zkenv \<Rightarrow> bool" where
  "outside_spares P js env =
     ((\<forall>s e. h_loads js s = Exc e \<longrightarrow> \<not> P e) \<and> (\<forall>argv s e. fst (zk_popen env argv s) = Exc e \<longrightarrow> \<not> P e))"

text \<open>They do not exit on behalf of the process.\<close>

definition stays_alive :: "jsonrt \<Rightarrow> 'h zkenv \<Rightarrow> bool" where
  "stays_alive = outside_spares is_exit"

lemma spares_esdc_handle:
  fixes env :: "'h zkenv"
  assumes out: "outside_spares P js env" and P: "outer P"
  shows "spares P (esdc_handle_request js env)"
proof -
  have results: "spares P (lift_res (py_int s))" "spares P (lift_res (py_decode s))"
    "spares P (lift_res (zk_status rc s))" "spares P (lift_res (urlparse s))" "spares P (lift_res (as_dict v))"
    "spares P (lift_res (zk_build_cmd env c s v f us pw))" for s rc v c f us pw
    by (rule spares_lift_res [OF P], erule own_exceptions)+
  have loads: "spares P (lift_res (h_loads js s))" for s
    using out by (cases "h_loads js s") (auto simp: spares_def io_simps outside_spares_def)
  have popen: "spares P (ext (Popen argv) (zk_popen env argv))" for argv
    using out unfolding outside_spares_def by (intro spares_ext) blast
  have body: "spares P (bnd (case hdr of None \<Rightarrow> ret 0 | Some s \<Rightarrow> lift_res (py_int s)) read_body :: ('h, string) hio)"
    for hdr
    by (intro spares_intros results)
  have "\<not> P e" if "fst (content v) = Exc e" for e and v :: "'h handler"
  proof (cases "rq_content v")
    case None
    then have "content v = bnd (case header_get (rq_headers v) ''Content-Length'' of
        None \<Rightarrow> ret 0 | Some s \<Rightarrow> lift_res (py_int s)) read_body v"
      by (simp add: content_def)
    then show ?thesis using body that unfolding spares_def by metis
  qed (use that in \<open>simp add: content_def\<close>)
  then have "spares P (content :: ('h, string) hio)"
    by (simp add: spares_def)
  then show ?thesis
    unfolding esdc_handle_request_def zk_handle_request_def zk_execute_def run_zk_cmd_def
      parse_json_content_def send_json_response_def
    by (intro spares_intros loads popen results)
qed

lemma spares_serve_one:
  assumes "outside_spares P js env" and P: "outer P"
  shows "spares P (serve_one js env q)"
proof -
  have wrapped: "spares P (handle_wrapped js (esdc_handle_request js env))"
    unfolding spares_def
  proof (intro allI impI notI)
    fix w e
    assume "fst (handle_wrapped js (esdc_handle_request js env) w) = Exc e" and e: "P e"
    then have "fst (esdc_handle_request js env w) = Exc e"
      by (auto simp: handle_wrapped_def io_simps split: prod.splits res.splits exn.splits if_splits)
    then show False
      using spares_esdc_handle [OF assms] e by (simp add: spares_def)
  qed
  then have "spares P (esdc_serve js env m)" for m
    unfolding esdc_serve_def do_GET_def do_POST_def do_PUT_def do_DELETE_def zk_do_HEAD_def Let_def
    by (intro spares_intros)
  then show ?thesis
    by (auto simp: spares_def serve_one_def split: prod.splits res.splits if_splits) (metis fst_conv)+
qed

section \<open>The history of the requests\<close>

text \<open>A complete answer, as in \<open>esdc_answers_once\<close>.\<close>

definition answered :: "http_request \<Rightarrow> http_out list \<Rightarrow> bool" where
  "answered q os = (is_answer os \<or> (hq_method q = ''HEAD'' \<and>
     os = [SendResponse 200, SendHeader ''Content-Type'' ''application/json'', EndHeaders]))"

definition bounded :: "'h zkenv \<Rightarrow> string list list \<Rightarrow> bool" where
  "bounded env argvs = (length argvs \<le> 1 \<and> list_all (zk_argv_ok env) argvs)"

text \<open>The requests \<open>qs\<close> are handled one after the other; each gets a complete answer and starts at most one
  process.\<close>

inductive served ::
  "jsonrt \<Rightarrow> 'h zkenv \<Rightarrow> http_request list \<Rightarrow> 'h world \<Rightarrow> (http_out list \<times> string list list) list
   \<Rightarrow> 'h world \<Rightarrow> bool" for js env where
  served_Nil: "served js env [] w [] w"
| served_Cons: "serve_one js env q w = (Ret out, w1) \<Longrightarrow> answered q out \<Longrightarrow>
    calls w1 = calls w @ map Popen argvs \<Longrightarrow> bounded env argvs \<Longrightarrow> served js env qs w1 hist w2 \<Longrightarrow>
    served js env (q # qs) w ((out, argvs) # hist) w2"

lemma serve_one_outcome:
  "\<exists>argvs. calls (snd (serve_one js env q w)) = calls w @ map Popen argvs \<and> bounded env argvs
     \<and> (case fst (serve_one js env q w) of Ret out \<Rightarrow> answered q out | Exc e \<Rightarrow> \<not> is_Exception e)"
proof -
  have "case fst (serve_one js env q w) of Ret out \<Rightarrow> answered q out | Exc e \<Rightarrow> \<not> is_Exception e"
    using esdc_serve_answers [of js env "hq_method q" "new_handler q w"]
    by (auto simp: serve_one_def answered_def split: prod.splits res.splits)
  then show ?thesis
    using serve_one_commands [of js env q w] by (auto simp: bounded_def)
qed

text \<open>The requests are handled up to the one, if any, from whose handling an exception escapes.\<close>

lemma serve_requests_history:
  "\<exists>k hist last w2. k \<le> length qs \<and> served js env (take k qs) w hist w2
     \<and> (case serve_requests js env qs w of
          (Ret outs, w3) \<Rightarrow> k = length qs \<and> outs = map fst hist \<and> w3 = w2 \<and> last = []
        | (Exc e, w3) \<Rightarrow> k < length qs \<and> serve_one js env (qs ! k) w2 = (Exc e, w3) \<and> \<not> is_Exception e
            \<and> calls w3 = calls w2 @ map Popen last)
     \<and> bounded env last"
proof (induction qs arbitrary: w)
  case Nil
  show ?case
    by (intro exI [of _ 0] exI [of _ "[]"] exI [of _ w]) (simp add: ret_app served_Nil bounded_def)
next
  case (Cons q qs)
  obtain r w1 where w1: "serve_one js env q w = (r, w1)" by (cases "serve_one js env q w")
  with serve_one_outcome [of js env q w] obtain argvs where argvs: "calls w1 = calls w @ map Popen argvs"
    "bounded env argvs" "case r of Ret out \<Rightarrow> answered q out | Exc e \<Rightarrow> \<not> is_Exception e" by auto
  show ?case
  proof (cases r)
    case (Exc e)
    then show ?thesis
      using w1 argvs
      by (intro exI [of _ 0] exI [of _ "[]"] exI [of _ argvs] exI [of _ w]) (simp add: bnd_app served_Nil)
  next
    case (Ret out)
    obtain k hist last w2 where ih: "k \<le> length qs" "served js env (take k qs) w1 hist w2" "bounded env last"
      "case serve_requests js env qs w1 of
          (Ret outs, w3) \<Rightarrow> k = length qs \<and> outs = map fst hist \<and> w3 = w2 \<and> last = []
        | (Exc e, w3) \<Rightarrow> k < length qs \<and> serve_one js env (qs ! k) w2 = (Exc e, w3) \<and> \<not> is_Exception e
            \<and> calls w3 = calls w2 @ map Popen last"
      using Cons.IH [of w1] by (elim exE conjE) (rule that)
    have "served js env (take (Suc k) (q # qs)) w ((out, argvs) # hist) w2"
      using w1 Ret argvs ih(2) by (simp add: served_Cons)
    then show ?thesis
      using w1 Ret ih
      by (intro exI [of _ "Suc k"] exI [of _ "(out, argvs) # hist"] exI [of _ last] exI [of _ w2])
        (auto simp: bnd_app ret_app split: prod.splits res.splits)
  qed
qed

text \<open>C20. The service never speaks plain HTTP when a certificate is configured: whatever the library
  calls do and the clients send, the process starts serving only right after it has bound its address on
  port 12181, wrapped the socket in TLS with the configured key, certificate and authorities if a
  certificate is set, and installed both signal handlers.\<close>

theorem service_serves_after_setup:
  assumes "sv_environ sv ''ZK_REST_HTTP_PORT'' = None"
  shows "\<exists>cs. calls (snd (rest_service js env sv qs w)) = calls w @ cs
     \<and> follows (LibCall ''serve_forever'' []) (sv_script sv) cs"
proof -
  have "emits (\<lambda>_. True) (serve_requests js env qs)"
    using serve_requests_commands [of js env qs] by (fastforce simp: emits_def)
  then have "emits (\<lambda>_. True) (bnd (serve_requests js env qs) (\<lambda>_. stop_server))"
    unfolding stop_server_def by (intro emits_intros)
  then show ?thesis
    unfolding rest_service_def by (rule server_main_follows [OF assms])
qed

lemma serving_ends:
  fixes w :: "'h world"
  assumes alive: "stays_alive js env"
  shows "\<exists>k hist last w2 w3. k \<le> length qs \<and> served js env (take k qs) w hist w2
     \<and> (k = length qs \<and> w3 = w2 \<and> last = []
        \<or> k < length qs \<and> serve_one js env (qs ! k) w2 = (Exc KeyboardInterrupt, w3))
     \<and> calls w3 = calls w2 @ map Popen last \<and> bounded env last
     \<and> (outside_spares is_interrupt js env \<longrightarrow> k = length qs)
     \<and> bnd (serve_requests js env qs) (\<lambda>_. stop_server) w = (Exc KeyboardInterrupt, w3)"
proof -
  obtain k hist last w2 where h: "k \<le> length qs" "served js env (take k qs) w hist w2" "bounded env last"
    and r: "case serve_requests js env qs w of
          (Ret outs, w3) \<Rightarrow> k = length qs \<and> outs = map fst hist \<and> w3 = w2 \<and> last = []
        | (Exc e, w3) \<Rightarrow> k < length qs \<and> serve_one js env (qs ! k) w2 = (Exc e, w3) \<and> \<not> is_Exception e
            \<and> calls w3 = calls w2 @ map Popen last"
    using serve_requests_history [of qs js env w] by (elim exE conjE) (rule that)
  obtain res w3 where run: "serve_requests js env qs w = (res, w3)" by (cases "serve_requests js env qs w")
  show ?thesis
  proof (cases res)
    case (Ret outs)
    then show ?thesis
      using h r run
      by (intro exI [of _ k] exI [of _ hist] exI [of _ last] exI [of _ w2] exI [of _ w3])
        (simp add: bnd_app stop_server_def raise_app)
  next
    case (Exc e)
    then have s: "serve_one js env (qs ! k) w2 = (Exc e, w3)" "\<not> is_Exception e" "k < length qs"
      "calls w3 = calls w2 @ map Popen last"
      using r run by simp_all
    have spared: "\<not> P e" if "outside_spares P js env" "outer P" for P
      using spares_serve_one [OF that, of "qs ! k"] s(1) unfolding spares_def by (metis fst_conv)
    have "\<not> is_exit e"
      using spared [OF alive [unfolded stays_alive_def] outer_exits(1)] .
    then have e: "e = KeyboardInterrupt"
      using s(2) by (cases e) (simp_all add: is_exit_def)
    have "\<not> outside_spares is_interrupt js env"
      using spared [OF _ outer_exits(2)] e by (auto simp: is_interrupt_def)
    then show ?thesis
      using h s run Exc e
      by (intro exI [of _ k] exI [of _ hist] exI [of _ last] exI [of _ w2] exI [of _ w3])
        (simp add: bnd_app)
  qed
qed

text \<open>C4. No request brings the service down. When the library calls of the process return (binding,
  TLS, signals, shutdown), it sets itself up and handles the requests one after the other: each gets one
  complete answer and starts at most one process, a run of the client program within the limits of
  \<open>zk_argv_ok\<close>. This goes on until the signal, which comes after any number of requests or interrupts the
  run of the client program for one of them; if no such run is interrupted, all requests are answered.
  Then the process shuts down, closes its socket and ends normally.\<close>

theorem rest_service_lifecycle:
  assumes port: "sv_environ sv ''ZK_REST_HTTP_PORT'' = None" and alive: "stays_alive js env"
    and lib: "\<And>f args s. fst (sv_lib sv f args s) = Ret ()"
  shows "\<exists>k hist last w1 w2 w3 w'. calls w1 = calls w @ sv_script sv @ [LibCall ''serve_forever'' []]
     \<and> k \<le> length qs \<and> served js env (take k qs) w1 hist w2
     \<and> (k = length qs \<and> w3 = w2 \<and> last = []
        \<or> k < length qs \<and> serve_one js env (qs ! k) w2 = (Exc KeyboardInterrupt, w3))
     \<and> calls w3 = calls w2 @ map Popen last \<and> bounded env last
     \<and> (outside_spares is_interrupt js env \<longrightarrow> k = length qs)
     \<and> rest_service js env sv qs w = (Ret (), w')
     \<and> calls w' = calls w3 @ [LibCall ''shutdown'' [], LibCall ''server_close'' []]"
proof -
  let ?serve = "bnd (serve_requests js env qs) (\<lambda>_. stop_server)"
  have call: "\<exists>v'. sv_call sv f args v = (Ret (), v') \<and> calls v' = calls v @ [LibCall f args]" for f args v
    by (simp add: sv_call_app lib)
  obtain w1 where w1: "server_main sv ?serve w = sq (try_except ?serve (\<lambda>e. e = KeyboardInterrupt)
      (\<lambda>e. sv_call sv ''shutdown'' [])) (sv_call sv ''server_close'' []) w1"
    "calls w1 = calls w @ sv_script sv @ [LibCall ''serve_forever'' []]"
    using server_main_serves [OF port lib] by blast
  obtain k hist last w2 w3 where s: "k \<le> length qs \<and> served js env (take k qs) w1 hist w2
     \<and> (k = length qs \<and> w3 = w2 \<and> last = []
        \<or> k < length qs \<and> serve_one js env (qs ! k) w2 = (Exc KeyboardInterrupt, w3))
     \<and> calls w3 = calls w2 @ map Popen last \<and> bounded env last
     \<and> (outside_spares is_interrupt js env \<longrightarrow> k = length qs)"
    and stop: "?serve w1 = (Exc KeyboardInterrupt, w3)"
    using serving_ends [OF alive, of qs w1] by blast
  obtain w4 where w4: "sv_call sv ''shutdown'' [] w3 = (Ret (), w4)"
    "calls w4 = calls w3 @ [LibCall ''shutdown'' []]" using call by blast
  obtain w5 where w5: "sv_call sv ''server_close'' [] w4 = (Ret (), w5)"
    "calls w5 = calls w4 @ [LibCall ''server_close'' []]" using call by blast
  have "rest_service js env sv qs w = (Ret (), w5)"
    unfolding rest_service_def w1(1) by (simp add: sq_app try_except_app stop w4(1) w5(1))
  then show ?thesis
    using w1(2) s w4(2) w5(2)
    by (intro exI [of _ k] exI [of _ hist] exI [of _ last] exI [of _ w1] exI [of _ w2] exI [of _ w3] exI [of _ w5]) simp
qed

section \<open>Witnesses\<close>

definition sample_service_request :: http_request where
  "sample_service_request = \<lparr>hq_method = ''GET'', hq_path = ''/esdc/a'', hq_headers = [], hq_body = []\<rparr>"

lemma sample_alive:
  "stays_alive sample_js sample_zkenv" "outside_spares is_interrupt sample_js sample_zkenv"
  by (auto simp: stays_alive_def outside_spares_def is_exit_def is_interrupt_def sample_zk_defs)

theorem service_serves_after_setup_witness:
  "\<exists>cs. calls (snd (rest_service sample_js sample_zkenv (sample_srvenv None) [sample_service_request]
       sample_srv_world)) = calls sample_srv_world @ cs
     \<and> follows (LibCall ''serve_forever'' [])
         [LibCall ''HTTPServer'' [PStr [], PInt 12181], LibCall ''wrap_socket'' [PNone, PStr ''c.crt'', PNone],
          LibCall ''signal'' [PStr ''SIGINT''], LibCall ''signal'' [PStr ''SIGTERM'']] cs"
  using service_serves_after_setup [of "sample_srvenv None" sample_js sample_zkenv "[sample_service_request]"
      sample_srv_world]
  by (simp add: sample_srvenv_def sv_script_def sv_get_def DEFAULT_HTTP_ADDRESS_def DEFAULT_HTTP_PORT_def)

theorem rest_service_lifecycle_witness:
  "\<exists>hist w1 w2 w'. calls w1 = calls sample_srv_world @ sv_script (sample_srvenv None) @ [LibCall ''serve_forever'' []]
     \<and> served sample_js sample_zkenv [sample_service_request, sample_service_request] w1 hist w2
     \<and> rest_service sample_js sample_zkenv (sample_srvenv None) [sample_service_request, sample_service_request]
         sample_srv_world = (Ret (), w')
     \<and> calls w' = calls w2 @ [LibCall ''shutdown'' [], LibCall ''server_close'' []]"
proof -
  have env: "sv_environ (sample_srvenv None) ''ZK_REST_HTTP_PORT'' = None"
    "fst (sv_lib (sample_srvenv None) f args s) = Ret ()" for f args s
    by (simp_all add: sample_srvenv_def)
  from rest_service_lifecycle [OF env(1) sample_alive(1) env(2),
      of sample_srv_world "[sample_service_request, sample_service_request]"] sample_alive(2)
  show ?thesis by fastforce
qed

end
