(* ===== verification/CfgdbStore.thy ===== *)
theory CfgdbStore
  imports CfgdbService
begin

text \<open>
  What the REST service is for: a store of named texts. The specification \<open>api_step\<close> says what a
  request does to a tree of ZooKeeper nodes and what the client learns; \<open>rest_refines_store\<close> shows that
  the service, on top of a client program that keeps ZooKeeper's documented semantics (\<open>zk_client\<close>),
  implements it on every sequence of requests.
\<close>

section \<open>Specification\<close>

type_synonym tree = "(string \<times> string) list"

datatype api = Read string | Create string string | Write string string | Remove string

fun api_node :: "api \<Rightarrow> string" where
  "api_node (Read n) = n"
| "api_node (Create n d) = n"
| "api_node (Write n d) = n"
| "api_node (Remove n) = n"

fun api_args :: "api \<Rightarrow> string list" where
  "api_args (Create n d) = [d]"
| "api_args (Write n d) = [d]"
| "api_args a = []"

fun api_method :: "api \<Rightarrow> string" where
  "api_method (Read n) = ''GET''"
| "api_method (Create n d) = ''POST''"
| "api_method (Write n d) = ''PUT''"
| "api_method (Remove n) = ''DELETE''"

fun api_command :: "api \<Rightarrow> string" where
  "api_command (Read n) = ''get''"
| "api_command (Create n d) = ''create''"
| "api_command (Write n d) = ''set''"
| "api_command (Remove n) = ''delete''"

definition parent :: "string \<Rightarrow> string" where
  "parent n = (case rsplit1 (CHR ''/'') n of None \<Rightarrow> [] | Some (p, name) \<Rightarrow> p)"

definition has_node :: "tree \<Rightarrow> string \<Rightarrow> bool" where
  "has_node t n = (n = [] \<or> map_of t n \<noteq> None)"

definition has_children :: "tree \<Rightarrow> string \<Rightarrow> bool" where
  "has_children t n = list_ex (\<lambda>(k, v). prefix (n @ ''/'') k) t"

text \<open>ZooKeeper's rules: a node is created below an existing one and only once, and removed only when it
  has no children. \<^const>\<open>None\<close> is a refused operation.\<close>

fun tree_op :: "api \<Rightarrow> tree \<Rightarrow> tree option" where
  "tree_op (Read n) t = (if map_of t n = None then None else Some t)"
| "tree_op (Create n d) t =
     (if map_of t n \<noteq> None \<or> \<not> has_node t (parent n) then None else Some (dict_set n d t))"
| "tree_op (Write n d) t = (if map_of t n = None then None else Some (dict_set n d t))"
| "tree_op (Remove n) t =
     (if map_of t n = None \<or> has_children t n then None else Some (dict_del n t))"

datatype reply = Done | Found string | Refused

text \<open>Texts lose the white space around them.\<close>

fun api_step :: "api \<Rightarrow> tree \<Rightarrow> reply \<times> tree" where
  "api_step a t = (case tree_op a t of
       None \<Rightarrow> (Refused, t)
     | Some t' \<Rightarrow> (case a of Read n \<Rightarrow> Found (py_strip (the (map_of t n))) | _ \<Rightarrow> Done, t'))"

fun api_run :: "api list \<Rightarrow> tree \<Rightarrow> reply list \<times> tree" where
  "api_run [] t = ([], t)"
| "api_run (a # as) t = (case api_step a t of (r, t') \<Rightarrow> case api_run as t' of (rs, t'') \<Rightarrow> (r # rs, t''))"

section \<open>Requests and answers\<close>

text \<open>The request \<open>q\<close> asks for \<open>a\<close>: data travel in any JSON encoding of an object with the entry
  \<open>data\<close>.\<close>

definition asks :: "http_request \<Rightarrow> api \<Rightarrow> bool" where
  "asks q a = (hq_method q = api_method a \<and> hq_path q = api_node a
     \<and> header_get (hq_headers q) ''zk-username'' = None \<and> header_get (hq_headers q) ''zk-password'' = None
     \<and> (case api_args a of
          [] \<Rightarrow> header_get (hq_headers q) ''Content-Length'' = None
        | dat # _ \<Rightarrow> header_get (hq_headers q) ''Content-Length'' = Some (dec_of_nat (length (hq_body q)))
            \<and> (\<exists>st. style_ok st \<and> hq_body q = json_dumps st (PDict [(''data'', PStr dat)]))))"

text \<open>Nodes whose names start with \<open>/esdc\<close>, without characters that are special in a URL, and texts within the limit.\<close>

definition api_ok :: "api \<Rightarrow> bool" where
  "api_ok a = (prefix ''/esdc'' (api_node a) \<and> list_all (\<lambda>c. c \<notin> set ''?#;'') (api_node a)
     \<and> py_len (api_node a) \<le> 4019
     \<and> list_all (\<lambda>dat. utf8_valid dat \<and> py_len dat \<le> 2097152) (api_args a))"

text \<open>What a client reads from an answer: the status, and for a successful \<open>GET\<close> the member \<open>stdout\<close>.\<close>

definition reply_of :: "(string \<Rightarrow> pyval res) \<Rightarrow> api \<Rightarrow> http_out list \<Rightarrow> reply option" where
  "reply_of loads a out = (case out of
       [SendResponse st, SendHeader k v, EndHeaders, WriteBody b] \<Rightarrow>
         if st = 400 then Some Refused
         else if st \<noteq> 200 then None
         else (case a of
           Read n \<Rightarrow> (case loads b of
               Ret (PDict d) \<Rightarrow> (case dict_get d ''stdout'' of Some (PStr s) \<Rightarrow> Some (Found s) | _ \<Rightarrow> None)
             | _ \<Rightarrow> None)
         | _ \<Rightarrow> Some Done)
     | _ \<Rightarrow> None)"

section \<open>The client program\<close>

definition tree_valid :: "tree \<Rightarrow> bool" where
  "tree_valid t = list_all (\<lambda>(k, v). utf8_valid v) t"

text \<open>\<open>tree_at\<close> is the tree behind the outside state. The client exits with status 0 and prints the data
  with a line break, or it exits with another status and explains why on standard error.\<close>

definition zk_client :: "'h zkenv \<Rightarrow> (fsys \<times> 'h \<Rightarrow> tree) \<Rightarrow> bool" where
  "zk_client env tree_at = (\<forall>a s. api_ok a \<and> tree_valid (tree_at s) \<longrightarrow>
     (\<exists>rc out err s'.
        zk_popen env (zk_base_cmd env @ [''-c'', api_command a, api_node a] @ api_args a) s = (Ret (rc, out, err), s')
      \<and> utf8_valid (py_strip out) \<and> utf8_valid (py_strip err)
      \<and> (case tree_op a (tree_at s) of
           None \<Rightarrow> rc \<noteq> 0 \<and> py_strip err \<noteq> [] \<and> tree_at s' = tree_at s
         | Some t \<Rightarrow> rc = 0 \<and> tree_at s' = t
             \<and> (case a of Read n \<Rightarrow> out = the (map_of (tree_at s) n) @ [CHR 0x0A] | _ \<Rightarrow> True))))"

section \<open>One request\<close>

lemma api_asks_for:
  assumes "asks q a" and "api_ok a"
  shows "asks_for (new_handler q w) (api_method a) (api_command a) (api_node a)"
    "api_command a \<in> set zk_commands"
proof -
  have "zk_request_command (Some (api_method a)) [] = Some (api_command a)"
    by (cases a; simp; code_simp)
  moreover have "api_method a \<in> set zk_methods"
    by (cases a) (simp_all add: zk_methods_def)
  ultimately show "asks_for (new_handler q w) (api_method a) (api_command a) (api_node a)"
    using assms urlparse_plain [of "api_node a"] by (auto simp: asks_for_def asks_def api_ok_def)
  show "api_command a \<in> set zk_commands"
    by (cases a) (simp_all add: zk_commands_def)
qed

definition api_data :: "api \<Rightarrow> pydict" where
  "api_data a = map (\<lambda>dat. (''data'', PStr dat)) (api_args a)"

lemma api_parses:
  assumes q: "asks q a" and ok: "api_ok a" and depth: "1 \<le> d"
  shows "\<exists>w1. parse_json_content (py3_json rep wide d) ((new_handler q w)\<lparr>rq_method := Some m\<rparr>)
       = (Ret (PDict (api_data a)), w1)
     \<and> files w1 = files w \<and> host w1 = host w \<and> rq_headers w1 = hq_headers q \<and> rq_out w1 = []
     \<and> calls w1 = calls w"
proof (cases "api_args a")
  case Nil
  then have "header_get (hq_headers q) ''Content-Length'' = None" "api_data a = []"
    using q by (simp_all add: asks_def api_data_def)
  then show ?thesis
    by (simp add: parse_json_content_def content_def read_body_def io_simps)
next
  case (Cons dat rest)
  let ?v = "PDict [(''data'', PStr dat)]" and ?h = "(new_handler q w)\<lparr>rq_method := Some m\<rparr>"
  from Cons q obtain st where st: "style_ok st" "hq_body q = json_dumps st ?v"
    "header_get (hq_headers q) ''Content-Length'' = Some (dec_of_nat (length (hq_body q)))"
    by (auto simp: asks_def)
  have dat: "utf8_valid dat" "api_data a = [(''data'', PStr dat)]"
    using Cons ok by (cases a; simp add: api_ok_def api_data_def del: utf8_valid.simps)+
  have "utf8_valid ''data''"
    by (rule utf8_valid_ascii) simp
  then have adm: "admissible st d ?v"
    using st(1) dat(1) depth by (simp add: admissible_def dict_keys_def del: utf8_valid.simps)
  have "carries ?h (hq_body q)"
    using st(3) by (simp add: carries_def)
  moreover have "hq_body q \<noteq> []"
    unfolding st(2) by (rule json_bytes.writes [OF adm])
  moreover have "json_loads_bytes wide d (hq_body q) = Ret ?v"
    unfolding st(2) using json_bytes.decodes [OF adm] by (simp add: key_order_def)
  ultimately show ?thesis
    using dat(2) by (simp add: parse_carries py3_json_def)
qed

lemma api_argv:
  assumes "asks q a" and "api_ok a" and "rq_headers w1 = hq_headers q"
  shows "zk_headers_cmd env w1 (api_command a) (api_node a) (api_data a)
     = Ret (zk_base_cmd env @ [''-c'', api_command a, api_node a] @ api_args a)"
  using assms
  by (cases a)
    (simp_all add: zk_headers_cmd_def zk_build_cmd_def zk_option_def validate_string_input_def dict_get_def
      api_data_def asks_def api_ok_def default_string_max_length_def zk_data_size_limit_def)

lemma tree_op_valid:
  assumes "tree_valid t" and "api_ok a" and "tree_op a t = Some t'"
  shows "tree_valid t'"
proof -
  have "tree_valid (dict_set n dat t)" if "utf8_valid dat" for n dat
    using assms(1) that
    by (induction n dat t rule: dict_set.induct) (auto simp: tree_valid_def simp del: utf8_valid.simps)
  moreover have "tree_valid (dict_del n t)" for n
    using assms(1) by (auto simp: tree_valid_def dict_del_def list_all_iff)
  ultimately show ?thesis
    using assms by (cases a) (auto simp: api_ok_def split: if_splits)
qed

lemma serve_one_step:
  assumes client: "zk_client env tree_at" and q: "asks q a" and ok: "api_ok a" and depth: "1 \<le> d"
    and valid: "tree_valid (tree_at (files w, host w))"
  shows "\<exists>out w'. serve_one (py3_json rep wide d) env q w = (Ret out, w')
     \<and> reply_of (json_loads_bytes wide d) a out = Some (fst (api_step a (tree_at (files w, host w))))
     \<and> tree_at (files w', host w') = snd (api_step a (tree_at (files w, host w)))"
proof -
  let ?t = "tree_at (files w, host w)" and ?js = "py3_json rep wide d"
  obtain w1 where w1: "parse_json_content ?js ((new_handler q w)\<lparr>rq_method := Some (api_method a)\<rparr>)
       = (Ret (PDict (api_data a)), w1)"
    "files w1 = files w" "host w1 = host w" "rq_headers w1 = hq_headers q" "rq_out w1 = []"
    using api_parses [OF q ok depth] by blast
  obtain rc out err s' where run: "zk_popen env (zk_base_cmd env @ [''-c'', api_command a, api_node a] @ api_args a)
      (files w1, host w1) = (Ret (rc, out, err), s')"
    "utf8_valid (py_strip out)" "utf8_valid (py_strip err)"
    and res: "case tree_op a ?t of
           None \<Rightarrow> rc \<noteq> 0 \<and> py_strip err \<noteq> [] \<and> tree_at s' = ?t
         | Some t \<Rightarrow> rc = 0 \<and> tree_at s' = t
             \<and> (case a of Read n \<Rightarrow> out = the (map_of ?t n) @ [CHR 0x0A] | _ \<Rightarrow> True)"
    using client ok valid unfolding zk_client_def w1(2,3) by blast
  have "rc = 0 \<or> py_strip err \<noteq> []"
    using res by (auto split: option.splits)
  from esdc_executes [OF api_asks_for [OF q ok] w1(1) api_argv [OF q ok w1(4)] run(1)
      run(2,3) this depth] w1(5)
  obtain h b where h: "esdc_serve ?js env (api_method a) (new_handler q w) = (Ret (), h)"
    "(files h, host h) = s'"
    "rq_out h = [SendResponse (if rc = 0 then 200 else 400),
         SendHeader ''Content-Type'' ''application/json'', EndHeaders, WriteBody b]"
    "json_loads_bytes wide d b = Ret (PDict [(''returncode'', PInt rc),
         (''stdout'', PStr (py_strip out)), (''stderr'', PStr (py_strip err))])"
    by auto
  have "serve_one ?js env q w = (Ret (rq_out h), world.truncate h)"
    using h(1) q by (simp add: serve_one_def asks_def)
  moreover have "reply_of (json_loads_bytes wide d) a (rq_out h) = Some (fst (api_step a ?t))"
    using res h(3,4)
    by (cases a)
      (auto simp: reply_of_def dict_get_def py_strip_newline simp del: tree_op.simps split: option.splits)
  moreover have "tree_at (files h, host h) = snd (api_step a ?t)"
    using res h(2) by (auto simp del: tree_op.simps split: option.splits)
  ultimately show ?thesis by auto
qed

section \<open>Any number of requests\<close>

lemma api_step_valid: "tree_valid t \<Longrightarrow> api_ok a \<Longrightarrow> tree_valid (snd (api_step a t))"
  by (auto simp: tree_op_valid simp del: tree_op.simps split: option.split)

lemma api_run_Cons:
  "api_run (a # ops) t = (fst (api_step a t) # fst (api_run ops (snd (api_step a t))),
     snd (api_run ops (snd (api_step a t))))"
  by (simp add: split_beta)

declare api_step.simps [simp del] api_run.simps(2) [simp del]

lemma rest_simulates:
  assumes client: "zk_client env tree_at" and depth: "1 \<le> d"
    and reqs: "list_all2 asks qs ops" and ok: "list_all api_ok ops"
    and valid: "tree_valid (tree_at (files w, host w))"
  shows "\<exists>outs w'. serve_requests (py3_json rep wide d) env qs w = (Ret outs, w')
     \<and> map2 (reply_of (json_loads_bytes wide d)) ops outs
         = map Some (fst (api_run ops (tree_at (files w, host w))))
     \<and> tree_at (files w', host w') = snd (api_run ops (tree_at (files w, host w)))"
  using reqs ok valid
proof (induction qs ops arbitrary: w rule: list_all2_induct)
  case Nil
  then show ?case by (simp add: ret_app)
next
  case (Cons q qs a ops)
  let ?t = "tree_at (files w, host w)"
  from Cons.prems have a: "api_ok a" "list_all api_ok ops" by simp_all
  obtain out w1 where w1: "serve_one (py3_json rep wide d) env q w = (Ret out, w1)"
    "reply_of (json_loads_bytes wide d) a out = Some (fst (api_step a ?t))"
    "tree_at (files w1, host w1) = snd (api_step a ?t)"
    using serve_one_step [OF client Cons.hyps(1) a(1) depth Cons.prems(2)] by blast
  have "tree_valid (tree_at (files w1, host w1))"
    unfolding w1(3) by (rule api_step_valid [OF Cons.prems(2) a(1)])
  from Cons.IH [OF a(2) this] obtain outs w2
    where "serve_requests (py3_json rep wide d) env qs w1 = (Ret outs, w2)"
      "map2 (reply_of (json_loads_bytes wide d)) ops outs
         = map Some (fst (api_run ops (snd (api_step a ?t))))"
      "tree_at (files w2, host w2) = snd (api_run ops (snd (api_step a ?t)))"
    unfolding w1(3) by blast
  then show ?case
    using w1(1,2)
    by (intro exI [of _ "out # outs"] exI [of _ w2])
      (simp add: bnd_app ret_app api_run_Cons)
qed

text \<open>C1. The service implements the store. On top of a client program that keeps ZooKeeper's rules, it
  answers every sequence of requests for nodes whose names start with \<open>/esdc\<close>, whatever layout of JSON the
  clients use, and   what the clients learn from the answers, and the tree in the end, are what the specification gives for
  the same operations in the same order: refused operations are told from successful ones, they change
  nothing, and a \<open>GET\<close> finds the text stored last, without the white space around it.\<close>

theorem rest_refines_store:
  assumes client: "zk_client env tree_at" and depth: "1 \<le> d"
    and reqs: "list_all2 asks qs ops" and ok: "list_all api_ok ops"
    and valid: "tree_valid (tree_at (files w, host w))"
  shows "\<exists>outs w'. serve_requests (py3_json rep wide d) env qs w = (Ret outs, w')
     \<and> map2 (reply_of (json_loads_bytes wide d)) ops outs
         = map Some (fst (api_run ops (tree_at (files w, host w))))
     \<and> tree_at (files w', host w') = snd (api_run ops (tree_at (files w, host w)))"
  by (rule rest_simulates [OF assms])

text \<open>C23. The guard compares text, not paths: it asks whether the target starts with \<open>/esdc\<close>. A request for a
  node beside the tree, such as \<open>/esdcfoo\<close>, is therefore not forbidden; each of the four methods runs its
  command on it.\<close>

theorem esdc_guard_admits_neighbours:
  assumes q: "asks q a" and ok: "api_ok a" and depth: "1 \<le> d"
    and outside: "api_node a \<noteq> ''/esdc''" "\<not> prefix ''/esdc/'' (api_node a)"
  shows "calls (snd (serve_one (py3_json rep wide d) env q w))
     = calls w @ [Popen (zk_base_cmd env @ [''-c'', api_command a, api_node a] @ api_args a)]"
proof -
  let ?js = "py3_json rep wide d"
  obtain w1 where w1: "parse_json_content ?js ((new_handler q w)\<lparr>rq_method := Some (api_method a)\<rparr>)
       = (Ret (PDict (api_data a)), w1)" "calls w1 = calls w" "rq_headers w1 = hq_headers q"
    using api_parses [OF q ok depth] by blast
  have "calls (snd (esdc_serve ?js env (api_method a) (new_handler q w)))
      = calls w1 @ [Popen (zk_base_cmd env @ [''-c'', api_command a, api_node a] @ api_args a)]"
    using esdc_runs [OF api_asks_for [OF q ok] w1(1) api_argv [OF q ok w1(3)]] .
  moreover have "hq_method q = api_method a"
    using q by (simp add: asks_def)
  ultimately show ?thesis
    using w1(2) by (simp add: serve_one_def split_beta)
qed

text \<open>Operations that do not touch a node.\<close>

definition touches :: "string \<Rightarrow> api \<Rightarrow> bool" where
  "touches n a = ((case a of Read _ \<Rightarrow> False | _ \<Rightarrow> True) \<and> api_node a = n)"

lemma map_of_dict_del: "map_of (dict_del k d) n = (if n = k then None else map_of d n)"
  by (induction d) (auto simp: dict_del_def)

lemma api_step_keeps: "\<not> touches n a \<Longrightarrow> map_of (snd (api_step a t)) n = map_of t n"
  by (cases a) (auto simp: api_step.simps touches_def map_of_dict_set map_of_dict_del)

lemma api_run_keeps: "list_all (\<lambda>a. \<not> touches n a) ops \<Longrightarrow> map_of (snd (api_run ops t)) n = map_of t n"
  by (induction ops arbitrary: t) (simp_all add: api_run_Cons api_step_keeps)

lemma api_run_append:
  "api_run (xs @ ys) t = (fst (api_run xs t) @ fst (api_run ys (snd (api_run xs t))),
     snd (api_run ys (snd (api_run xs t))))"
  by (induction xs arbitrary: t) (simp_all add: api_run_Cons)

lemma length_api_run [simp]: "length (fst (api_run ops t)) = length ops"
  by (induction ops arbitrary: t) (simp_all add: api_run_Cons)

lemma api_store_kept:
  assumes "a = Create n txt \<or> a = Write n txt" and "list_all (\<lambda>a. \<not> touches n a) ops"
    and "fst (api_step a t) = Done"
  shows "map_of (snd (api_run (a # ops) t)) n = Some txt"
proof -
  have "map_of (snd (api_step a t)) n = Some txt"
    using assms(1,3) by (auto simp: api_step.simps map_of_dict_set split: if_splits)
  then show ?thesis
    by (simp add: api_run_Cons api_run_keeps [OF assms(2)])
qed

lemma api_store_read:
  assumes "a = Create n txt \<or> a = Write n txt" and "list_all (\<lambda>a. \<not> touches n a) ops"
    and "fst (api_step a t) = Done"
  shows "last (fst (api_run (a # ops @ [Read n]) t)) = Found (py_strip txt)"
  using api_store_kept [OF assms]
  by (simp add: api_run_Cons api_run_append) (simp add: api_step.simps)

lemma length_serve_requests:
  "serve_requests js env qs w = (Ret outs, w') \<Longrightarrow> length outs = length qs"
  by (induction qs arbitrary: w outs) (auto simp: bnd_app ret_app split: prod.splits res.splits)


section \<open>Witnesses\<close>

text \<open>A client program that keeps the rules: the outside is the tree itself.\<close>

definition tree_popen :: "string list \<Rightarrow> fsys \<times> tree \<Rightarrow> (int \<times> string \<times> string) res \<times> (fsys \<times> tree)" where
  "tree_popen argv s =
     (let a = (case drop 4 argv of
          [c, n] \<Rightarrow> if c = ''get'' then Read n else Remove n
        | [c, n, dat] \<Rightarrow> if c = ''create'' then Create n dat else Write n dat
        | _ \<Rightarrow> Read [])
      in case tree_op a (snd s) of
           None \<Rightarrow> (Ret (1, [], ''refused''), s)
         | Some t \<Rightarrow>
             (Ret (0, case a of Read n \<Rightarrow> the (map_of (snd s) n) @ [CHR 0x0A] | _ \<Rightarrow> [], []), (fst s, t)))"

definition tree_zkenv :: "tree zkenv" where
  "tree_zkenv = \<lparr>environ = Map.empty, zk_popen = tree_popen\<rparr>"

lemma tree_client: "zk_client tree_zkenv snd"
  unfolding zk_client_def
proof (intro allI impI, elim conjE)
  fix a and s :: "fsys \<times> tree"
  assume "api_ok a" and valid: "tree_valid (snd s)"
  let ?argv = "zk_base_cmd tree_zkenv @ [''-c'', api_command a, api_node a] @ api_args a"
  have refused: "utf8_valid (py_strip ''refused'')" "py_strip ''refused'' \<noteq> []" "utf8_valid (py_strip [])"
    by code_simp+
  have "utf8_valid v" if "map_of (snd s) n = Some v" for n v
    using valid map_of_SomeD [OF that] by (auto simp: tree_valid_def list_all_iff)
  then have found: "utf8_valid (py_strip v)" if "map_of (snd s) n = Some v" for n v
    using that utf8_valid_strip by blast
  have "tree_popen ?argv s = (case tree_op a (snd s) of
           None \<Rightarrow> (Ret (1, [], ''refused''), s)
         | Some t \<Rightarrow>
             (Ret (0, case a of Read n \<Rightarrow> the (map_of (snd s) n) @ [CHR 0x0A] | _ \<Rightarrow> [], []), (fst s, t)))"
    by (cases a; hypsubst; simp add: tree_popen_def zk_base_cmd_def Let_def del: tree_op.simps)
  then show "\<exists>rc out err s'. zk_popen tree_zkenv ?argv s = (Ret (rc, out, err), s')
      \<and> utf8_valid (py_strip out) \<and> utf8_valid (py_strip err)
      \<and> (case tree_op a (snd s) of
           None \<Rightarrow> rc \<noteq> 0 \<and> py_strip err \<noteq> [] \<and> snd s' = snd s
         | Some t \<Rightarrow> rc = 0 \<and> snd s' = t
             \<and> (case a of Read n \<Rightarrow> out = the (map_of (snd s) n) @ [CHR 0x0A] | _ \<Rightarrow> True))"
    using refused found
    by (cases a; cases "tree_op a (snd s)") (auto simp: tree_zkenv_def py_strip_newline split: if_splits)
qed

text \<open>A tree, a world and a request for an operation.\<close>

definition sample_tree :: tree where
  "sample_tree = [(''/esdc'', []), (''/esdc/a'', ''old'')]"

definition sample_tree_world :: "tree world" where
  "sample_tree_world = \<lparr>files = Map.empty, host = sample_tree, calls = []\<rparr>"

lemma sample_tree_valid: "tree_valid (host sample_tree_world)"
proof -
  have "tree_valid sample_tree" by code_simp
  then show ?thesis by (simp add: sample_tree_world_def)
qed

definition sample_ask :: "api \<Rightarrow> http_request" where
  "sample_ask a = (let b = (case api_args a of [] \<Rightarrow> []
       | dat # _ \<Rightarrow> json_dumps (default_style (\<lambda>v. [])) (PDict [(''data'', PStr dat)]))
     in \<lparr>hq_method = api_method a, hq_path = api_node a,
          hq_headers = (if b = [] then [] else [(''content-length'', dec_of_nat (length b))]), hq_body = b\<rparr>)"

lemma sample_asks_api: "asks (sample_ask a) a"
proof (cases "api_args a")
  case Nil
  then show ?thesis by (simp add: asks_def sample_ask_def sample_no_header)
next
  case (Cons dat rest)
  let ?b = "json_dumps (default_style (\<lambda>v. [])) (PDict [(''data'', PStr dat)])"
  have "?b \<noteq> []"
    by (simp add: json_dumps_def default_style_def)
  then show ?thesis
    using Cons
    by (auto simp: asks_def sample_ask_def Let_def sample_length intro!: exI [of _ "default_style (\<lambda>v. [])"])
qed

lemma sample_asks_all: "list_all2 asks (map sample_ask ops) ops"
  by (simp add: list_all2_conv_all_nth sample_asks_api)

abbreviation sample_wide :: "string \<Rightarrow> string \<Rightarrow> string res" where
  "sample_wide \<equiv> \<lambda>enc b. Exc UnicodeDecodeError"

theorem rest_refines_store_witness:
  "let ops = [Create ''/esdc/b'' '' x '', Read ''/esdc/b'', Create ''/esdc/b'' [], Remove ''/esdc''] in
   \<exists>outs w'. serve_requests (sample_py3 9) tree_zkenv (map sample_ask ops) sample_tree_world = (Ret outs, w')
     \<and> map2 (reply_of (json_loads_bytes sample_wide 9)) ops outs
         = map Some [Done, Found ''x'', Refused, Refused]
     \<and> host w' = [(''/esdc'', []), (''/esdc/a'', ''old''), (''/esdc/b'', '' x '')]"
proof -
  let ?ops = "[Create ''/esdc/b'' '' x '', Read ''/esdc/b'', Create ''/esdc/b'' [], Remove ''/esdc'']"
  have ok: "list_all api_ok ?ops" "tree_valid (snd (files sample_tree_world, host sample_tree_world))"
    by (simp_all add: api_ok_def py_len_def sample_tree_valid utf8_valid_ascii del: utf8_valid.simps)
  have "api_run ?ops sample_tree = ([Done, Found ''x'', Refused, Refused],
      [(''/esdc'', []), (''/esdc/a'', ''old''), (''/esdc/b'', '' x '')])"
    by code_simp
  with rest_refines_store [OF tree_client _ sample_asks_all ok, of 9 "\<lambda>v. []" sample_wide]
  show ?thesis by (simp add: sample_tree_world_def)
qed


theorem esdc_guard_admits_neighbours_witness:
  "calls (snd (serve_one (sample_py3 9) tree_zkenv (sample_ask (Create ''/esdcfoo'' ''x'')) sample_tree_world))
     = [Popen [''zookeepercli'', ''-servers'', ''127.0.0.1'', ''-c'', ''create'', ''/esdcfoo'', ''x'']]"
proof -
  let ?a = "Create ''/esdcfoo'' ''x''"
  have ok: "api_ok ?a"
    by (simp add: api_ok_def py_len_def utf8_valid_ascii del: utf8_valid.simps)
  have "calls (snd (serve_one (sample_py3 9) tree_zkenv (sample_ask ?a) sample_tree_world))
     = calls sample_tree_world @ [Popen (zk_base_cmd tree_zkenv @ [''-c'', api_command ?a, api_node ?a] @ api_args ?a)]"
    by (rule esdc_guard_admits_neighbours [OF sample_asks_api ok]) simp_all
  then show ?thesis
    by (simp add: sample_tree_world_def zk_base_cmd_def zk_servers_def environ_get_def tree_zkenv_def)
qed

end
