(* ===== verification/CfgdbDisco.thy ===== *)
theory CfgdbDisco
  imports PyIO
begin

text \<open>
  The UDP discovery service \<open>cfgdb_disco_server.py\<close>. Its state is the cached answer
  \<open>DISCO_REPLY\<close>; one pass of the \<open>while True\<close> loop is \<open>disco_step\<close>, and the
  reachable states are those of any sequence of datagrams after the socket is bound
  (\<open>disco_reach\<close>). The parameters are \<open>check_output\<close> of the \<open>query_cfgdb\<close> command and the
  socket's operations, each of which may raise; datagrams are the input. Log output is left out.

  The specification \<open>spec_step\<close> is an automaton with two kinds of states: before the first request, and
  answering with one text. The service refines it (\<open>disco_refines_spec\<close>).

  \<open>check_output\<close> returns bytes under Python 3, and \<open>'%s' % b\<close> prints a bytes object the
  way \<open>repr\<close> does (\<open>bytes_repr\<close>).
\<close>

section \<open>Text and bytes\<close>

datatype pytext = Bytes string | Text string

definition repr_byte :: "char \<Rightarrow> char \<Rightarrow> string" where
  "repr_byte quote c =
     (let n = of_char c :: nat in
      if c = quote \<or> c = CHR 0x5C then [CHR 0x5C, c]
      else if n = 9 then [CHR 0x5C, CHR ''t'']
      else if n = 10 then [CHR 0x5C, CHR ''n'']
      else if n = 13 then [CHR 0x5C, CHR ''r'']
      else if n < 32 \<or> 127 \<le> n then [CHR 0x5C, CHR ''x'', hex_char (n div 16), hex_char (n mod 16)]
      else [c])"

definition bytes_repr :: "string \<Rightarrow> string" where
  "bytes_repr b =
     (let quote = (if CHR 0x27 \<in> set b \<and> CHR 0x22 \<notin> set b then CHR 0x22 else CHR 0x27)
      in CHR ''b'' # quote # concat (map (repr_byte quote) b) @ [quote])"

fun fmt_text :: "pytext \<Rightarrow> string" where
  "fmt_text (Bytes b) = bytes_repr b"
| "fmt_text (Text s) = s"

section \<open>The server\<close>

record 'h discoenv =
  check_output :: "string list \<Rightarrow> ('h, string) outside"
  sock_create :: "('h, unit) outside"
  sock_bind :: "string \<Rightarrow> int \<Rightarrow> ('h, unit) outside"
  sock_sendto :: "string \<Rightarrow> string \<Rightarrow> ('h, unit) outside"

record 'h disco = "'h world" +
  disco_reply :: "string option"

definition PORT :: int where
  "PORT = 5430"

definition BUFFER_SIZE :: nat where
  "BUFFER_SIZE = 1024"

definition DISCO_MESSAGE :: string where
  "DISCO_MESSAGE = ''cfgdb_discovery''"

definition dc_query :: "string list" where
  "dc_query = [''query_cfgdb'', ''get'', ''/esdc/settings/dc/datacenter_name'']"

fun is_query_failure :: "exn \<Rightarrow> bool" where
  "is_query_failure (IOError _) = True"
| "is_query_failure (CalledProcessError _) = True"
| "is_query_failure _ = False"

definition get_dc_name :: "'h discoenv \<Rightarrow> ('h disco, pytext) io" where
  "get_dc_name env =
     try_except
       (bnd (ext (Popen dc_query) (check_output env dc_query)) (\<lambda>b. ret (Bytes (py_strip b))))
       is_query_failure
       (\<lambda>exc. ret (Text ''<unknown>''))"

definition set_reply :: "string \<Rightarrow> ('h disco, string) io" where
  "set_reply s = (\<lambda>w. (Ret s, w\<lparr>disco_reply := Some s\<rparr>))"

text \<open>One pass of the loop for a datagram from \<open>addr\<close>; \<open>recvfrom\<close> keeps its first
  \<^const>\<open>BUFFER_SIZE\<close> bytes.\<close>

definition disco_step :: "'h discoenv \<Rightarrow> string \<times> string \<Rightarrow> ('h disco, unit) io" where
  "disco_step env pkt =
     (case pkt of (datagram, addr) \<Rightarrow>
        let data = take BUFFER_SIZE datagram in
        if py_startswith data DISCO_MESSAGE
        then bnd (gets disco_reply) (\<lambda>cached.
             bnd (case cached of
                    None \<Rightarrow> bnd (get_dc_name env) (\<lambda>name. set_reply (''cfgdb_reply:'' @ fmt_text name))
                  | Some r \<Rightarrow> ret r) (\<lambda>reply.
             ext (LibCall ''sendto'' [PStr reply, PStr addr]) (sock_sendto env reply addr)))
        else ret ())"

text \<open>\<open>s = socket(AF_INET, SOCK_DGRAM); s.bind(('', PORT))\<close>.\<close>

definition disco_start :: "'h discoenv \<Rightarrow> ('h disco, unit) io" where
  "disco_start env =
     sq (ext (LibCall ''socket'' [PStr ''AF_INET'', PStr ''SOCK_DGRAM'']) (sock_create env))
        (ext (LibCall ''bind'' [PStr [], PInt PORT]) (sock_bind env [] PORT))"

definition disco_init :: "fsys \<Rightarrow> 'h \<Rightarrow> 'h disco" where
  "disco_init fs h = \<lparr>files = fs, host = h, calls = [], disco_reply = None\<rparr>"

text \<open>The states the loop passes through.\<close>

inductive disco_reach :: "'h discoenv \<Rightarrow> 'h disco \<Rightarrow> bool" for env where
  init: "disco_start env (disco_init fs h) = (Ret (), w) \<Longrightarrow> disco_reach env w"
| step: "disco_reach env w \<Longrightarrow> disco_step env pkt w = (Ret (), w') \<Longrightarrow> disco_reach env w'"

text \<open>The loop on a finite sequence of datagrams.\<close>

fun disco_run :: "'h discoenv \<Rightarrow> (string \<times> string) list \<Rightarrow> ('h disco, unit) io" where
  "disco_run env [] = ret ()"
| "disco_run env (pkt # pkts) = sq (disco_step env pkt) (disco_run env pkts)"

definition disco_main :: "'h discoenv \<Rightarrow> (string \<times> string) list \<Rightarrow> ('h disco, unit) io" where
  "disco_main env pkts = sq (disco_start env) (disco_run env pkts)"

section \<open>Steps\<close>

definition is_discovery :: "string \<Rightarrow> bool" where
  "is_discovery datagram = prefix ''cfgdb_discovery'' datagram"

lemma prefix_take_iff: "length p \<le> n \<Longrightarrow> prefix p (take n s) \<longleftrightarrow> prefix p s"
proof (induction p arbitrary: n s)
  case (Cons x p)
  then show ?case by (cases n; cases s) auto
qed simp

lemma disco_step_other:
  "\<not> is_discovery d \<Longrightarrow> disco_step env (d, a) w = (Ret (), w)"
  by (simp add: disco_step_def is_discovery_def py_startswith_def DISCO_MESSAGE_def BUFFER_SIZE_def
      prefix_take_iff ret_app)

lemma disco_step_cached:
  assumes "is_discovery d" and "disco_reply w = Some r"
  shows "disco_step env (d, a) w =
     ext (LibCall ''sendto'' [PStr r, PStr a]) (sock_sendto env r a) w"
  using assms
  by (simp add: disco_step_def is_discovery_def py_startswith_def DISCO_MESSAGE_def BUFFER_SIZE_def
      prefix_take_iff bnd_app gets_app ret_app)

lemma disco_step_first:
  assumes "is_discovery d" and "disco_reply w = None"
  shows "disco_step env (d, a) w =
     (case get_dc_name env w of
        (Ret name, w') \<Rightarrow> let r = ''cfgdb_reply:'' @ fmt_text name in
          ext (LibCall ''sendto'' [PStr r, PStr a]) (sock_sendto env r a) (w'\<lparr>disco_reply := Some r\<rparr>)
      | (Exc e, w') \<Rightarrow> (Exc e, w'))"
  using assms
  by (auto simp: disco_step_def is_discovery_def py_startswith_def DISCO_MESSAGE_def BUFFER_SIZE_def
      prefix_take_iff bnd_app gets_app set_reply_def Let_def split: prod.splits res.splits)

lemma get_dc_name_app:
  "get_dc_name env w =
     (case check_output env dc_query (files w, host w) of
        (Ret b, s) \<Rightarrow> (Ret (Bytes (py_strip b)), after_call w (Popen dc_query) s)
      | (Exc e, s) \<Rightarrow> (if is_query_failure e then Ret (Text ''<unknown>'') else Exc e,
                      after_call w (Popen dc_query) s))"
  by (auto simp: get_dc_name_def io_simps split: prod.splits res.splits)

lemma after_call_reply [simp]: "disco_reply (after_call w c s) = disco_reply w"
  by (simp add: after_call_def)

section \<open>Properties\<close>

definition start_calls :: "call list" where
  "start_calls = [LibCall ''socket'' [PStr ''AF_INET'', PStr ''SOCK_DGRAM''], LibCall ''bind'' [PStr [], PInt 5430]]"

lemma disco_start_Ret:
  "disco_start env w = (Ret (), w') \<Longrightarrow> calls w' = calls w @ start_calls \<and> disco_reply w' = disco_reply w"
  by (auto simp: disco_start_def start_calls_def PORT_def io_simps split: prod.splits res.splits)

abbreviation reply_to :: "string \<Rightarrow> string \<Rightarrow> call" where
  "reply_to r a \<equiv> LibCall ''sendto'' [PStr r, PStr a]"

text \<open>What the service has done so far: it has bound its socket; after the first request, it has made
  one query, followed by equal answers only.\<close>

definition disco_inv :: "'h disco \<Rightarrow> bool" where
  "disco_inv w = (case disco_reply w of
       None \<Rightarrow> calls w = start_calls
     | Some r \<Rightarrow> prefix ''cfgdb_reply:'' r \<and>
         (\<exists>addrs. addrs \<noteq> [] \<and> calls w = start_calls @ Popen dc_query # map (reply_to r) addrs))"

lemma disco_step_inv:
  assumes "disco_inv w" and "disco_step env pkt w = (Ret (), w')"
  shows "disco_inv w'"
proof -
  obtain d a where pkt: "pkt = (d, a)" by fastforce
  show ?thesis
  proof (cases "is_discovery d")
    case False
    with assms pkt show ?thesis by (simp add: disco_step_other)
  next
    case True
    show ?thesis
    proof (cases "disco_reply w")
      case None
      with assms(1) have "calls w = start_calls" by (simp add: disco_inv_def)
      with assms(2) None True pkt show ?thesis
        by (auto simp: disco_step_first get_dc_name_app disco_inv_def ext_app Let_def
            intro!: exI [of _ "[a]"] split: prod.splits res.splits if_splits)
    next
      case (Some r)
      with assms(1) obtain addrs where "prefix ''cfgdb_reply:'' r" "addrs \<noteq> []"
        "calls w = start_calls @ Popen dc_query # map (reply_to r) addrs"
        by (auto simp: disco_inv_def)
      with assms(2) Some True pkt show ?thesis
        by (auto simp: disco_step_cached disco_inv_def ext_app intro!: exI [of _ "addrs @ [a]"])
    qed
  qed
qed

lemma disco_reach_inv: "disco_reach env w \<Longrightarrow> disco_inv w"
proof (induction rule: disco_reach.induct)
  case (init fs h w)
  then show ?case using disco_start_Ret [OF init] by (simp add: disco_inv_def disco_init_def)
next
  case (step w pkt w')
  then show ?case by (blast intro: disco_step_inv)
qed

text \<open>In every state the service can reach, the configuration database has been queried at most
  once, before the first answer; all answers sent are the same text, and it starts with
  \<open>cfgdb_reply:\<close>.\<close>

lemma disco_queries_once:
  assumes "disco_reach env w"
  shows "calls w = start_calls \<or>
     (\<exists>r addrs. disco_reply w = Some r \<and> prefix ''cfgdb_reply:'' r
        \<and> calls w = start_calls @ Popen dc_query # map (reply_to r) addrs)"
  using disco_reach_inv [OF assms] by (auto simp: disco_inv_def split: option.splits)

text \<open>The addresses that get an answer, in order.\<close>

definition requesters :: "(string \<times> string) list \<Rightarrow> string list" where
  "requesters pkts = map snd (filter (\<lambda>(d, a). is_discovery d) pkts)"

lemma disco_run_cached:
  assumes "\<And>r a s. fst (sock_sendto env r a s) = Ret ()"
  shows "disco_reply w = Some r \<Longrightarrow>
    \<exists>w'. disco_run env pkts w = (Ret (), w') \<and> disco_reply w' = Some r
       \<and> calls w' = calls w @ map (reply_to r) (requesters pkts)"
proof (induction pkts arbitrary: w)
  case Nil
  then show ?case by (simp add: ret_app requesters_def)
next
  case (Cons pkt pkts)
  obtain d a where pkt: "pkt = (d, a)" by fastforce
  show ?case
  proof (cases "is_discovery d")
    case False
    with Cons pkt show ?thesis by (simp add: sq_app disco_step_other requesters_def)
  next
    case True
    define w1 where "w1 = after_call w (reply_to r a) (snd (sock_sendto env r a (files w, host w)))"
    have "disco_step env pkt w = (Ret (), w1)"
      using True Cons.prems pkt assms by (simp add: disco_step_cached ext_app w1_def)
    moreover have "disco_reply w1 = Some r" "calls w1 = calls w @ [reply_to r a]"
      using Cons.prems by (simp_all add: w1_def)
    ultimately show ?thesis
      using Cons.IH [of w1] True pkt by (auto simp: sq_app requesters_def)
  qed
qed

lemma disco_run_fresh:
  assumes send: "\<And>r a s. fst (sock_sendto env r a s) = Ret ()"
    and query: "\<And>s. (\<exists>b. fst (check_output env dc_query s) = Ret b)
      \<or> (\<exists>e. fst (check_output env dc_query s) = Exc e \<and> is_query_failure e)"
    and fresh: "disco_reply w = None"
  shows "\<exists>w' r. disco_run env pkts w = (Ret (), w')
     \<and> calls w' = calls w @ (if requesters pkts = [] then []
                   else Popen dc_query # map (reply_to r) (requesters pkts))
     \<and> r = ''cfgdb_reply:'' @ (case fst (check_output env dc_query (files w, host w)) of
             Ret b \<Rightarrow> bytes_repr (py_strip b) | Exc _ \<Rightarrow> ''<unknown>'')"
proof (induction pkts)
  case Nil
  show ?case by (simp add: ret_app requesters_def)
next
  case (Cons pkt pkts)
  obtain d a where pkt: "pkt = (d, a)" by fastforce
  show ?case
  proof (cases "is_discovery d")
    case False
    with pkt have req: "requesters (pkt # pkts) = requesters pkts"
      and run: "disco_run env (pkt # pkts) w = disco_run env pkts w"
      by (simp_all add: sq_app disco_step_other requesters_def)
    show ?thesis
      unfolding req run by (rule Cons.IH)
  next
    case True
    let ?q = "check_output env dc_query (files w, host w)"
    define r where "r = ''cfgdb_reply:'' @ (case fst ?q of
             Ret b \<Rightarrow> bytes_repr (py_strip b) | Exc _ \<Rightarrow> ''<unknown>'')"
    have "\<exists>w1. disco_step env pkt w = (Ret (), w1) \<and> disco_reply w1 = Some r
        \<and> calls w1 = calls w @ [Popen dc_query, reply_to r a]"
      using query [of "(files w, host w)"] send True pkt fresh
      by (auto simp: disco_step_first get_dc_name_app r_def ext_app Let_def
          split: prod.splits)
    then obtain w1 where w1: "disco_step env pkt w = (Ret (), w1)"
      "disco_reply w1 = Some r" "calls w1 = calls w @ [Popen dc_query, reply_to r a]" by blast
    from disco_run_cached [OF send w1(2), of pkts] w1 True pkt show ?thesis
      by (auto simp: sq_app requesters_def r_def)
  qed
qed

text \<open>As long as the socket can be bound and accepts its answers, the service processes every
  sequence of datagrams, and each datagram that starts with \<open>cfgdb_discovery\<close> is answered exactly
  once, to its sender and in order, with the name the one query found; all other datagrams are ignored.
  When the query fails, the answer is \<open>cfgdb_reply:<unknown>\<close> for the rest of the run. The name
  travels in the form \<open>b'...'\<close> in which Python prints bytes.\<close>

lemma disco_main_answers:
  assumes start: "sock_create env (fs, h) = (Ret (), s1)" "sock_bind env [] PORT s1 = (Ret (), s2)"
    and send: "\<And>r a s. fst (sock_sendto env r a s) = Ret ()"
    and query: "\<And>s. (\<exists>b. fst (check_output env dc_query s) = Ret b)
      \<or> (\<exists>e. fst (check_output env dc_query s) = Exc e \<and> is_query_failure e)"
  shows "\<exists>w' r. disco_main env pkts (disco_init fs h) = (Ret (), w')
     \<and> calls w' = start_calls @ (if requesters pkts = [] then []
                   else Popen dc_query # map (reply_to r) (requesters pkts))
     \<and> r = ''cfgdb_reply:'' @ (case fst (check_output env dc_query s2) of
             Ret b \<Rightarrow> bytes_repr (py_strip b) | Exc _ \<Rightarrow> ''<unknown>'')"
proof -
  obtain w where w: "disco_start env (disco_init fs h) = (Ret (), w)" "(files w, host w) = s2"
    using start by (simp add: disco_start_def disco_init_def io_simps)
  have "calls w = start_calls" "disco_reply w = None"
    using disco_start_Ret [OF w(1)] by (simp_all add: disco_init_def)
  then show ?thesis
    using disco_run_fresh [OF send query, of w pkts] w by (simp add: disco_main_def sq_app)
qed

section \<open>Refinement\<close>

text \<open>The specification: what goes in, a datagram with its sender, and what goes out, texts with their
  receivers.\<close>

datatype phase = Fresh | Answering string

inductive spec_step :: "phase \<Rightarrow> string \<times> string \<Rightarrow> (string \<times> string) list \<Rightarrow> phase \<Rightarrow> bool" where
  other: "\<not> is_discovery d \<Longrightarrow> spec_step p (d, a) [] p"
| first: "is_discovery d \<Longrightarrow> prefix ''cfgdb_reply:'' r \<Longrightarrow> spec_step Fresh (d, a) [(r, a)] (Answering r)"
| again: "is_discovery d \<Longrightarrow> spec_step (Answering r) (d, a) [(r, a)] (Answering r)"

inductive spec_run :: "phase \<Rightarrow> (string \<times> string) list \<Rightarrow> (string \<times> string) list \<Rightarrow> phase \<Rightarrow> bool" where
  spec_Nil: "spec_run p [] [] p"
| spec_Cons: "spec_step p x out p' \<Longrightarrow> spec_run p' xs outs p'' \<Longrightarrow> spec_run p (x # xs) (out @ outs) p''"

inductive_cases spec_stepE: "spec_step p x out p'"

text \<open>The abstraction: the cached answer, and what was sent.\<close>

definition phase_of :: "'h disco \<Rightarrow> phase" where
  "phase_of w = (case disco_reply w of None \<Rightarrow> Fresh | Some r \<Rightarrow> Answering r)"

fun sent_of :: "call \<Rightarrow> (string \<times> string) list" where
  "sent_of (LibCall f [PStr r, PStr a]) = (if f = ''sendto'' then [(r, a)] else [])"
| "sent_of _ = []"

definition sent :: "'h disco \<Rightarrow> (string \<times> string) list" where
  "sent w = concat (map sent_of (calls w))"

lemma disco_step_refines:
  assumes "disco_step env pkt w = (Ret (), w')"
  shows "\<exists>out. spec_step (phase_of w) pkt out (phase_of w') \<and> sent w' = sent w @ out"
proof -
  obtain d a where pkt: "pkt = (d, a)" by fastforce
  show ?thesis
  proof (cases "is_discovery d")
    case False
    then show ?thesis
      using assms by (intro exI [of _ "[]"]) (simp add: pkt disco_step_other spec_step.other)
  next
    case True
    show ?thesis
    proof (cases "disco_reply w")
      case None
      then obtain r where "disco_reply w' = Some r" "prefix ''cfgdb_reply:'' r"
        "calls w' = calls w @ [Popen dc_query, reply_to r a]"
        using assms True
        by (auto simp: pkt disco_step_first get_dc_name_app ext_app Let_def split: prod.splits res.splits if_splits)
      then show ?thesis
        using None True
        by (intro exI [of _ "[(r, a)]"]) (simp add: pkt phase_of_def sent_def spec_step.first)
    next
      case (Some r)
      then have "disco_reply w' = Some r" "calls w' = calls w @ [reply_to r a]"
        using assms True by (auto simp: pkt disco_step_cached ext_app)
      then show ?thesis
        using Some True
        by (intro exI [of _ "[(r, a)]"]) (simp add: pkt phase_of_def sent_def spec_step.again)
    qed
  qed
qed

lemma disco_run_refines:
  "disco_run env pkts w = (Ret (), w') \<Longrightarrow>
     \<exists>out. spec_run (phase_of w) pkts out (phase_of w') \<and> sent w' = sent w @ out"
proof (induction pkts arbitrary: w)
  case Nil
  then show ?case by (auto simp: ret_app intro: spec_Nil)
next
  case (Cons pkt pkts)
  then obtain w1 where w1: "disco_step env pkt w = (Ret (), w1)" "disco_run env pkts w1 = (Ret (), w')"
    by (auto simp: sq_app split: prod.splits res.splits)
  from disco_step_refines [OF w1(1)] Cons.IH [OF w1(2)] show ?case
    by (metis spec_Cons append_assoc)
qed

text \<open>What the specification promises: one answer per request, in order, all with one text.\<close>

lemma spec_run_answers:
  "spec_run p pkts out p' \<Longrightarrow> map snd out = requesters pkts
     \<and> (case p' of Fresh \<Rightarrow> out = [] \<and> p = Fresh
        | Answering r \<Rightarrow> list_all (\<lambda>x. fst x = r) out \<and> (p = Fresh \<longrightarrow> prefix ''cfgdb_reply:'' r)
            \<and> (p \<noteq> Fresh \<longrightarrow> p = Answering r))"
proof (induction rule: spec_run.induct)
  case (spec_Cons p x out p' xs outs p'')
  from spec_Cons(1) show ?case
    using spec_Cons.IH by (cases rule: spec_stepE) (auto simp: requesters_def split: phase.splits)
qed (simp add: requesters_def split: phase.splits)

lemma disco_main_refines:
  assumes "disco_main env pkts (disco_init fs h) = (Ret (), w')"
  shows "spec_run Fresh pkts (sent w') (phase_of w') \<and> map snd (sent w') = requesters pkts
    \<and> (\<exists>r. prefix ''cfgdb_reply:'' r \<and> list_all (\<lambda>x. fst x = r) (sent w'))"
proof -
  obtain w where w: "disco_start env (disco_init fs h) = (Ret (), w)" "disco_run env pkts w = (Ret (), w')"
    using assms by (auto simp: disco_main_def sq_app split: prod.splits res.splits)
  have "phase_of w = Fresh" "sent w = []"
    using disco_start_Ret [OF w(1)] by (simp_all add: disco_init_def phase_of_def sent_def start_calls_def)
  then have run: "spec_run Fresh pkts (sent w') (phase_of w')"
    using disco_run_refines [OF w(2)] by auto
  then show ?thesis
    using spec_run_answers [OF run] by (cases "phase_of w'") auto
qed

text \<open>C14. The service refines its specification: whatever the database and the network do, every run of
  the program that processes its datagrams is a run of the automaton with the same inputs and outputs.
  So one text, which starts with \<open>cfgdb_reply:\<close>, goes out once to every requester, in the order
  of the requests, and nothing else is sent.\<close>

theorem disco_refines_spec:
  assumes "disco_main env pkts (disco_init fs h) = (Ret (), w')"
  shows "spec_run Fresh pkts (sent w') (phase_of w') \<and> map snd (sent w') = requesters pkts
    \<and> (\<exists>r. prefix ''cfgdb_reply:'' r \<and> list_all (\<lambda>x. fst x = r) (sent w'))"
  by (rule disco_main_refines [OF assms])

section \<open>Witnesses\<close>

definition sample_disco :: "unit discoenv" where
  "sample_disco = \<lparr>check_output = (\<lambda>argv s. (Ret ''dc1 '', s)), sock_create = (\<lambda>s. (Ret (), s)),
     sock_bind = (\<lambda>addr port s. (Ret (), s)), sock_sendto = (\<lambda>r a s. (Ret (), s))\<rparr>"

definition sample_disco_state :: "unit disco" where
  "sample_disco_state = snd (disco_main sample_disco [(''hello'', ''a''), (''cfgdb_discovery'', ''b'')]
     (disco_init Map.empty ()))"

theorem disco_refines_spec_witness:
  "spec_run Fresh [(''hello'', ''a''), (''cfgdb_discovery'', ''b'')] (sent sample_disco_state)
     (phase_of sample_disco_state) \<and> map snd (sent sample_disco_state) = [''b'']
   \<and> (\<exists>r. prefix ''cfgdb_reply:'' r \<and> list_all (\<lambda>x. fst x = r) (sent sample_disco_state))"
proof -
  let ?pkts = "[(''hello'', ''a''), (''cfgdb_discovery'', ''b'')]"
  have "fst (disco_main sample_disco ?pkts (disco_init Map.empty ())) = Ret ()"
    by (simp add: disco_main_def disco_start_def disco_step_first disco_step_other is_discovery_def
        disco_init_def get_dc_name_app sample_disco_def io_simps Let_def)
  then have "disco_main sample_disco ?pkts (disco_init Map.empty ()) = (Ret (), sample_disco_state)"
    unfolding sample_disco_state_def by (simp add: prod_eq_iff)
  from disco_refines_spec [OF this] show ?thesis
    by (simp add: requesters_def is_discovery_def)
qed

end
