(* ===== verification/CfgdbClient.thy ===== *)
theory CfgdbClient
  imports PyIO
begin

text \<open>
  The C program \<open>files/sources/cfgdb_discovery.c\<close>, the client of the discovery service: it broadcasts one
  datagram, looks at up to six datagrams that come in, and prints the address of the first one that looks
  like an answer.

  The socket calls are the record \<open>clientenv\<close>; they return what the C functions return. The buffer of the
  program is a list of bytes that lives through the loop, and its first contents, which the program does
  not set, are a parameter (\<open>cl_stack\<close>). \<open>exit(n)\<close> is the exception \<open>SystemExit n\<close>.
\<close>

section \<open>Strings of C\<close>

abbreviation nul :: char where
  "nul \<equiv> CHR 0x00"

text \<open>\<open>strncmp\<close> on arrays of bytes; literals end in \<^const>\<open>nul\<close>. Reading beyond an array does not occur.\<close>

fun strncmp :: "nat \<Rightarrow> string \<Rightarrow> string \<Rightarrow> int" where
  "strncmp (Suc n) (a # as) (b # bs) =
     (if a \<noteq> b then of_char a - of_char b else if a = nul then 0 else strncmp n as bs)"
| "strncmp n as bs = 0"

definition strnlen :: "string \<Rightarrow> nat \<Rightarrow> nat" where
  "strnlen s n = length (takeWhile (\<lambda>c. c \<noteq> nul) (take n s))"

section \<open>The program\<close>

definition BUFLEN :: nat where
  "BUFLEN = 100"

definition client_PORT :: int where
  "client_PORT = 5430"

definition DISCO_STRING :: string where
  "DISCO_STRING = ''cfgdb_discovery''"

definition REPLY_STRING :: string where
  "REPLY_STRING = ''cfgdb_reply:'' @ [nul]"

text \<open>\<open>sizeof(BUFLEN)\<close>: the size of an \<open>int\<close>.\<close>

definition sizeof_int :: nat where
  "sizeof_int = 4"

definition EAGAIN :: int where
  "EAGAIN = 11"

datatype recvd = Received string string | RecvFailed int

record 'h clientenv =
  cl_socket :: "('h, int) outside"
  cl_bind :: "int \<Rightarrow> ('h, int) outside"
  cl_setsockopt :: "string \<Rightarrow> ('h, int) outside"
  cl_sendto :: "string \<Rightarrow> string \<Rightarrow> int \<Rightarrow> ('h, int) outside"
  cl_recvfrom :: "('h, recvd) outside"
  cl_stack :: string

definition cl_note :: "string \<Rightarrow> pyval list \<Rightarrow> ('h world, unit) io" where
  "cl_note name args = ext (LibCall name args) (\<lambda>s. (Ret (), s))"

definition die :: "string \<Rightarrow> ('h world, unit) io" where
  "die s = sq (cl_note ''perror'' [PStr s]) (raise (SystemExit 1))"

text \<open>\<open>recvfrom\<close> overwrites as many bytes of the buffer as the datagram has, at most \<^const>\<open>BUFLEN\<close>.\<close>

definition fill_buffer :: "string \<Rightarrow> string \<Rightarrow> string" where
  "fill_buffer d buf = take BUFLEN d @ drop (length d) buf"

definition clear_buffer :: "string \<Rightarrow> string" where
  "clear_buffer buf = replicate sizeof_int nul @ drop sizeof_int buf"

text \<open>The loop \<open>while(maxiterations--)\<close>.\<close>

fun client_loop :: "'h clientenv \<Rightarrow> nat \<Rightarrow> string \<Rightarrow> ('h world, unit) io" where
  "client_loop env 0 buf = ret ()"
| "client_loop env (Suc n) buf =
     (let buf = clear_buffer buf in
      bnd (ext (LibCall ''recvfrom'' []) (cl_recvfrom env)) (\<lambda>r. case r of
        RecvFailed errno \<Rightarrow> if errno = EAGAIN then ret () else die ''recvfrom()''
      | Received d addr \<Rightarrow>
          let buf = fill_buffer d buf in
          if strncmp (strnlen REPLY_STRING BUFLEN) REPLY_STRING buf = 0
          then sq (cl_note ''printf'' [PStr addr]) (sq (cl_note ''close'' []) (raise (SystemExit 0)))
          else client_loop env n buf))"

definition client_main :: "'h clientenv \<Rightarrow> ('h world, int) io" where
  "client_main env =
     bnd (ext (LibCall ''socket'' []) (cl_socket env)) (\<lambda>s.
     sq (if_then (s = -1) (die ''socket''))
     (bnd (ext (LibCall ''bind'' [PInt client_PORT]) (cl_bind env client_PORT)) (\<lambda>b.
      sq (if_then (b = -1) (die ''bind''))
     (bnd (ext (LibCall ''setsockopt'' [PStr ''SO_BROADCAST'']) (cl_setsockopt env ''SO_BROADCAST'')) (\<lambda>o'.
      sq (if_then (o' < 0) (die ''setsockopt''))
     (bnd (ext (LibCall ''sendto'' [PStr DISCO_STRING, PStr ''255.255.255.255''])
              (cl_sendto env DISCO_STRING ''255.255.255.255'' client_PORT)) (\<lambda>sent.
      sq (if_then (sent \<noteq> int (length DISCO_STRING)) (die ''sendto''))
     (sq (ext (LibCall ''setsockopt'' [PStr ''SO_RCVTIMEO'']) (cl_setsockopt env ''SO_RCVTIMEO''))
     (sq (client_loop env 6 (cl_stack env))
     (sq (cl_note ''close'' []) (ret 1)))))))))))"

section \<open>Recognising an answer\<close>

lemma strncmp_prefix:
  "nul \<notin> set p \<Longrightarrow> length p \<le> length buf \<Longrightarrow> strncmp (length p) (p @ q) buf = 0 \<longleftrightarrow> prefix p buf"
proof (induction p arbitrary: buf)
  case (Cons c p)
  then obtain b bs where "buf = b # bs" by (cases buf) auto
  with Cons show ?case by auto
qed simp

lemma is_reply_iff:
  assumes "12 \<le> length buf"
  shows "strncmp (strnlen REPLY_STRING BUFLEN) REPLY_STRING buf = 0 \<longleftrightarrow> prefix ''cfgdb_reply:'' buf"
proof -
  have "strnlen REPLY_STRING BUFLEN = length ''cfgdb_reply:''"
    by (simp add: strnlen_def REPLY_STRING_def BUFLEN_def)
  then show ?thesis
    unfolding REPLY_STRING_def using strncmp_prefix [of "''cfgdb_reply:''" buf "[nul]"] assms by simp
qed

lemma length_fill_buffer [simp]: "length buf = BUFLEN \<Longrightarrow> length (fill_buffer d buf) = BUFLEN"
  by (simp add: fill_buffer_def)

lemma length_clear_buffer [simp]: "length buf = BUFLEN \<Longrightarrow> length (clear_buffer buf) = BUFLEN"
  by (simp add: clear_buffer_def sizeof_int_def BUFLEN_def)

lemma prefix_iff_take: "prefix p s \<longleftrightarrow> take (length p) s = p"
  by (metis append_eq_conv_conj append_take_drop_id prefix_def)

lemma prefix_mark_iff: "prefix ''cfgdb_reply:'' s \<longleftrightarrow> take 12 s = ''cfgdb_reply:''"
  by (simp add: prefix_iff_take eval_nat_numeral del: take_Suc_Cons)

lemma take_fill_buffer: "n \<le> length d \<Longrightarrow> n \<le> BUFLEN \<Longrightarrow> take n (fill_buffer d buf) = take n d"
  by (simp add: fill_buffer_def min_absorb1)

text \<open>A datagram of at least the length of the mark is recognised by its own bytes alone.\<close>

lemma fill_buffer_reply:
  assumes "12 \<le> length d" and "length buf = BUFLEN"
  shows "strncmp (strnlen REPLY_STRING BUFLEN) REPLY_STRING (fill_buffer d buf) = 0
    \<longleftrightarrow> prefix ''cfgdb_reply:'' d"
proof -
  have "12 \<le> length (fill_buffer d buf)"
    unfolding length_fill_buffer [OF assms(2)] by (simp add: BUFLEN_def)
  moreover have "take 12 (fill_buffer d buf) = take 12 d"
    using assms(1) by (intro take_fill_buffer) (simp_all add: BUFLEN_def)
  ultimately show ?thesis
    by (simp only: is_reply_iff prefix_mark_iff)
qed

section \<open>What the client does\<close>

text \<open>\<open>receives env s rs s'\<close>: from state \<open>s\<close>, the next calls of \<open>recvfrom\<close> return \<open>rs\<close>.\<close>

fun receives :: "'h clientenv \<Rightarrow> fsys \<times> 'h \<Rightarrow> recvd list \<Rightarrow> bool" where
  "receives env s [] = True"
| "receives env s (r # rs) = (\<exists>s'. cl_recvfrom env s = (Ret r, s') \<and> receives env s' rs)"

text \<open>The specification: the first answer among \<open>n\<close> datagrams, unless the wait times out before.\<close>

fun first_answer :: "nat \<Rightarrow> recvd list \<Rightarrow> string option" where
  "first_answer (Suc n) (Received d addr # rs) =
     (if prefix ''cfgdb_reply:'' d then Some addr else first_answer n rs)"
| "first_answer n rs = None"

text \<open>A history of the wait: it is long enough or ends with the timeout, no other error occurs, and every
  datagram has the length of the mark.\<close>

fun complete :: "nat \<Rightarrow> recvd list \<Rightarrow> bool" where
  "complete 0 rs = True"
| "complete (Suc n) [] = False"
| "complete (Suc n) (RecvFailed e # rs) = (e = EAGAIN)"
| "complete (Suc n) (Received d addr # rs) = (12 \<le> length d \<and> (prefix ''cfgdb_reply:'' d \<or> complete n rs))"

abbreviation recv_call :: call where
  "recv_call \<equiv> LibCall ''recvfrom'' []"

abbreviation close_call :: call where
  "close_call \<equiv> LibCall ''close'' []"

definition after_answer :: "'h world \<Rightarrow> string \<Rightarrow> 'h world" where
  "after_answer w addr = w\<lparr>calls := calls w @ [LibCall ''printf'' [PStr addr], close_call]\<rparr>"

lemma client_loop_datagram:
  assumes "cl_recvfrom env (files w, host w) = (Ret (Received d addr), s)"
  shows "client_loop env (Suc n) buf w =
     (if strncmp (strnlen REPLY_STRING BUFLEN) REPLY_STRING (fill_buffer d (clear_buffer buf)) = 0
      then (Exc (SystemExit 0), after_answer (after_call w recv_call s) addr)
      else client_loop env n (fill_buffer d (clear_buffer buf)) (after_call w recv_call s))"
  using assms by (simp add: io_simps Let_def cl_note_def after_answer_def after_call_def)

lemma client_loop_answers:
  "complete n rs \<Longrightarrow> receives env (files w, host w) rs \<Longrightarrow> length buf = BUFLEN \<Longrightarrow>
   \<exists>w' k. k \<le> n \<and> (case first_answer n rs of
       None \<Rightarrow> client_loop env n buf w = (Ret (), w') \<and> calls w' = calls w @ replicate k recv_call
     | Some addr \<Rightarrow> client_loop env n buf w = (Exc (SystemExit 0), w')
         \<and> calls w' = calls w @ replicate k recv_call @ [LibCall ''printf'' [PStr addr], close_call])"
proof (induction n rs arbitrary: w buf rule: complete.induct)
  case (1 rs)
  then show ?case by (auto simp: ret_app)
next
  case (3 n e rs)
  then show ?case
    by (auto simp: io_simps Let_def intro!: exI [of _ "Suc 0"])
next
  case (4 n d addr rs)
  from 4(3) obtain s' where s': "cl_recvfrom env (files w, host w) = (Ret (Received d addr), s')"
    "receives env s' rs" by auto
  define w1 where "w1 = after_call w recv_call s'"
  let ?buf = "fill_buffer d (clear_buffer buf)"
  have reply: "strncmp (strnlen REPLY_STRING BUFLEN) REPLY_STRING ?buf = 0 \<longleftrightarrow> prefix ''cfgdb_reply:'' d"
    using 4(2,4) by (simp add: fill_buffer_reply)
  show ?case
  proof (cases "prefix ''cfgdb_reply:'' d")
    case True
    then show ?thesis
      using client_loop_datagram [OF s'(1)] reply
      by (auto simp: after_answer_def intro!: exI [of _ "Suc 0"])
  next
    case False
    have loop: "client_loop env (Suc n) buf w = client_loop env n ?buf w1"
      using client_loop_datagram [OF s'(1)] False reply by (simp add: w1_def)
    have "complete n rs" "receives env (files w1, host w1) rs" "length ?buf = BUFLEN"
      using 4(2,4) False s'(2) by (simp_all add: w1_def)
    from 4(1) [OF this] obtain w' k where "k \<le> n" "case first_answer n rs of
       None \<Rightarrow> client_loop env n ?buf w1 = (Ret (), w') \<and> calls w' = calls w1 @ replicate k recv_call
     | Some addr \<Rightarrow> client_loop env n ?buf w1 = (Exc (SystemExit 0), w')
         \<and> calls w' = calls w1 @ replicate k recv_call @ [LibCall ''printf'' [PStr addr], close_call]"
      by blast
    then show ?thesis
      using False unfolding loop
      by (intro exI [of _ w'] exI [of _ "Suc k"]) (auto simp: w1_def split: option.splits)
  qed
qed simp

text \<open>The socket is set up and the broadcast is sent: every call before the loop succeeds.\<close>

definition client_starts :: "'h clientenv \<Rightarrow> fsys \<times> 'h \<Rightarrow> fsys \<times> 'h \<Rightarrow> bool" where
  "client_starts env s s' = (\<exists>fd s1 b s2 o' s3 s4 t.
     cl_socket env s = (Ret fd, s1) \<and> fd \<noteq> -1 \<and> cl_bind env client_PORT s1 = (Ret b, s2) \<and> b \<noteq> -1
     \<and> cl_setsockopt env ''SO_BROADCAST'' s2 = (Ret o', s3) \<and> 0 \<le> o'
     \<and> cl_sendto env DISCO_STRING ''255.255.255.255'' client_PORT s3 = (Ret (int (length DISCO_STRING)), s4)
     \<and> cl_setsockopt env ''SO_RCVTIMEO'' s4 = (Ret t, s'))"

definition client_script :: "call list" where
  "client_script = [LibCall ''socket'' [], LibCall ''bind'' [PInt client_PORT],
     LibCall ''setsockopt'' [PStr ''SO_BROADCAST''],
     LibCall ''sendto'' [PStr DISCO_STRING, PStr ''255.255.255.255''],
     LibCall ''setsockopt'' [PStr ''SO_RCVTIMEO'']]"

lemma client_main_loop:
  assumes "client_starts env (files w, host w) s0"
  shows "client_main env w = sq (client_loop env 6 (cl_stack env)) (sq (cl_note ''close'' []) (ret 1))
     (w\<lparr>files := fst s0, host := snd s0, calls := calls w @ client_script\<rparr>)"
  using assms unfolding client_starts_def client_script_def
  by (elim exE conjE) (simp add: client_main_def io_simps if_then_def after_call_def)

lemma client_main_answers:
  assumes stack: "length (cl_stack env) = BUFLEN" and start: "client_starts env (files w, host w) s0"
    and recv: "receives env s0 rs" and complete: "complete 6 rs"
  shows "\<exists>w' k. k \<le> 6
     \<and> client_main env w = (case first_answer 6 rs of None \<Rightarrow> Ret 1 | Some _ \<Rightarrow> Exc (SystemExit 0), w')
     \<and> calls w' = calls w @ client_script @ replicate k recv_call @
         (case first_answer 6 rs of None \<Rightarrow> [close_call] | Some addr \<Rightarrow> [LibCall ''printf'' [PStr addr], close_call])"
proof -
  let ?w = "w\<lparr>files := fst s0, host := snd s0, calls := calls w @ client_script\<rparr>"
  obtain w' k where "k \<le> 6" and loop: "case first_answer 6 rs of
       None \<Rightarrow> client_loop env 6 (cl_stack env) ?w = (Ret (), w') \<and> calls w' = calls ?w @ replicate k recv_call
     | Some addr \<Rightarrow> client_loop env 6 (cl_stack env) ?w = (Exc (SystemExit 0), w')
         \<and> calls w' = calls ?w @ replicate k recv_call @ [LibCall ''printf'' [PStr addr], close_call]"
    using client_loop_answers [OF complete _ stack, of env ?w] recv by auto
  show ?thesis
  proof (cases "first_answer 6 rs")
    case None
    then show ?thesis
      using loop \<open>k \<le> 6\<close> unfolding client_main_loop [OF start]
      by (intro exI [of _ "after_call w' close_call (files w', host w')"] exI [of _ k])
        (simp add: io_simps cl_note_def)
  next
    case (Some addr)
    then show ?thesis
      using loop \<open>k \<le> 6\<close> unfolding client_main_loop [OF start]
      by (intro exI [of _ w'] exI [of _ k]) (simp add: io_simps)
  qed
qed

text \<open>C21. The client finds an answer if one comes in time. Once the broadcast is sent, and as long as the
  datagrams that come in have at least the length of the mark \<open>cfgdb_reply:\<close> and no error occurs, it
  receives at most six of them, prints the address of the sender of the first that starts with the mark,
  and exits with 0; if there is none or the wait times out before, it prints nothing and exits with 1.\<close>

theorem client_prints_first_answer:
  assumes stack: "length (cl_stack env) = BUFLEN" and start: "client_starts env (files w, host w) s0"
    and recv: "receives env s0 rs" and complete: "complete 6 rs"
  shows "\<exists>w' k. k \<le> 6
     \<and> client_main env w = (case first_answer 6 rs of None \<Rightarrow> Ret 1 | Some _ \<Rightarrow> Exc (SystemExit 0), w')
     \<and> calls w' = calls w @ client_script @ replicate k recv_call @
         (case first_answer 6 rs of None \<Rightarrow> [close_call] | Some addr \<Rightarrow> [LibCall ''printf'' [PStr addr], close_call])"
  by (rule client_main_answers [OF assms])

text \<open>C40. A short datagram is completed by what an earlier one left in the buffer: only the first four
  bytes are cleared, since \<open>sizeof(BUFLEN)\<close> is the size of the number. When a datagram that is no answer
  holds \<open>b_reply:\<close> after its first four bytes, a second one that consists of \<open>cfgd\<close> alone is taken for an
  answer, and the client prints the address of its sender.\<close>

theorem client_takes_stale_bytes:
  assumes stack: "length (cl_stack env) = BUFLEN" and start: "client_starts env (files w, host w) s0"
    and recv: "receives env s0 [Received d addr1, Received ''cfgd'' addr2]"
    and d: "\<not> prefix ''cfgdb_reply:'' d" "take 8 (drop 4 d) = ''b_reply:''"
  shows "first_answer 6 [Received d addr1, Received ''cfgd'' addr2] = None
     \<and> (\<exists>w'. client_main env w = (Exc (SystemExit 0), w')
         \<and> calls w' = calls w @ client_script @
             [recv_call, recv_call, LibCall ''printf'' [PStr addr2], close_call])"
proof -
  let ?buf1 = "fill_buffer d (clear_buffer (cl_stack env))"
  let ?buf2 = "fill_buffer ''cfgd'' (clear_buffer ?buf1)"
  have middle: "take 8 (drop 4 xs) = drop 4 (take 12 xs)" for xs :: string
    by (simp add: drop_take)
  have long: "12 \<le> length d"
    using arg_cong [OF d(2), of length] by simp
  have len: "length ?buf1 = BUFLEN" "length ?buf2 = BUFLEN"
    using stack by simp_all
  have r1: "strncmp (strnlen REPLY_STRING BUFLEN) REPLY_STRING ?buf1 \<noteq> 0"
    using fill_buffer_reply [OF long] stack d(1) by simp
  have "take 12 ?buf2 = ''cfgd'' @ take 8 (drop 4 ?buf1)"
    by (simp add: fill_buffer_def clear_buffer_def sizeof_int_def BUFLEN_def)
  also have "take 8 (drop 4 ?buf1) = take 8 (drop 4 d)"
    using take_fill_buffer [of 12 d "clear_buffer (cl_stack env)"] long
    by (simp add: middle BUFLEN_def)
  finally have "prefix ''cfgdb_reply:'' ?buf2"
    using d(2) by (simp add: prefix_mark_iff)
  then have r2: "strncmp (strnlen REPLY_STRING BUFLEN) REPLY_STRING ?buf2 = 0"
    using is_reply_iff [of ?buf2] len(2) by (simp add: BUFLEN_def)
  obtain s1 s2 where s: "cl_recvfrom env s0 = (Ret (Received d addr1), s1)"
    "cl_recvfrom env s1 = (Ret (Received ''cfgd'' addr2), s2)"
    using recv by auto
  let ?w = "w\<lparr>files := fst s0, host := snd s0, calls := calls w @ client_script\<rparr>"
  let ?w1 = "after_call ?w recv_call s1"
  have "cl_recvfrom env (files ?w, host ?w) = (Ret (Received d addr1), s1)"
    "cl_recvfrom env (files ?w1, host ?w1) = (Ret (Received ''cfgd'' addr2), s2)"
    using s by simp_all
  note step1 = client_loop_datagram [OF this(1), of 5] and step2 = client_loop_datagram [OF this(2), of 4]
  have "client_loop env (Suc 5) (cl_stack env) ?w = client_loop env 5 ?buf1 ?w1"
    unfolding step1 using r1 by (rule if_not_P)
  also have "\<dots> = client_loop env (Suc 4) ?buf1 ?w1"
    by (simp del: client_loop.simps)
  also have "\<dots> = (Exc (SystemExit 0), after_answer (after_call ?w1 recv_call s2) addr2)"
    unfolding step2 using r2 by (rule if_P)
  finally have "client_main env w = (Exc (SystemExit 0), after_answer (after_call ?w1 recv_call s2) addr2)"
    unfolding client_main_loop [OF start] by (simp add: sq_app del: client_loop.simps)
  moreover have "first_answer 6 [Received d addr1, Received ''cfgd'' addr2] = None"
    using d(1) by (simp add: eval_nat_numeral)
  ultimately show ?thesis
    by (simp add: after_answer_def)
qed

section \<open>Witnesses\<close>

text \<open>A network whose state is the datagrams to come.\<close>

definition sample_client :: "recvd list clientenv" where
  "sample_client = \<lparr>cl_socket = (\<lambda>s. (Ret 3, s)), cl_bind = (\<lambda>p s. (Ret 0, s)),
     cl_setsockopt = (\<lambda>n s. (Ret 0, s)), cl_sendto = (\<lambda>d a p s. (Ret (int (length d)), s)),
     cl_recvfrom = (\<lambda>(fs, rs). case rs of [] \<Rightarrow> (Ret (RecvFailed EAGAIN), (fs, [])) | r # rs \<Rightarrow> (Ret r, (fs, rs))),
     cl_stack = replicate BUFLEN (CHR ''?'')\<rparr>"

definition sample_net :: "recvd list \<Rightarrow> recvd list world" where
  "sample_net rs = \<lparr>files = Map.empty, host = rs, calls = []\<rparr>"

lemma sample_client_ready:
  "length (cl_stack sample_client) = BUFLEN"
  "client_starts sample_client (files (sample_net rs), host (sample_net rs)) (Map.empty, rs)"
  "receives sample_client (fs, rs) rs"
  by (simp_all add: sample_client_def client_starts_def sample_net_def) (induction rs; simp)

theorem client_prints_first_answer_witness:
  "let rs = [Received ''cfgdb_discovery'' ''10.0.0.9'', Received ''cfgdb_reply:dc'' ''10.0.0.1''] in
   \<exists>w' k. k \<le> 6 \<and> client_main sample_client (sample_net rs) = (Exc (SystemExit 0), w')
     \<and> calls w' = calls (sample_net rs) @ client_script @ replicate k recv_call @
         [LibCall ''printf'' [PStr ''10.0.0.1''], close_call]"
proof -
  let ?rs = "[Received ''cfgdb_discovery'' ''10.0.0.9'', Received ''cfgdb_reply:dc'' ''10.0.0.1'']"
  have "complete 6 ?rs" "first_answer 6 ?rs = Some ''10.0.0.1''"
    by code_simp+
  with client_prints_first_answer [OF sample_client_ready(1,2,3), of ?rs] show ?thesis
    by simp
qed

theorem client_takes_stale_bytes_witness:
  "let rs = [Received ''xxxxb_reply:'' ''10.0.0.8'', Received ''cfgd'' ''10.0.0.9''] in
   first_answer 6 rs = None \<and> (\<exists>w'. client_main sample_client (sample_net rs) = (Exc (SystemExit 0), w')
     \<and> calls w' = calls (sample_net rs) @ client_script @
         [recv_call, recv_call, LibCall ''printf'' [PStr ''10.0.0.9''], close_call])"
  unfolding Let_def
  by (rule client_takes_stale_bytes [OF sample_client_ready]) simp_all

end
