(* ===== verification/CfgdbSystem.thy ===== *)
theory CfgdbSystem
  imports CfgdbStore CfgdbDisco CfgdbClient
begin

text \<open>
  The two services of the configuration database together. They share nothing but ZooKeeper: the REST
  service writes the name of the data centre to its node, and the discovery service reads it through
  the script \<open>query_cfgdb\<close> (\<open>query_cfgdb_local\<close> in the role), which runs the same client program against
  the same nodes. \<open>stored_name_is_announced\<close> is the property that both are there for.
\<close>

section \<open>The discovery service on the tree\<close>

definition dc_node :: string where
  "dc_node = ''/esdc/settings/dc/datacenter_name''"

text \<open>The script prints the data of a node with a line break or exits with another status than 0; it
  changes no node. Neither do the operations of the socket, which succeed.\<close>

definition reads_tree :: "'h discoenv \<Rightarrow> (fsys \<times> 'h \<Rightarrow> tree) \<Rightarrow> bool" where
  "reads_tree env tree_at = (\<forall>n s.
     case map_of (tree_at s) n of
       Some v \<Rightarrow> fst (check_output env [''query_cfgdb'', ''get'', n] s) = Ret (v @ [CHR 0x0A])
     | None \<Rightarrow> (\<exists>e. fst (check_output env [''query_cfgdb'', ''get'', n] s) = Exc (CalledProcessError e)))"

definition socket_works :: "'h discoenv \<Rightarrow> (fsys \<times> 'h \<Rightarrow> tree) \<Rightarrow> bool" where
  "socket_works env tree_at =
     ((\<forall>s. \<exists>s'. sock_create env s = (Ret (), s') \<and> tree_at s' = tree_at s)
    \<and> (\<forall>s. \<exists>s'. sock_bind env [] PORT s = (Ret (), s') \<and> tree_at s' = tree_at s)
    \<and> (\<forall>r a s. fst (sock_sendto env r a s) = Ret ()))"

text \<open>The answer for a tree.\<close>

definition announcement :: "tree \<Rightarrow> string" where
  "announcement t = ''cfgdb_reply:'' @
     (case map_of t dc_node of None \<Rightarrow> ''<unknown>'' | Some v \<Rightarrow> bytes_repr (py_strip v))"

lemma disco_announces:
  assumes reads: "reads_tree env tree_at" and sock: "socket_works env tree_at"
  shows "\<exists>w'. disco_main env pkts (disco_init fs h) = (Ret (), w')
     \<and> sent w' = map (\<lambda>a. (announcement (tree_at (fs, h)), a)) (requesters pkts)"
proof -
  obtain s1 where s1: "sock_create env (fs, h) = (Ret (), s1)" "tree_at s1 = tree_at (fs, h)"
    using sock unfolding socket_works_def by blast
  obtain s2 where s2: "sock_bind env [] PORT s1 = (Ret (), s2)" "tree_at s2 = tree_at s1"
    using sock unfolding socket_works_def by blast
  have send: "fst (sock_sendto env r a s) = Ret ()" for r a s
    using sock unfolding socket_works_def by blast
  have outcome: "case map_of (tree_at s) dc_node of
       Some v \<Rightarrow> fst (check_output env dc_query s) = Ret (v @ [CHR 0x0A])
     | None \<Rightarrow> (\<exists>e. fst (check_output env dc_query s) = Exc (CalledProcessError e))" for s
    using reads unfolding reads_tree_def dc_query_def dc_node_def by blast
  have query: "(\<exists>b. fst (check_output env dc_query s) = Ret b)
      \<or> (\<exists>e. fst (check_output env dc_query s) = Exc e \<and> is_query_failure e)" for s
    using outcome [of s] by (cases "map_of (tree_at s) dc_node") auto
  obtain w' r where w': "disco_main env pkts (disco_init fs h) = (Ret (), w')"
    "calls w' = start_calls @ (if requesters pkts = [] then []
       else Popen dc_query # map (reply_to r) (requesters pkts))"
    "r = ''cfgdb_reply:'' @ (case fst (check_output env dc_query s2) of
       Ret b \<Rightarrow> bytes_repr (py_strip b) | Exc _ \<Rightarrow> ''<unknown>'')"
    using disco_main_answers [OF s1(1) s2(1) send query] by blast
  have "r = announcement (tree_at (fs, h))"
    using outcome [of s2] w'(3) s1(2) s2(2)
    by (auto simp: announcement_def py_strip_newline split: option.splits)
  moreover have "sent w' = map (\<lambda>a. (r, a)) (requesters pkts)"
    by (simp add: sent_def w'(2) start_calls_def comp_def concat_map_singleton)
  ultimately show ?thesis using w'(1) by blast
qed

section \<open>Storing and announcing\<close>

text \<open>C5. The name that is stored is the name that is announced. Once a \<open>POST\<close> or \<open>PUT\<close> of the data
  centre's name has been answered with success, a discovery service that is started on the host answers
  every discovery datagram with this name (in the form in which Python prints bytes), in the order of
  the requests, whatever other requests the REST service has handled in between.\<close>

theorem stored_name_is_announced:
  assumes client: "zk_client env tree_at" and depth: "1 \<le> d"
    and reads: "reads_tree de tree_at" and sock: "socket_works de tree_at"
    and store: "a = Create dc_node name \<or> a = Write dc_node name"
    and others: "list_all (\<lambda>a. \<not> touches dc_node a) ops"
    and reqs: "list_all2 asks qs (a # ops)" and ok: "list_all api_ok (a # ops)"
    and valid: "tree_valid (tree_at (files w, host w))"
  shows "\<exists>outs w1 w2. serve_requests (py3_json rep wide d) env qs w = (Ret outs, w1)
     \<and> disco_main de pkts (disco_init (files w1) (host w1)) = (Ret (), w2)
     \<and> (reply_of (json_loads_bytes wide d) a (hd outs) = Some Done \<longrightarrow>
         sent w2 = map (\<lambda>addr. (''cfgdb_reply:'' @ bytes_repr (py_strip name), addr)) (requesters pkts))"
proof -
  let ?t = "tree_at (files w, host w)" and ?reply = "reply_of (json_loads_bytes wide d)"
  from rest_simulates [OF client depth reqs ok valid] obtain outs w1
    where run: "serve_requests (py3_json rep wide d) env qs w = (Ret outs, w1)"
      and replies: "map2 ?reply (a # ops) outs = map Some (fst (api_run (a # ops) ?t))"
      and tree: "tree_at (files w1, host w1) = snd (api_run (a # ops) ?t)" by blast
  obtain out outs' where outs: "outs = out # outs'"
    using replies by (cases outs) (simp_all add: api_run_Cons)
  have first: "?reply a (hd outs) = Some (fst (api_step a ?t))"
    using replies by (simp add: outs api_run_Cons)
  obtain w2 where w2: "disco_main de pkts (disco_init (files w1) (host w1)) = (Ret (), w2)"
    "sent w2 = map (\<lambda>addr. (announcement (tree_at (files w1, host w1)), addr)) (requesters pkts)"
    using disco_announces [OF reads sock] by blast
  have "announcement (tree_at (files w1, host w1)) = ''cfgdb_reply:'' @ bytes_repr (py_strip name)"
    if "?reply a (hd outs) = Some Done"
  proof -
    have "fst (api_step a ?t) = Done"
      using that first by simp
    from api_store_kept [OF store others this] show ?thesis
      by (simp add: tree announcement_def)
  qed
  then show ?thesis
    using run w2 by (intro exI [of _ outs] exI [of _ w1] exI [of _ w2]) auto
qed

section \<open>Client and service\<close>

lemma first_answer_append:
  assumes "list_all (\<lambda>x. \<exists>d a. x = Received d a \<and> 12 \<le> length d \<and> \<not> prefix ''cfgdb_reply:'' d) others"
    and "length others < n" and "prefix ''cfgdb_reply:'' r"
  shows "first_answer n (others @ [Received r addr]) = Some addr \<and> complete n (others @ [Received r addr])"
  using assms(1,2)
proof (induction others arbitrary: n)
  case Nil
  then show ?case
    using assms(3) by (cases n) (auto dest: prefix_length_le)
next
  case (Cons x others)
  then show ?case by (cases n) auto
qed

text \<open>C7. A client finds the service. When the datagram that the client broadcasts reaches a discovery
  service, the service answers it; and when the network delivers this answer to the client after at most
  five other datagrams that are long enough and no answers, such as the client's own broadcast, the
  client prints the address of the service and exits with 0.\<close>

theorem client_finds_service:
  assumes service: "disco_main de (before @ (DISCO_STRING, me) # after) (disco_init fs h) = (Ret (), w1)"
    and stack: "length (cl_stack env) = BUFLEN" and start: "client_starts env (files w, host w) s0"
    and others: "length others \<le> 5" "list_all (\<lambda>x. \<exists>d a. x = Received d a \<and> 12 \<le> length d
        \<and> \<not> prefix ''cfgdb_reply:'' d) others"
    and delivered: "\<And>r. (r, me) \<in> set (sent w1) \<Longrightarrow> receives env s0 (others @ [Received r server])"
  shows "\<exists>w' k. client_main env w = (Exc (SystemExit 0), w')
     \<and> calls w' = calls w @ client_script @ replicate k recv_call @ [LibCall ''printf'' [PStr server], close_call]"
proof -
  have run: "map snd (sent w1) = requesters (before @ (DISCO_STRING, me) # after)"
    "\<exists>r. prefix ''cfgdb_reply:'' r \<and> list_all (\<lambda>x. fst x = r) (sent w1)"
    using disco_main_refines [OF service] by blast+
  have "me \<in> set (map snd (sent w1))"
    unfolding run(1) by (simp add: requesters_def is_discovery_def DISCO_STRING_def)
  then obtain r where r: "(r, me) \<in> set (sent w1)" by auto
  then have "prefix ''cfgdb_reply:'' r"
    using run(2) by (auto simp: list_all_iff)
  then have "first_answer 6 (others @ [Received r server]) = Some server"
    "complete 6 (others @ [Received r server])"
    using first_answer_append [OF others(2), of 6 r server] others(1) by simp_all
  then show ?thesis
    using client_main_answers [OF stack start delivered [OF r]] by auto
qed

section \<open>Witnesses\<close>

definition tree_disco :: "tree discoenv" where
  "tree_disco = \<lparr>check_output = (\<lambda>argv s. (case map_of (snd s) (last argv) of
       None \<Rightarrow> Exc (CalledProcessError ''exit status 1'') | Some v \<Rightarrow> Ret (v @ [CHR 0x0A]), s)),
     sock_create = (\<lambda>s. (Ret (), s)), sock_bind = (\<lambda>addr port s. (Ret (), s)),
     sock_sendto = (\<lambda>r a s. (Ret (), s))\<rparr>"

definition settings_tree_world :: "tree world" where
  "settings_tree_world = \<lparr>files = Map.empty,
     host = map (\<lambda>n. (n, [])) [''/esdc'', ''/esdc/settings'', ''/esdc/settings/dc''], calls = []\<rparr>"

lemma tree_disco_contracts: "reads_tree tree_disco snd" "socket_works tree_disco snd"
  by (auto simp: reads_tree_def socket_works_def tree_disco_def split: option.splits)

theorem stored_name_is_announced_witness:
  "let a = Create dc_node ''brno''; ops = [Create ''/esdc/b'' ''b''];
       pkts = [(''cfgdb_discovery'', ''10.0.0.1''), (''hello'', ''10.0.0.2'')] in
   \<exists>outs w1 w2. serve_requests (sample_py3 9) tree_zkenv (map sample_ask (a # ops)) settings_tree_world
       = (Ret outs, w1)
     \<and> disco_main tree_disco pkts (disco_init (files w1) (host w1)) = (Ret (), w2)
     \<and> (reply_of (json_loads_bytes sample_wide 9) a (hd outs) = Some Done \<longrightarrow>
         sent w2 = [(''cfgdb_reply:'' @ bytes_repr ''brno'', ''10.0.0.1'')])"
proof -
  let ?ops = "[Create ''/esdc/b'' ''b'']" and ?all = "[Create dc_node ''brno'', Create ''/esdc/b'' ''b'']"
  let ?pkts = "[(''cfgdb_discovery'', ''10.0.0.1''), (''hello'', ''10.0.0.2'')]"
  have "tree_valid (host settings_tree_world)"
    by code_simp
  then have ok: "list_all api_ok ?all" "tree_valid (snd (files settings_tree_world, host settings_tree_world))"
    by (simp_all add: api_ok_def py_len_def dc_node_def utf8_valid_ascii del: utf8_valid.simps)
  have others: "list_all (\<lambda>a. \<not> touches dc_node a) ?ops" "py_strip ''brno'' = ''brno''"
    "requesters ?pkts = [''10.0.0.1'']"
    by code_simp+
  have reqs: "list_all2 asks (map sample_ask ?all) ?all"
    by (rule sample_asks_all)
  from stored_name_is_announced [OF tree_client _ tree_disco_contracts _ others(1) reqs ok, of 9 "''brno''"
      "\<lambda>v. []" sample_wide ?pkts]
  show ?thesis
    by (simp add: others(2,3) del: serve_requests.simps)
qed

theorem client_finds_service_witness:
  "\<exists>w' k. client_main sample_client (sample_net [Received ''cfgdb_discovery'' ''10.0.0.2'',
         Received (announcement (host settings_tree_world)) ''10.0.0.1'']) = (Exc (SystemExit 0), w')
     \<and> calls w' = [] @ client_script @ replicate k recv_call @ [LibCall ''printf'' [PStr ''10.0.0.1''], close_call]"
proof -
  let ?h = "host settings_tree_world" and ?others = "[Received ''cfgdb_discovery'' ''10.0.0.2'']"
  obtain w1 where w1: "disco_main tree_disco ([] @ (DISCO_STRING, ''10.0.0.2'') # []) (disco_init Map.empty ?h) = (Ret (), w1)"
    "sent w1 = map (\<lambda>a. (announcement ?h, a)) (requesters [(DISCO_STRING, ''10.0.0.2'')])"
    using disco_announces [OF tree_disco_contracts, of "[(DISCO_STRING, ''10.0.0.2'')]" Map.empty ?h] by auto
  let ?rs = "?others @ [Received (announcement ?h) ''10.0.0.1'']"
  have others: "length ?others \<le> 5"
    "list_all (\<lambda>x. \<exists>d a. x = Received d a \<and> 12 \<le> length d \<and> \<not> prefix ''cfgdb_reply:'' d) ?others"
    by auto
  have delivered: "receives sample_client (Map.empty, ?rs) (?others @ [Received r ''10.0.0.1''])"
    if "(r, ''10.0.0.2'') \<in> set (sent w1)" for r
  proof -
    have "r = announcement ?h" using that w1(2) by auto
    then show ?thesis by (simp only: sample_client_ready(3))
  qed
  have "calls (sample_net ?rs) = []"
    by (simp add: sample_net_def)
  with client_finds_service [OF w1(1) sample_client_ready(1) sample_client_ready(2) others delivered]
  show ?thesis by simp
qed

end
