(* ===== verification/ZabbixTemplateJson.thy ===== *)
theory ZabbixTemplateJson
  imports ZabbixTemplate JsonResults
begin

text \<open>
  The module \<open>zabbix_template.py\<close> with the JSON library: a template exported with
  \<open>format=json\<close> can be imported again, also elsewhere, and the server then gets the same document.
\<close>

text \<open>\<open>json.loads(data)\<close> and \<open>json.dumps(data, indent=4, separators=(',', ': '))\<close>; \<open>d\<close> and \<open>e\<close>
  are the nesting at which the decoder and the encoder give up.\<close>

definition json_tmplrt :: "nat \<Rightarrow> nat \<Rightarrow> (pyval \<Rightarrow> string) \<Rightarrow> tmplrt \<Rightarrow> tmplrt" where
  "json_tmplrt d e rep T =
     T\<lparr>t_rt := (t_rt T)\<lparr>rt_loads := json_loads d\<rparr>, t_dumps := json_dumps_limited e (pretty_style rep)\<rparr>"

lemma json_export_data:
  assumes "fmt \<noteq> ''xml''" "json_loads d txt = Ret doc" "jsonable doc" "jdepth doc \<le> e"
  shows "export_data (json_tmplrt d e rep T) (PStr fmt) (PStr txt)
      = Ret (Text (json_dumps (pretty_style rep) doc))"
  using assms by (simp add: export_data_def json_tmplrt_def json_dumps_limited_jsonable)

lemma json_reread:
  assumes "json_loads d txt = Ret doc" "jsonable doc"
  shows "json_loads d (json_dumps (pretty_style rep) doc) = Ret doc"
proof -
  have "admissible (pretty_style rep) d doc"
    using json_loads_sound [OF assms(1)] assms(2) by (simp add: admissible_def sound_def)
  with json_text.dumps_again [OF assms(1) this] assms(1) show ?thesis
    by (simp add: key_order_def)
qed

text \<open>C16. Export and import fit together. When the server answers an export in a format other than xml
  with a JSON document (of well-formed texts and no fractions), the module writes a file that
  decodes to the same document. An import of that file, on whatever host and Zabbix server, sends
  exactly the text of the file in one call and reports a change if the server accepts it, else a failure.\<close>

theorem template_json_export_reimports:
  assumes r: "template_ready z m (files w, host w) cs s' ''export'' t (PStr tgt) fmt" "fmt \<noteq> ''xml''"
    and get1: "za_method z ''template.get'' (template_query (PStr t)) s' = (Ret (PList (PDict td # ts)), s1)"
      "dict_get td ''templateid'' = Some i" "truthy i"
    and get2: "za_method z ''template.get'' (template_query (PStr t)) s1
        = (Ret (PList (PDict td' # ts')), s2)" "dict_get td' ''templateid'' = Some i'"
    and exp: "za_method z ''configuration.export'' (export_request i' (PStr fmt)) s2 = (Ret (PStr txt), s3)"
    and doc: "json_loads d txt = Ret doc" "jsonable doc" "jdepth doc \<le> e" "export_name doc = Ret n"
    and ok: "t_writable T tgt" "fst s3 tgt \<noteq> Some Directory"
    and r2: "template_ready z2 m2 (files w2, host w2) cs2 s2' ''present'' f tgt2 fmt2"
    and same: "fst s2' f = files (snd (template_main (json_tmplrt d e rep T) z m w)) tgt"
  shows "\<exists>data. files (snd (template_main (json_tmplrt d e rep T) z m w)) tgt = Some (RegularFile data)
     \<and> json_loads d data = Ret doc
     \<and> calls (snd (template_main (json_tmplrt d e rep T) z2 m2 w2)) = calls w2 @ cs2 @
         [LibCall ''configuration.import_'' [import_request (PStr fmt2) data],
          case fst (za_method z2 ''configuration.import_'' (import_request (PStr fmt2) data) s2') of
            Ret _ \<Rightarrow> ExitJson [(''changed'', PBool True)] | Exc x \<Rightarrow> msg_fail (api_problem x)]"
proof -
  let ?T = "json_tmplrt d e rep T"
  let ?data = "json_dumps (pretty_style rep) doc"
  have w: "t_writable ?T tgt" using ok(1) by (simp add: json_tmplrt_def)
  have written: "files (snd (template_main ?T z m w)) tgt = Some (RegularFile ?data)"
    using template_export_text [OF r(1) get1 get2 exp json_export_data [OF r(2) doc(1-3)] w ok(2)]
    by auto
  moreover have "json_loads d ?data = Ret doc"
    by (rule json_reread [OF doc(1,2)])
  moreover from this have l: "rt_loads (t_rt ?T) ?data = Ret doc"
    by (simp add: json_tmplrt_def)
  moreover have src: "fst s2' f = Some (RegularFile ?data)"
    using same written by simp
  moreover obtain res s4 where
    imp: "za_method z2 ''configuration.import_'' (import_request (PStr fmt2) ?data) s2' = (res, s4)"
    by (cases "za_method z2 ''configuration.import_'' (import_request (PStr fmt2) ?data) s2'")
  ultimately show ?thesis
    using template_import_run [OF r2 _ src l doc(4) imp] by (intro exI [of _ ?data]) auto
qed

section \<open>Witness\<close>

text \<open>A server that exports a document, and one that imports it from the file \<open>o\<close>.\<close>

definition sample_doc :: pyval where
  "sample_doc = PDict [(''zabbix_export'', PDict [(''version'', PStr ''3.0''),
     (''templates'', PList [PDict [(''name'', PStr (''T'' @ [CHR 0x22])), (''items'', PList [])]])])]"

definition sample_export :: string where
  "sample_export = json_dumps (default_style (\<lambda>v. [])) sample_doc"

definition sample_json_zbx :: "unit zabbix_client" where
  "sample_json_zbx = (sample_tmpl_zbx [PDict [(''templateid'', PStr ''7'')]])\<lparr>za_method := (\<lambda>meth arg s.
     if meth = ''template.get'' then (Ret (PList [PDict [(''templateid'', PStr ''7'')]]), s)
     else if meth = ''configuration.export'' then (Ret (PStr sample_export), s)
     else (Ret (PBool True), s))\<rparr>"

definition sample_json_module :: "string \<Rightarrow> string \<Rightarrow> unit ansible_module" where
  "sample_json_module st template = sample_zbx_module
     [(''server_url'', PStr ''http://zbx''), (''login_user'', PStr ''u''), (''login_password'', PStr ''p''),
      (''template'', PStr template), (''state'', PStr st), (''timeout'', PInt 10), (''target'', PStr ''o''),
      (''format'', PStr ''json''), (''validate_certs'', PBool False)]"

definition sample_json_T :: tmplrt where
  "sample_json_T = json_tmplrt 9 9 (\<lambda>v. []) sample_tmplrt"

definition sample_export_run :: "unit world" where
  "sample_export_run =
     snd (template_main sample_json_T sample_json_zbx (sample_json_module ''export'' ''t'') (sample_tmpl_world []))"

lemma sample_json_ready:
  "template_ready sample_json_zbx (sample_json_module st t) s sample_zbx_session s
     st t (PStr ''o'') ''json''"
  by (simp add: template_ready_def zabbix_session_def ansible_contract_def sample_tmpl_defs dict_get_def
      sample_json_zbx_def sample_json_module_def)

lemma sample_doc_jsonable: "jsonable sample_doc" "jdepth sample_doc \<le> 9"
  by code_simp+

lemma sample_export_loads: "json_loads 9 sample_export = Ret sample_doc"
  using json_text.decodes [of "default_style (\<lambda>v. [])" 9 sample_doc] sample_doc_jsonable
  by (simp add: sample_export_def admissible_def key_order_def)

theorem template_json_export_reimports_witness:
  "\<exists>data. files sample_export_run ''o'' = Some (RegularFile data)
     \<and> json_loads 9 data = Ret sample_doc
     \<and> calls (snd (template_main sample_json_T sample_json_zbx (sample_json_module ''present'' ''o'')
            sample_export_run)) = calls sample_export_run @ sample_zbx_session @
         [LibCall ''configuration.import_'' [import_request (PStr ''json'') data],
          case fst (za_method sample_json_zbx ''configuration.import_'' (import_request (PStr ''json'') data)
              (files sample_export_run, host sample_export_run)) of
            Ret _ \<Rightarrow> ExitJson [(''changed'', PBool True)] | Exc x \<Rightarrow> msg_fail (api_problem x)]"
  unfolding sample_export_run_def sample_json_T_def
proof (rule template_json_export_reimports [OF sample_json_ready _ _ _ _ _ _ _ _ _ _ _ _ _
      sample_json_ready, where i = "PStr ''7''" and i' = "PStr ''7''" and td = "[(''templateid'', PStr ''7'')]"
      and td' = "[(''templateid'', PStr ''7'')]" and ?s3.0 = "(files (sample_tmpl_world []), ())"])
  show "json_loads 9 sample_export = Ret sample_doc" by (rule sample_export_loads)
  show "jsonable sample_doc" "jdepth sample_doc \<le> 9" by (rule sample_doc_jsonable)+
  show "export_name sample_doc = Ret (PStr (''T'' @ [CHR 0x22]))"
    by (simp add: sample_doc_def export_name_def dict_get_def)
qed (simp_all add: sample_json_zbx_def sample_tmpl_world_def sample_tmplrt_def dict_get_def)

end
