(* ===== verification/Hqsms.thy ===== *)
theory Hqsms
  imports PyIO
begin

text \<open>
  The Zabbix alert script \<open>ansible/roles/esdc-mon/files/alertscripts/hqsms.py\<close>, which sends a text
  message through the HQSMS service. The HTTP client, the standard streams and the credentials that
  the deployment writes over the placeholders are the record \<open>hqenv\<close>; \<open>hq_py3\<close> tells whether
  the interpreter cuts text by characters (Python 3) or by bytes (Python 2).
\<close>

section \<open>The script\<close>

record 'h hqenv =
  hq_py3 :: bool
  hq_username :: string
  hq_password :: string
  hq_from :: string
  hq_post :: "pyval \<Rightarrow> ('h, int \<times> string) outside"
  hq_print :: "string \<Rightarrow> ('h, unit) outside"
  hq_stderr :: "string \<Rightarrow> ('h, unit) outside"

definition login_data :: "'h hqenv \<Rightarrow> pydict" where
  "login_data env =
     [(''username'', PStr (hq_username env)), (''password'', PStr (hq_password env)),
      (''from'', PStr (hq_from env))]"

definition sms_url :: string where
  "sms_url = ''https://ssl.hqsms.com/sms.do''"

definition sms_data :: "'h hqenv \<Rightarrow> string \<Rightarrow> string \<Rightarrow> pydict" where
  "sms_data env phone message =
     dict_set ''message'' (PStr message)
       (dict_set ''to'' (PStr (py_replace ''+'' '''' phone)) (login_data env))"

definition sms_send :: "'h hqenv \<Rightarrow> string \<Rightarrow> string \<Rightarrow> ('h world, int \<times> string) io" where
  "sms_send env phone message =
     (let data = PDict (sms_data env phone message) in
      ext (LibCall ''requests.post'' [PStr sms_url, data]) (hq_post env data))"

text \<open>\<open>msg[:160]\<close>.\<close>

definition sms_cut :: "'h hqenv \<Rightarrow> string \<Rightarrow> string" where
  "sms_cut env msg = (if hq_py3 env then py_take 160 msg else take 160 msg)"

definition sms_usage :: "string \<Rightarrow> string" where
  "sms_usage prog = ''Usage: '' @ prog @ '' <phone> <message>'' @ [CHR 0x0A]"

definition sms_main :: "'h hqenv \<Rightarrow> string list \<Rightarrow> ('h world, unit) io" where
  "sms_main env argv =
     (if length argv < 3
      then (case argv of
              [] \<Rightarrow> raise (IndexError ''list index out of range'')
            | prog # _ \<Rightarrow>
                sq (ext (LibCall ''stderr.write'' [PStr (sms_usage prog)]) (hq_stderr env (sms_usage prog)))
                   (raise (SystemExit 1)))
      else (let msg = py_join '' '' (drop 2 argv) in
        bnd (sms_send env (argv ! 1) (sms_cut env msg)) (\<lambda>(status_code, body).
        (let line = body @ '' ('' @ dec_of_int status_code @ '')'' in
         sq (ext (LibCall ''print'' [PStr line]) (hq_print env line))
            (if status_code = 200 \<and> py_startswith body ''OK:'' then raise (SystemExit 0)
             else raise (SystemExit 1))))))"

section \<open>Behaviour\<close>

text \<open>The length of a text, in characters or, under Python 2, in bytes, and what cutting keeps.\<close>

definition sms_len :: "'h hqenv \<Rightarrow> string \<Rightarrow> nat" where
  "sms_len env s = (if hq_py3 env then py_len s else length s)"

lemma sms_cut_exact:
  "prefix (sms_cut env s) s" "sms_len env (sms_cut env s) = min 160 (sms_len env s)"
  "sms_len env s \<le> 160 \<Longrightarrow> sms_cut env s = s"
  by (auto simp: sms_cut_def sms_len_def prefix_py_take take_is_prefix py_len_take min.commute py_take_all)

lemma sms_data_value:
  "sms_data env phone msg = login_data env
     @ [(''to'', PStr (filter (\<lambda>c. c \<noteq> CHR ''+'') phone)), (''message'', PStr msg)]"
  by (simp add: sms_data_def login_data_def py_replace_delete)

text \<open>C38. One message per run: with a phone number and words the script posts exactly one request,
  to the number without its plus signs, whose message is the words joined by spaces, or their first 160
  characters (bytes under Python 2) if they are longer; it prints the answer, and its exit status is 0
  exactly when the service answered 200 with a text that starts with \<open>OK:\<close>.\<close>

theorem sms_sends_one:
  assumes post: "\<And>d s. \<exists>code body s'. hq_post env d s = (Ret (code, body), s')"
    and print: "\<And>l s. \<exists>s'. hq_print env l s = (Ret (), s')"
  shows "\<exists>msg code body w'. let d = PDict (login_data env
         @ [(''to'', PStr (filter (\<lambda>c. c \<noteq> CHR ''+'') phone)), (''message'', PStr msg)]) in
     sms_main env (prog # phone # word # words) w =
       (Exc (SystemExit (if code = 200 \<and> prefix ''OK:'' body then 0 else 1)), w')
     \<and> calls w' = calls w @ [LibCall ''requests.post'' [PStr sms_url, d],
          LibCall ''print'' [PStr (body @ '' ('' @ dec_of_int code @ '')'')]]
     \<and> fst (hq_post env d (files w, host w)) = Ret (code, body)
     \<and> msg = (if hq_py3 env then py_take 160 (py_join '' '' (word # words)) else take 160 (py_join '' '' (word # words)))
     \<and> prefix msg (py_join '' '' (word # words))
     \<and> sms_len env msg = min 160 (sms_len env (py_join '' '' (word # words)))
     \<and> (sms_len env (py_join '' '' (word # words)) \<le> 160 \<longrightarrow> msg = py_join '' '' (word # words))"
proof -
  let ?full = "py_join '' '' (word # words)"
  let ?d = "PDict (sms_data env phone (sms_cut env ?full))"
  obtain code body s1 where p: "hq_post env ?d (files w, host w) = (Ret (code, body), s1)"
    using post by blast
  obtain s2 where q: "hq_print env (body @ '' ('' @ dec_of_int code @ '')'') s1 = (Ret (), s2)"
    using print by blast
  have "sms_main env (prog # phone # word # words) w =
      (Exc (SystemExit (if code = 200 \<and> prefix ''OK:'' body then 0 else 1)),
       after_call (after_call w (LibCall ''requests.post'' [PStr sms_url, ?d]) s1)
         (LibCall ''print'' [PStr (body @ '' ('' @ dec_of_int code @ '')'')]) s2)"
    using p q by (simp add: sms_main_def sms_send_def Let_def io_simps py_startswith_def)
  then show ?thesis
    using p sms_cut_exact [of env ?full] sms_cut_def [of env ?full]
    unfolding sms_data_value
    by (intro exI [of _ "sms_cut env ?full"] exI [of _ code] exI [of _ body]) (auto simp: Let_def)
qed

text \<open>Without a phone number and a message the script posts nothing: it prints its usage and
  leaves with status 1.\<close>

lemma sms_usage_posts_nothing:
  assumes "argv = [prog] \<or> argv = [prog, phone]" and "hq_stderr env (sms_usage prog) (files w, host w) = (Ret (), s)"
  shows "sms_main env argv w =
     (Exc (SystemExit 1), after_call w (LibCall ''stderr.write'' [PStr (sms_usage prog)]) s)"
  using assms by (auto simp: sms_main_def io_simps)

section \<open>Witnesses\<close>

definition sample_hqenv :: "unit hqenv" where
  "sample_hqenv = \<lparr>hq_py3 = True, hq_username = ''u'', hq_password = ''p'', hq_from = ''f'',
     hq_post = (\<lambda>d s. (Ret (200, ''OK:1''), s)), hq_print = (\<lambda>l s. (Ret (), s)),
     hq_stderr = (\<lambda>l s. (Ret (), s))\<rparr>"

definition sample_hq_world :: "unit world" where
  "sample_hq_world = \<lparr>files = Map.empty, host = (), calls = []\<rparr>"

theorem sms_sends_one_witness:
  "\<exists>msg code body w'. let d = PDict (login_data sample_hqenv
         @ [(''to'', PStr (filter (\<lambda>c. c \<noteq> CHR ''+'') ''+421900'')), (''message'', PStr msg)]) in
     sms_main sample_hqenv [''hqsms'', ''+421900'', ''disk'', ''full''] sample_hq_world =
       (Exc (SystemExit (if code = 200 \<and> prefix ''OK:'' body then 0 else 1)), w')
     \<and> calls w' = calls sample_hq_world @ [LibCall ''requests.post'' [PStr sms_url, d],
          LibCall ''print'' [PStr (body @ '' ('' @ dec_of_int code @ '')'')]]
     \<and> fst (hq_post sample_hqenv d (files sample_hq_world, host sample_hq_world)) = Ret (code, body)
     \<and> msg = (if hq_py3 sample_hqenv then py_take 160 (py_join '' '' [''disk'', ''full'']) else take 160 (py_join '' '' [''disk'', ''full'']))
     \<and> prefix msg (py_join '' '' [''disk'', ''full'']) \<and> sms_len sample_hqenv msg = min 160 (sms_len sample_hqenv (py_join '' '' [''disk'', ''full'']))
     \<and> (sms_len sample_hqenv (py_join '' '' [''disk'', ''full'']) \<le> 160 \<longrightarrow> msg = (py_join '' '' [''disk'', ''full'']))"
  by (rule sms_sends_one) (simp_all add: sample_hqenv_def del: split_paired_Ex)

end
