(* ===== verification/Discovery.thy ===== *)
theory Discovery
  imports PyIO
begin

text \<open>
  The Zabbix low-level discovery scripts of a compute node (\<open>ansible/files/archives/monitoring\<close>):
  \<open>vm-discovery\<close>, \<open>vm-disk-discovery\<close> and \<open>vm-netif-discovery\<close>, Python 2 programs
  that parse the tables printed by \<open>vmadm\<close> and \<open>dladm\<close> with regular expressions and print
  one JSON document. A dictionary under construction (\<open>zone\<close>, \<open>vm\<close>) is a record; its
  entries become a document in \<open>vm_doc\<close>, \<open>disk_doc\<close> and \<open>netif_doc\<close>.

  The shell, the directory listing and \<open>json.dumps\<close> are the record \<open>discenv\<close>.
\<close>

section \<open>Regular expressions\<close>

text \<open>A greedy group \<open>(.*)\<close> followed by a colon takes the longest text for which the rest of the
  expression matches. \<open>match_fields k s\<close> is the matcher for \<open>k\<close> such groups before a final
  \<open>(.*)$\<close>: it tries the split points from the right and backtracks. The lines hold no newline.\<close>

fun first_some :: "('a \<Rightarrow> 'b option) \<Rightarrow> 'a list \<Rightarrow> 'b option" where
  "first_some f [] = None"
| "first_some f (x # xs) = (case f x of Some y \<Rightarrow> Some y | None \<Rightarrow> first_some f xs)"

fun match_fields :: "nat \<Rightarrow> string \<Rightarrow> string list option" where
  "match_fields 0 s = Some [s]"
| "match_fields (Suc k) s =
     first_some (\<lambda>i. if s ! i = CHR '':'' then map_option ((#) (take i s)) (match_fields k (drop (Suc i) s))
                     else None)
       (rev [0..<length s])"

text \<open>\<open>p.stdout.readlines()\<close>, each line without its trailing white space (and newline).\<close>

fun py_readlines :: "string \<Rightarrow> string list" where
  "py_readlines [] = []"
| "py_readlines (c # cs) =
     (if c = CHR 0x0A then [c] # py_readlines cs
      else (case py_readlines cs of
              [] \<Rightarrow> [[c]]
            | l # ls \<Rightarrow> (c # l) # ls))"

definition stripped_lines :: "string \<Rightarrow> string list" where
  "stripped_lines out = map py_rstrip (py_readlines out)"

text \<open>\<open>re.match(regex, line)\<close> and its groups; no match is \<open>None\<close>, which has no
  \<open>group\<close>.\<close>

definition groups :: "nat \<Rightarrow> string \<Rightarrow> string list res" where
  "groups k line = (case match_fields k line of
     Some gs \<Rightarrow> Ret gs
   | None \<Rightarrow> Exc (AttributeError ''NoneType object has no attribute group''))"

fun res_map :: "('a \<Rightarrow> 'b res) \<Rightarrow> 'a list \<Rightarrow> 'b list res" where
  "res_map f [] = Ret []"
| "res_map f (x # xs) = res_bind (f x) (\<lambda>y. res_bind (res_map f xs) (\<lambda>ys. Ret (y # ys)))"

section \<open>vm-discovery\<close>

record zone =
  z_uuid :: string
  z_alias :: string
  z_uuid_short :: string
  z_type :: string

definition vm_zone :: "string \<Rightarrow> zone res" where
  "vm_zone line = res_bind (groups 2 line) (\<lambda>g. Ret
     \<lparr>z_uuid = g ! 0, z_alias = g ! 2, z_uuid_short = hd (split_on (CHR ''-'') (g ! 0)),
      z_type = g ! 1\<rparr>)"

definition vm_zones :: "string \<Rightarrow> zone list res" where
  "vm_zones out = res_map vm_zone (stripped_lines out)"

definition vm_doc :: "zone list \<Rightarrow> pyval" where
  "vm_doc zs = PDict [(''data'', PList (map (\<lambda>z. PDict
     [(''{#UUID}'', PStr (z_uuid z)), (''{#ALIAS}'', PStr (z_alias z)),
      (''{#UUID_SHORT}'', PStr (z_uuid_short z)), (''{#TYPE}'', PStr (z_type z))]) zs))]"

section \<open>vm-disk-discovery\<close>

record vmdisk =
  d_uuid :: string
  d_alias :: string
  d_disk :: "string option"

text \<open>\<open>re.search(r'^[a-z0-9-]+[-/]disk[0-9]+$', f)\<close> and \<open>r'^(.*)[-/](disk[0-9]+)$'\<close>:
  the text \<open>disk\<close> with digits at the end, what precedes it, and the separator between. The groups
  of the second expression are the result. File names hold no newline.\<close>

definition is_name_char :: "char \<Rightarrow> bool" where
  "is_name_char c =
     (let n = of_char c :: nat in (97 \<le> n \<and> n \<le> 122) \<or> (48 \<le> n \<and> n \<le> 57) \<or> c = CHR ''-'')"

definition is_decimal :: "char \<Rightarrow> bool" where
  "is_decimal c = (let n = of_char c :: nat in 48 \<le> n \<and> n \<le> 57)"

definition disk_groups :: "string \<Rightarrow> (string \<times> string) option" where
  "disk_groups f =
     (let digits = rev (takeWhile is_decimal (rev f));
          front = rev (dropWhile is_decimal (rev f))
      in if digits \<noteq> [] \<and> 5 \<le> length front \<and> drop (length front - 4) front = ''disk''
            \<and> front ! (length front - 5) \<in> set [CHR ''-'', CHR ''/'']
         then Some (take (length front - 5) front, ''disk'' @ digits) else None)"

definition is_disk :: "string \<Rightarrow> bool" where
  "is_disk f = (case disk_groups f of None \<Rightarrow> False
     | Some (name, d) \<Rightarrow> name \<noteq> [] \<and> list_all is_name_char name)"

text \<open>The first loop: the machines that run and are no zones of type \<open>OS\<close>.\<close>

fun running_vms :: "string list \<Rightarrow> vmdisk list res" where
  "running_vms [] = Ret []"
| "running_vms (line # ls) =
     res_bind (groups 3 line) (\<lambda>g.
       if g ! 3 \<noteq> ''running'' \<or> g ! 1 = ''OS'' then running_vms ls
       else res_bind (running_vms ls) (\<lambda>vs. Ret (\<lparr>d_uuid = g ! 0, d_alias = g ! 2, d_disk = None\<rparr> # vs)))"

text \<open>The body of the second loop: the first entry of the machine takes the disk; if it has one, a
  copy with the disk is appended to the array.\<close>

definition add_disk :: "vmdisk list \<Rightarrow> string \<times> string \<Rightarrow> vmdisk list" where
  "add_disk array ud = (case ud of (uuid, disk) \<Rightarrow>
     (case find (\<lambda>i. d_uuid (array ! i) = uuid) [0..<length array] of
        None \<Rightarrow> array
      | Some i \<Rightarrow>
          if d_disk (array ! i) \<noteq> None
          then array @ [\<lparr>d_uuid = d_uuid (array ! i), d_alias = d_alias (array ! i), d_disk = Some disk\<rparr>]
          else array[i := (array ! i)\<lparr>d_disk := Some disk\<rparr>]))"

text \<open>\<open>disks\<close> passed the filter, so each has its groups.\<close>

definition vm_disks :: "string list \<Rightarrow> string \<Rightarrow> vmdisk list res" where
  "vm_disks listing out =
     res_bind (running_vms (stripped_lines out)) (\<lambda>array.
       Ret (foldl add_disk array (List.map_filter disk_groups (filter is_disk listing))))"

definition disk_doc :: "vmdisk list \<Rightarrow> pyval" where
  "disk_doc vs = PDict [(''data'', PList (map (\<lambda>v. PDict
     ([(''{#UUID}'', PStr (d_uuid v)), (''{#ALIAS}'', PStr (d_alias v))]
      @ (case d_disk v of None \<Rightarrow> [] | Some d \<Rightarrow> [(''{#DISK}'', PStr d)]))) vs))]"

section \<open>vm-netif-discovery\<close>

record netif =
  n_uuid :: string
  n_netif :: string
  n_alias :: "string option"

definition netif_of :: "string \<Rightarrow> netif res" where
  "netif_of line = res_bind (groups 1 line) (\<lambda>g. Ret \<lparr>n_uuid = g ! 0, n_netif = g ! 1, n_alias = None\<rparr>)"

text \<open>The body of the second loop: every interface of the machine gets the alias.\<close>

definition set_alias :: "netif list \<Rightarrow> string \<Rightarrow> netif list res" where
  "set_alias array line = res_bind (groups 1 line) (\<lambda>g.
     Ret (map (\<lambda>v. if n_uuid v = g ! 0 then v\<lparr>n_alias := Some (g ! 1)\<rparr> else v) array))"

fun set_aliases :: "netif list \<Rightarrow> string list \<Rightarrow> netif list res" where
  "set_aliases array [] = Ret array"
| "set_aliases array (line # ls) = res_bind (set_alias array line) (\<lambda>a. set_aliases a ls)"

definition vm_netifs :: "string \<Rightarrow> netif list res" where
  "vm_netifs out = res_map netif_of (stripped_lines out)"

definition netif_doc :: "netif list \<Rightarrow> pyval" where
  "netif_doc vs = PDict [(''data'', PList (map (\<lambda>v. PDict
     ([(''{#UUID}'', PStr (n_uuid v)), (''{#NETIF}'', PStr (n_netif v))]
      @ (case n_alias v of None \<Rightarrow> [] | Some a \<Rightarrow> [(''{#ALIAS}'', PStr a)]))) vs))]"

section \<open>The programs\<close>

record 'h discenv =
  sh_stdout :: "string \<Rightarrow> ('h, string) outside"
  ds_chdir :: "('h, unit) outside"
  ds_glob :: "string \<Rightarrow> ('h, string list) outside"
  ds_dumps :: "pyval \<Rightarrow> string res"
  ds_print :: "string \<Rightarrow> ('h, unit) outside"

definition sh_run :: "'h discenv \<Rightarrow> string \<Rightarrow> ('h world, string) io" where
  "sh_run env cmd = ext (Popen [''/bin/sh'', ''-c'', cmd]) (sh_stdout env cmd)"

definition print_doc :: "'h discenv \<Rightarrow> pyval \<Rightarrow> ('h world, unit) io" where
  "print_doc env doc = bnd (lift_res (ds_dumps env doc)) (\<lambda>s. ext (LibCall ''print'' [PStr s]) (ds_print env s))"

definition vm_discovery :: "'h discenv \<Rightarrow> ('h world, unit) io" where
  "vm_discovery env =
     bnd (sh_run env ''vmadm list -Hpo uuid,type,alias'') (\<lambda>out.
     bnd (lift_res (vm_zones out)) (\<lambda>zs. print_doc env (vm_doc zs)))"

definition vm_disk_discovery :: "'h discenv \<Rightarrow> ('h world, unit) io" where
  "vm_disk_discovery env =
     sq (ext (LibCall ''chdir'' [PStr ''/dev/zvol/dsk/zones'']) (ds_chdir env))
     (bnd (ext (LibCall ''glob'' [PStr ''*-disk*'']) (ds_glob env ''*-disk*'')) (\<lambda>g1.
      bnd (ext (LibCall ''glob'' [PStr ''*-*-*/*disk*'']) (ds_glob env ''*-*-*/*disk*'')) (\<lambda>g2.
      bnd (sh_run env ''vmadm list -Hpo uuid,type,alias,state'') (\<lambda>out.
      bnd (lift_res (vm_disks (g1 @ g2) out)) (\<lambda>vs. print_doc env (disk_doc vs))))))"

definition vm_netif_discovery :: "'h discenv \<Rightarrow> ('h world, unit) io" where
  "vm_netif_discovery env =
     bnd (sh_run env ''dladm show-vnic -po zone,link'') (\<lambda>out1.
     bnd (lift_res (vm_netifs out1)) (\<lambda>array.
     bnd (sh_run env ''vmadm list -Hpo uuid,alias'') (\<lambda>out2.
     bnd (lift_res (set_aliases array (stripped_lines out2))) (\<lambda>vs. print_doc env (netif_doc vs)))))"

section \<open>Greedy matching is splitting from the right\<close>

lemma first_some_skip:
  "(\<And>x. x \<in> set xs \<Longrightarrow> f x = None) \<Longrightarrow> first_some f (xs @ ys) = first_some f ys"
  by (induction xs) auto

lemma first_some_Some: "first_some f xs = Some y \<Longrightarrow> \<exists>x \<in> set xs. f x = Some y"
  by (induction xs) (auto split: option.splits)

definition colons :: "string \<Rightarrow> nat" where
  "colons s = length (filter (\<lambda>c. c = CHR '':'') s)"

lemma colons_simps [simp]:
  "colons [] = 0" "colons (c # s) = (if c = CHR '':'' then Suc (colons s) else colons s)"
  "colons (s @ t) = colons s + colons t"
  by (simp_all add: colons_def)

lemma colons_0_iff: "colons s = 0 \<longleftrightarrow> CHR '':'' \<notin> set s"
  by (induction s) auto

lemma colons_drop_nth: "i < length s \<Longrightarrow> s ! i = CHR '':'' \<Longrightarrow> Suc (colons (drop (Suc i) s)) \<le> colons s"
  by (metis Cons_nth_drop_Suc append_take_drop_id colons_simps(2,3) le_add2)

lemma match_fields_colons: "match_fields k s = Some gs \<Longrightarrow> k \<le> colons s"
proof (induction k arbitrary: s gs)
  case (Suc k)
  from first_some_Some [OF Suc.prems [unfolded match_fields.simps]]
  obtain i hs where i: "i < length s" "s ! i = CHR '':''" "match_fields k (drop (Suc i) s) = Some hs"
    by (auto split: if_splits)
  from Suc.IH [OF i(3)] colons_drop_nth [OF i(1,2)] show ?case by simp
qed simp

definition fields_of :: "nat \<Rightarrow> string \<Rightarrow> string list \<Rightarrow> bool" where
  "fields_of k s gs =
     (length gs = Suc k \<and> py_join '':'' gs = s \<and> (\<forall>g \<in> set (tl gs). CHR '':'' \<notin> set g))"

lemma colons_py_join: "gs \<noteq> [] \<Longrightarrow> \<forall>g \<in> set gs. CHR '':'' \<notin> set g \<Longrightarrow> Suc (colons (py_join '':'' gs)) = length gs"
proof (induction gs)
  case (Cons g gs)
  then show ?case by (cases "gs = []") (auto simp: py_join_Cons colons_0_iff)
qed simp

lemma fields_match: "fields_of k s gs \<Longrightarrow> match_fields k s = Some gs"
proof (induction k arbitrary: s gs)
  case 0
  then show ?case by (auto simp: fields_of_def length_Suc_conv)
next
  case (Suc k)
  from Suc.prems obtain g hs where gs: "gs = g # hs" "length hs = Suc k"
    by (auto simp: fields_of_def length_Suc_conv)
  then have "hs \<noteq> []" by auto
  with Suc.prems gs have s: "s = g @ CHR '':'' # py_join '':'' hs"
    and hs: "\<forall>g \<in> set hs. CHR '':'' \<notin> set g"
    by (auto simp: fields_of_def py_join_Cons)
  let ?rest = "py_join '':'' hs"
  let ?f = "\<lambda>i. if s ! i = CHR '':''
     then map_option ((#) (take i s)) (match_fields k (drop (Suc i) s)) else None"
  have rest: "colons ?rest = k"
    using colons_py_join [OF \<open>hs \<noteq> []\<close> hs] gs(2) by simp
  have sub: "match_fields k ?rest = Some hs"
    using hs gs(2) by (intro Suc.IH) (auto simp: fields_of_def dest: list.set_sel(2) [rotated])
  have late: "?f i = None" if i: "i \<in> set [Suc (length g)..<length s]" for i
  proof -
    define j where "j = i - Suc (length g)"
    from i have j: "i = Suc (length g) + j" "j < length ?rest"
      by (auto simp: j_def s)
    have "match_fields k (drop (Suc i) s) = None" if "s ! i = CHR '':''"
    proof (rule ccontr)
      assume "match_fields k (drop (Suc i) s) \<noteq> None"
      moreover have "drop (Suc i) s = drop (Suc j) ?rest" "s ! i = ?rest ! j"
        using j by (simp_all add: s nth_append)
      ultimately show False
        using match_fields_colons [of k "drop (Suc j) ?rest"] colons_drop_nth [of j ?rest] j(2) that rest
        by auto
    qed
    then show ?thesis by simp
  qed
  have len: "length g < length s" by (simp add: s)
  then have "[0..<length s] = [0..<length g] @ length g # [Suc (length g)..<length s]"
    using upt_add_eq_append [of 0 "length g" "length s - length g"]
    by (simp add: upt_conv_Cons)
  then have split: "rev [0..<length s] = rev [Suc (length g)..<length s] @ length g # rev [0..<length g]"
    by simp
  have "i \<in> set (rev [Suc (length g)..<length s]) \<Longrightarrow> ?f i = None" for i
    using late by (simp only: set_rev)
  then have "match_fields (Suc k) s = first_some ?f (length g # rev [0..<length g])"
    unfolding match_fields.simps split by (rule first_some_skip)
  also have "\<dots> = Some gs"
    using sub by (simp add: s gs(1))
  finally show ?case .
qed

lemma fields_exist: "k \<le> colons s \<Longrightarrow> \<exists>gs. fields_of k s gs"
proof (induction k arbitrary: s)
  case 0
  show ?case by (rule exI [of _ "[s]"]) (simp add: fields_of_def)
next
  case (Suc k)
  then have "rsplit1 (CHR '':'') s \<noteq> None"
    unfolding rsplit1_None_iff colons_0_iff [symmetric] by simp
  then obtain a b where "rsplit1 (CHR '':'') s = Some (a, b)" by auto
  from rsplit1_SomeD [OF this] have s: "s = a @ CHR '':'' # b" "CHR '':'' \<notin> set b" by auto
  then have "k \<le> colons a" using Suc.prems by (simp add: colons_0_iff [symmetric])
  with Suc.IH obtain gs where gs: "fields_of k a gs" by blast
  have "py_join '':'' (gs @ [b]) = py_join '':'' gs @ '':'' @ b" if "gs \<noteq> []" for gs
    using that
  proof (induction gs)
    case (Cons a gs)
    then show ?case by (cases "gs = []") (simp_all add: py_join_Cons)
  qed simp
  moreover have "gs \<noteq> []" using gs by (auto simp: fields_of_def)
  ultimately have "fields_of (Suc k) s (gs @ [b])"
    using gs s by (auto simp: fields_of_def)
  then show ?case ..
qed

text \<open>C31. The regular expressions of the scripts split a line at its last colons: a line matches
  \<open>^(.*):(.*):...(.*)$\<close> with \<open>k\<close> colons exactly when it has that many, and then the groups are
  the fields that, joined by colons, give the line, of which only the first can itself contain a
  colon.\<close>

theorem match_fields_iff:
  "match_fields k s = Some gs \<longleftrightarrow>
     length gs = Suc k \<and> py_join '':'' gs = s \<and> list_all (\<lambda>g. CHR '':'' \<notin> set g) (tl gs)"
proof -
  have "match_fields k s = Some gs \<longleftrightarrow> fields_of k s gs"
    using fields_match fields_exist match_fields_colons by fastforce
  then show ?thesis
    by (simp add: fields_of_def list_all_iff)
qed

section \<open>Tables\<close>

text \<open>The output of \<open>vmadm\<close> and \<open>dladm\<close>: one row per line, its columns separated by
  colons. Only the first column may hold a colon, no column a newline, and the last does not end in
  white space.\<close>

definition table_row :: "nat \<Rightarrow> string list \<Rightarrow> bool" where
  "table_row k gs =
     (length gs = Suc (Suc k) \<and> list_all (\<lambda>g. CHR 0x0A \<notin> set g) gs
      \<and> list_all (\<lambda>g. CHR '':'' \<notin> set g) (tl gs) \<and> (last gs = [] \<or> \<not> is_space (last (last gs))))"

definition table_text :: "string list list \<Rightarrow> string" where
  "table_text rows = concat (map (\<lambda>gs. py_join '':'' gs @ [CHR 0x0A]) rows)"

lemma py_readlines_line:
  "CHR 0x0A \<notin> set l \<Longrightarrow> py_readlines (l @ CHR 0x0A # rest) = (l @ [CHR 0x0A]) # py_readlines rest"
  by (induction l) auto

lemma set_py_join: "set (py_join sep gs) \<subseteq> set sep \<union> (\<Union>g \<in> set gs. set g)"
  by (induction sep gs rule: py_join.induct) auto

lemma last_py_join:
  "1 < length gs \<Longrightarrow> last gs = [] \<or> \<not> is_space (last (last gs)) \<Longrightarrow> \<not> is_space (last (py_join '':'' gs))"
proof (induction gs)
  case (Cons g gs)
  then show ?case
  proof (cases "1 < length gs")
    case True
    then have "py_join '':'' gs \<noteq> []" by (cases gs; cases "tl gs") auto
    with True Cons show ?thesis by (cases "gs = []") (simp_all add: py_join_Cons)
  next
    case False
    with Cons.prems(1) obtain h where "gs = [h]" by (cases gs) auto
    with Cons.prems(2) show ?thesis by (cases "h = []") (simp_all add: is_space_def)
  qed
qed simp

lemma rstrip_line: "\<not> is_space (last l) \<Longrightarrow> l \<noteq> [] \<Longrightarrow> py_rstrip (l @ [CHR 0x0A]) = l"
  using rstrip_with_id [of l is_space]
  by (simp add: py_rstrip_def rstrip_with_def is_space_def [of "CHR 0x0A"])

lemma stripped_table:
  "list_all (table_row k) rows \<Longrightarrow> stripped_lines (table_text rows) = map (py_join '':'') rows"
proof (induction rows)
  case Nil
  show ?case by (simp add: stripped_lines_def table_text_def)
next
  case (Cons gs rows)
  then have gs: "1 < length gs" "CHR 0x0A \<notin> set (py_join '':'' gs)"
    "last gs = [] \<or> \<not> is_space (last (last gs))"
    using set_py_join [of "'':''" gs] by (auto simp: table_row_def list_all_iff)
  then have "py_join '':'' gs \<noteq> []" by (cases gs; cases "tl gs") auto
  with gs Cons show ?case
    by (simp add: stripped_lines_def table_text_def py_readlines_line rstrip_line last_py_join)
qed

lemma groups_row: "table_row k gs \<Longrightarrow> groups (Suc k) (py_join '':'' gs) = Ret gs"
proof -
  assume r: "table_row k gs"
  have "fields_of (Suc k) (py_join '':'' gs) gs"
    using r by (simp add: table_row_def fields_of_def list_all_iff)
  from fields_match [OF this] show ?thesis
    by (simp add: groups_def)
qed

lemma res_map_Ret: "(\<And>x. x \<in> set xs \<Longrightarrow> f x = Ret (g x)) \<Longrightarrow> res_map f xs = Ret (map g xs)"
  by (induction xs) auto

section \<open>Machines\<close>

definition zone_of_row :: "string list \<Rightarrow> zone" where
  "zone_of_row g = \<lparr>z_uuid = g ! 0, z_alias = g ! 2, z_uuid_short = takeWhile (\<lambda>c. c \<noteq> CHR ''-'') (g ! 0),
     z_type = g ! 1\<rparr>"

lemma vm_zones_table:
  assumes "list_all (table_row 1) rows"
  shows "vm_zones (table_text rows) = Ret (map zone_of_row rows)"
proof -
  have z: "vm_zone (py_join '':'' g) = Ret (zone_of_row g)" if "g \<in> set rows" for g
    using groups_row [of 1 g] assms that
    by (auto simp: list_all_iff vm_zone_def zone_of_row_def hd_split_on numeral_2_eq_2)
  have "res_map (vm_zone \<circ> py_join '':'') rows = Ret (map zone_of_row rows)"
    by (rule res_map_Ret) (simp add: z)
  moreover have "res_map f (map g xs) = res_map (f \<circ> g) xs" for f :: "string \<Rightarrow> zone res" and g and xs :: "string list list"
    by (induction xs) simp_all
  ultimately show ?thesis
    by (simp add: vm_zones_def stripped_table [OF assms])
qed

section \<open>Disks\<close>

lemma find_index:
  assumes "\<forall>v \<in> set pre. d_uuid v \<noteq> u" and "d_uuid v = u"
  shows "find (\<lambda>i. d_uuid ((pre @ v # post) ! i) = u) [0..<length (pre @ v # post)] = Some (length pre)"
proof -
  have "d_uuid (pre ! j) \<noteq> u" if "j < length pre" for j
    using assms(1) that by (simp add: all_set_conv_all_nth)
  with assms(2) show ?thesis
    unfolding find_Some_iff by (intro exI [of _ "length pre"]) (simp add: nth_append)
qed

lemma add_disk_found:
  assumes "\<forall>v \<in> set pre. d_uuid v \<noteq> u" and "d_uuid v = u"
  shows "add_disk (pre @ v # post) (u, d) =
     (if d_disk v = None then pre @ v\<lparr>d_disk := Some d\<rparr> # post
      else pre @ v # post @ [\<lparr>d_uuid = u, d_alias = d_alias v, d_disk = Some d\<rparr>])"
  using find_index [OF assms, of post] assms(2) by (simp add: add_disk_def)

lemma add_disk_absent:
  assumes "u \<notin> d_uuid ` set array"
  shows "add_disk array (u, d) = array"
proof -
  have "find (\<lambda>i. d_uuid (array ! i) = u) [0..<length array] = None"
    using assms by (auto simp: find_None_iff)
  then show ?thesis by (simp add: add_disk_def)
qed

definition entries_of :: "string \<Rightarrow> vmdisk list \<Rightarrow> vmdisk list" where
  "entries_of u vs = filter (\<lambda>v. d_uuid v = u) vs"

lemma entries_add_disk:
  "entries_of x (add_disk array (u, d)) =
     (if x \<noteq> u then entries_of x array
      else (case entries_of u array of
              [] \<Rightarrow> []
            | v # vs \<Rightarrow> if d_disk v = None then v\<lparr>d_disk := Some d\<rparr> # vs
                       else v # vs @ [\<lparr>d_uuid = u, d_alias = d_alias v, d_disk = Some d\<rparr>]))"
proof (cases "u \<in> d_uuid ` set array")
  case True
  then obtain pre v post where a: "array = pre @ v # post" "d_uuid v = u"
    "\<forall>v \<in> set pre. d_uuid v \<noteq> u"
    using split_list_first_prop [of array "\<lambda>v. d_uuid v = u"] by auto
  have "entries_of u pre = []"
    using a(3) by (simp add: entries_of_def filter_empty_conv)
  then show ?thesis
    using a add_disk_found [OF a(3,2), of post d] by (auto simp: entries_of_def)
next
  case False
  then have "entries_of u array = []"
    by (auto simp: entries_of_def filter_empty_conv)
  then show ?thesis
    using add_disk_absent [OF False] by simp
qed

definition disks_of :: "string \<Rightarrow> (string \<times> string) list \<Rightarrow> string list" where
  "disks_of u ps = map snd (filter (\<lambda>p. fst p = u) ps)"

lemma entries_add_disks:
  assumes "entries_of u array = [v]" and "d_disk v = None"
  shows "entries_of u (foldl add_disk array ps) =
     (if disks_of u ps = [] then [v] else map (\<lambda>d. v\<lparr>d_disk := Some d\<rparr>) (disks_of u ps))"
proof (induction ps rule: rev_induct)
  case Nil
  with assms show ?case by (simp add: disks_of_def)
next
  case (snoc p ps)
  obtain u' d where p: "p = (u', d)" by (cases p)
  have u: "d_uuid v = u"
    using assms(1) unfolding entries_of_def
    by (metis (mono_tags, lifting) list.set_intros(1) mem_Collect_eq set_filter)
  then have rec: "\<lparr>d_uuid = u, d_alias = d_alias v, d_disk = x\<rparr> = v\<lparr>d_disk := x\<rparr>" for x
    by (cases v) simp
  show ?case
  proof (cases "u = u'")
    case True
    with snoc p assms(2) rec show ?thesis
      by (cases "disks_of u ps") (auto simp: entries_add_disk disks_of_def)
  next
    case False
    with snoc p show ?thesis
      by (simp add: entries_add_disk disks_of_def)
  qed
qed

lemma entries_add_disks_none:
  "entries_of u array = [] \<Longrightarrow> entries_of u (foldl add_disk array ps) = []"
proof (induction ps arbitrary: array)
  case (Cons p ps)
  obtain u' d where "p = (u', d)" by (cases p)
  with Cons show ?case
    using entries_add_disk [of u array u' d] by (cases "u = u'") simp_all
qed simp

definition shown :: "string list \<Rightarrow> bool" where
  "shown g = (g ! 3 = ''running'' \<and> g ! 1 \<noteq> ''OS'')"

abbreviation vm_entry :: "string list \<Rightarrow> string option \<Rightarrow> vmdisk" where
  "vm_entry g d \<equiv> \<lparr>d_uuid = g ! 0, d_alias = g ! 2, d_disk = d\<rparr>"

lemma running_vms_table:
  assumes "list_all (table_row 2) rows"
  shows "running_vms (map (py_join '':'') rows) = Ret (map (\<lambda>g. vm_entry g None) (filter shown rows))"
  using assms
proof (induction rows)
  case (Cons g rows)
  then have "groups 3 (py_join '':'' g) = Ret g"
    using groups_row [of 2 g] by (simp add: eval_nat_numeral)
  with Cons show ?case by (simp add: shown_def)
qed simp

lemma filter_distinct_find:
  "distinct (map f xs) \<Longrightarrow> filter (\<lambda>x. f x = u) xs = (case find (\<lambda>x. f x = u) xs of None \<Rightarrow> [] | Some x \<Rightarrow> [x])"
proof (induction xs)
  case (Cons x xs)
  show ?case
  proof (cases "f x = u")
    case True
    with Cons.prems have "filter (\<lambda>x. f x = u) xs = []"
      by (auto simp: filter_empty_conv image_iff)
    with True show ?thesis by simp
  next
    case False
    with Cons show ?thesis by simp
  qed
qed simp

text \<open>Disk discovery assigns every disk to its machine: from a table of uuid, type, alias and state
  with distinct uuids, and any directory listing, the script builds an array in which each machine that
  runs and is no zone of type \<open>OS\<close> has one entry per disk of its own, in the order of the listing, or
  one entry without a disk if it has none, always with its alias; no other machine has an entry.\<close>

lemma vm_disks_assigns:
  assumes rows: "list_all (table_row 2) rows"
    and uuids: "distinct (map (\<lambda>g. g ! 0) (filter shown rows))"
  shows "\<exists>vs. vm_disks listing (table_text rows) = Ret vs \<and>
     (\<forall>u. filter (\<lambda>v. d_uuid v = u) vs =
        (case find (\<lambda>g. g ! 0 = u) (filter shown rows) of
           None \<Rightarrow> []
         | Some g \<Rightarrow>
             let ds = disks_of u (List.map_filter disk_groups (filter is_disk listing))
             in if ds = [] then [vm_entry g None] else map (\<lambda>d. vm_entry g (Some d)) ds))"
proof -
  let ?ps = "List.map_filter disk_groups (filter is_disk listing)"
  let ?array = "map (\<lambda>g. vm_entry g None) (filter shown rows)"
  have run: "vm_disks listing (table_text rows) = Ret (foldl add_disk ?array ?ps)"
    by (simp add: vm_disks_def stripped_table [OF rows] running_vms_table [OF rows])
  have ent: "entries_of u ?array = (case find (\<lambda>g. g ! 0 = u) (filter shown rows) of
      None \<Rightarrow> [] | Some g \<Rightarrow> [vm_entry g None])" for u
  proof -
    have "entries_of u ?array = map (\<lambda>g. vm_entry g None) (filter (\<lambda>g. g ! 0 = u) (filter shown rows))"
      by (simp add: entries_of_def filter_map comp_def)
    then show ?thesis
      by (simp only: filter_distinct_find [OF uuids] split: option.split) simp
  qed
  have "filter (\<lambda>v. d_uuid v = u) (foldl add_disk ?array ?ps) =
        (case find (\<lambda>g. g ! 0 = u) (filter shown rows) of
           None \<Rightarrow> []
         | Some g \<Rightarrow>
             let ds = disks_of u ?ps
             in if ds = [] then [vm_entry g None] else map (\<lambda>d. vm_entry g (Some d)) ds)" for u
  proof (cases "find (\<lambda>g. g ! 0 = u) (filter shown rows)")
    case None
    then show ?thesis
      using entries_add_disks_none [of u ?array ?ps] ent [of u] by (simp add: entries_of_def)
  next
    case (Some g)
    then show ?thesis
      using entries_add_disks [of u ?array "vm_entry g None" ?ps] ent [of u]
      by (simp add: entries_of_def Let_def)
  qed
  with run show ?thesis by blast
qed

section \<open>Network interfaces\<close>

text \<open>Interface discovery: from the table of zones and links and a table of uuids and aliases the
  script builds one entry per link, in order, which carries the alias of its zone, the last one listed,
  and none if the zone is not in the second table.\<close>

lemma vm_netifs_aliases:
  assumes links: "list_all (table_row 0) links" and vms: "list_all (table_row 0) vms"
  shows "res_bind (vm_netifs (table_text links)) (\<lambda>array. set_aliases array (stripped_lines (table_text vms)))
     = Ret (map (\<lambda>g. \<lparr>n_uuid = g ! 0, n_netif = g ! 1,
                       n_alias = map_of (rev (map (\<lambda>v. (v ! 0, v ! 1)) vms)) (g ! 0)\<rparr>) links)"
proof -
  have row: "groups (Suc 0) (py_join '':'' g) = Ret g" if "table_row 0 g" for g
    using groups_row [OF that] by simp
  have "vm_netifs (table_text links) = Ret (map (\<lambda>g. \<lparr>n_uuid = g ! 0, n_netif = g ! 1, n_alias = None\<rparr>) links)"
    unfolding vm_netifs_def stripped_table [OF links]
    using links by (induction links) (simp_all add: netif_of_def row)
  moreover have "set_aliases array (map (py_join '':'') vms)
      = Ret (map (\<lambda>n. n\<lparr>n_alias := (case map_of (rev (map (\<lambda>v. (v ! 0, v ! 1)) vms)) (n_uuid n) of
           None \<Rightarrow> n_alias n | Some a \<Rightarrow> Some a)\<rparr>) array)" for array
    using vms
  proof (induction vms arbitrary: array)
    case (Cons g vms)
    then have "set_alias array (py_join '':'' g)
        = Ret (map (\<lambda>v. if n_uuid v = g ! 0 then v\<lparr>n_alias := Some (g ! 1)\<rparr> else v) array)"
      by (simp add: set_alias_def row)
    with Cons show ?case
      by (auto simp: map_add_def split: option.splits)
  qed simp
  ultimately show ?thesis
    by (simp add: stripped_table [OF vms] comp_def) (auto split: option.split)
qed

section \<open>Witnesses\<close>

definition sample_rows :: "string list list" where
  "sample_rows = [[''a-1'', ''KVM'', ''web'', ''running''], [''b-2'', ''OS'', ''dns'', ''running''],
     [''c-3'', ''LX'', ''db'', ''stopped'']]"

definition sample_listing :: "string list" where
  "sample_listing = [''a-1-disk0'', ''c-3-disk0'', ''a-1-disk1'', ''cores'']"

definition sample_discenv :: "unit discenv" where
  "sample_discenv = \<lparr>sh_stdout = (\<lambda>c s. (Ret (table_text (map (take 3) sample_rows)), s)),
     ds_chdir = (\<lambda>s. (Ret (), s)), ds_glob = (\<lambda>p s. (Ret sample_listing, s)),
     ds_dumps = (\<lambda>v. Ret ''{}''), ds_print = (\<lambda>l s. (Ret (), s))\<rparr>"

definition sample_disc_world :: "unit world" where
  "sample_disc_world = \<lparr>files = Map.empty, host = (), calls = []\<rparr>"

lemmas sample_disc_defs = sample_rows_def sample_listing_def sample_discenv_def sample_disc_world_def

end
