(* ===== verification/DiscoveryJson.thy ===== *)
theory DiscoveryJson
  imports Discovery JsonResults
begin

text \<open>
  The discovery scripts with the JSON library of Python 2: whole runs, from the tables the scripts read
  to the document Zabbix decodes from what they print.
\<close>

text \<open>\<open>json.dumps(data, sort_keys=True, indent=4, separators=(',', ': '))\<close>.\<close>

definition disc_style :: "(pyval \<Rightarrow> string) \<Rightarrow> json_style" where
  "disc_style rep = (pretty_style rep)\<lparr>st_sort := True\<rparr>"

definition json_discenv :: "nat \<Rightarrow> (pyval \<Rightarrow> string) \<Rightarrow> 'h discenv \<Rightarrow> 'h discenv" where
  "json_discenv e rep env = env\<lparr>ds_dumps := json_dumps_limited e (disc_style rep)\<rparr>"

text \<open>The names of the macros.\<close>

definition disc_keys :: "string list" where
  "disc_keys = [''data'', ''{#UUID}'', ''{#ALIAS}'', ''{#UUID_SHORT}'', ''{#TYPE}'', ''{#NETIF}'', ''{#DISK}'']"

lemma disc_keys_valid: "list_all utf8_valid disc_keys"
  by code_simp

lemma disc_dumps:
  assumes "jsonable v" "jdepth v \<le> e" "jdepth v \<le> d"
  shows "ds_dumps (json_discenv e rep env) v = Ret (json_dumps (disc_style rep) v)"
    "json_loads d (json_dumps (disc_style rep) v) = Ret (sort_val v)"
  using assms json_text.decodes [of "disc_style rep" d v]
  by (simp_all add: json_discenv_def json_dumps_limited_jsonable disc_style_def admissible_def key_order_def)

lemma json_discenv_simps [simp]:
  "sh_stdout (json_discenv e rep env) = sh_stdout env" "ds_print (json_discenv e rep env) = ds_print env"
  "ds_chdir (json_discenv e rep env) = ds_chdir env" "ds_glob (json_discenv e rep env) = ds_glob env"
  by (simp_all add: json_discenv_def)

text \<open>A list of objects under \<open>data\<close>.\<close>

lemma data_doc:
  assumes "list_all (\<lambda>x. jsonable (PDict (f x)) \<and> jdepth (PDict (f x)) \<le> 1) xs"
  shows "jsonable (PDict [(''data'', PList (map (\<lambda>x. PDict (f x)) xs))])"
    "jdepth (PDict [(''data'', PList (map (\<lambda>x. PDict (f x)) xs))]) \<le> 3"
    "sort_val (PDict [(''data'', PList (map (\<lambda>x. PDict (f x)) xs))])
     = PDict [(''data'', PList (map (\<lambda>x. sort_val (PDict (f x))) xs))]"
proof -
  have "jsonable_elements (map (\<lambda>x. PDict (f x)) xs) \<and> jdepth_elements (map (\<lambda>x. PDict (f x)) xs) \<le> 1"
    using assms by (induction xs) auto
  then show "jsonable (PDict [(''data'', PList (map (\<lambda>x. PDict (f x)) xs))])"
    "jdepth (PDict [(''data'', PList (map (\<lambda>x. PDict (f x)) xs))]) \<le> 3"
    using disc_keys_valid by (simp_all add: disc_keys_def dict_keys_def del: utf8_valid.simps)
  have "sort_elements (map (\<lambda>x. PDict (f x)) xs) = map (\<lambda>x. sort_val (PDict (f x))) xs"
    by (induction xs) simp_all
  then show "sort_val (PDict [(''data'', PList (map (\<lambda>x. PDict (f x)) xs))])
     = PDict [(''data'', PList (map (\<lambda>x. sort_val (PDict (f x))) xs))]"
    by simp
qed

section \<open>Machines\<close>

text \<open>The entry Zabbix finds for a row of uuid, type and alias.\<close>

definition zone_entry :: "string list \<Rightarrow> pyval" where
  "zone_entry g = PDict [(''{#ALIAS}'', PStr (g ! 2)), (''{#TYPE}'', PStr (g ! 1)),
     (''{#UUID_SHORT}'', PStr (takeWhile (\<lambda>c. c \<noteq> CHR ''-'') (g ! 0))), (''{#UUID}'', PStr (g ! 0))]"

lemma row_nth: "list_all utf8_valid g \<Longrightarrow> i < length g \<Longrightarrow> utf8_valid (g ! i)"
  by (simp add: list_all_length)

text \<open>C27. Machine discovery is complete, in order and readable: when \<open>vmadm\<close> prints a table of uuid,
  type and alias, the script prints one text, which decodes to a document with an entry for
  every row, in the order of the rows, with exactly its values and the first block of the uuid.\<close>

theorem vm_discovery_reports:
  assumes rows: "list_all (table_row 1) rows" and valid: "list_all (list_all utf8_valid) rows"
    and out: "sh_stdout env ''vmadm list -Hpo uuid,type,alias'' (files w, host w) = (Ret (table_text rows), s1)"
    and prints: "\<And>j. ds_print env j s1 = (Ret (), s2)" and depth: "3 \<le> d" "3 \<le> e"
  shows "\<exists>w' j. vm_discovery (json_discenv e rep env) w = (Ret (), w') \<and> calls w' = calls w @
     [Popen [''/bin/sh'', ''-c'', ''vmadm list -Hpo uuid,type,alias''], LibCall ''print'' [PStr j]]
     \<and> json_loads d j = Ret (PDict [(''data'', PList (map zone_entry rows))])"
proof -
  let ?f = "\<lambda>g. [(''{#UUID}'', PStr (g ! 0)), (''{#ALIAS}'', PStr (g ! 2)),
      (''{#UUID_SHORT}'', PStr (takeWhile (\<lambda>c. c \<noteq> CHR ''-'') (g ! 0))), (''{#TYPE}'', PStr (g ! 1))]"
  have doc: "vm_doc (map zone_of_row rows) = PDict [(''data'', PList (map (\<lambda>g. PDict (?f g)) rows))]"
    by (simp add: vm_doc_def zone_of_row_def comp_def)
  have "jsonable (PDict (?f g)) \<and> jdepth (PDict (?f g)) \<le> 1" if "g \<in> set rows" for g
  proof -
    have g: "list_all utf8_valid g" "length g = 3"
      using rows valid that by (auto simp: list_all_iff table_row_def)
    then show ?thesis
      using row_nth [OF g(1)] disc_keys_valid
      by (simp add: disc_keys_def dict_keys_def utf8_valid_takeWhile del: utf8_valid.simps)
  qed
  then have "list_all (\<lambda>g. jsonable (PDict (?f g)) \<and> jdepth (PDict (?f g)) \<le> 1) rows"
    by (simp only: list_all_iff) blast
  note ok = data_doc [OF this, folded doc]
  have "sort_val (PDict (?f g)) = zone_entry g" for g
    by (simp add: zone_entry_def)
  then have s: "sort_val (vm_doc (map zone_of_row rows)) = PDict [(''data'', PList (map zone_entry rows))]"
    unfolding ok(3) by simp
  have le: "jdepth (vm_doc (map zone_of_row rows)) \<le> e" "jdepth (vm_doc (map zone_of_row rows)) \<le> d"
    using ok(2) depth by linarith+
  note dumps = disc_dumps(1) [OF ok(1) le, where rep = rep and env = env]
    disc_dumps(2) [OF ok(1) le, where rep = rep]
  have "\<exists>w'. vm_discovery (json_discenv e rep env) w = (Ret (), w') \<and> calls w' = calls w @
     [Popen [''/bin/sh'', ''-c'', ''vmadm list -Hpo uuid,type,alias''],
      LibCall ''print'' [PStr (json_dumps (disc_style rep) (vm_doc (map zone_of_row rows)))]]"
    using out prints vm_zones_table [OF rows] dumps(1)
    by (simp add: vm_discovery_def sh_run_def print_doc_def io_simps)
  with dumps(2) [unfolded s] show ?thesis by blast
qed

section \<open>Disks\<close>

definition disk_fields :: "vmdisk \<Rightarrow> pydict" where
  "disk_fields v = [(''{#UUID}'', PStr (d_uuid v)), (''{#ALIAS}'', PStr (d_alias v))]
     @ (case d_disk v of None \<Rightarrow> [] | Some d \<Rightarrow> [(''{#DISK}'', PStr d)])"

text \<open>The entry for a machine, or for a disk of it.\<close>

definition disk_entry :: "vmdisk \<Rightarrow> pyval" where
  "disk_entry v = PDict ((''{#ALIAS}'', PStr (d_alias v))
     # (case d_disk v of None \<Rightarrow> [] | Some d \<Rightarrow> [(''{#DISK}'', PStr d)]) @ [(''{#UUID}'', PStr (d_uuid v))])"

definition readable_disk :: "vmdisk \<Rightarrow> bool" where
  "readable_disk v = (utf8_valid (d_uuid v) \<and> utf8_valid (d_alias v)
     \<and> (case d_disk v of None \<Rightarrow> True | Some d \<Rightarrow> utf8_valid d))"

lemma disk_fields_ok:
  assumes "readable_disk v"
  shows "jsonable (PDict (disk_fields v))" "jdepth (PDict (disk_fields v)) \<le> 1"
    "sort_val (PDict (disk_fields v)) = disk_entry v"
  using assms disc_keys_valid
  by (cases "d_disk v";
      simp add: readable_disk_def disk_fields_def disk_entry_def disc_keys_def dict_keys_def del: utf8_valid.simps)+

text \<open>The name of a disk is \<open>disk\<close> and digits.\<close>

lemma disk_groups_valid:
  assumes "disk_groups f = Some (n, d)"
  shows "utf8_valid d"
proof (intro utf8_valid_ascii ballI)
  fix c assume "c \<in> set d"
  then have "c \<in> set ''disk'' \<or> c \<in> set (takeWhile is_decimal (rev f))"
    using assms by (auto simp: disk_groups_def Let_def split: if_splits)
  then show "of_char c < (0x80 :: nat)"
    by (auto simp: is_decimal_def Let_def dest!: set_takeWhileD)
qed

lemma readable_disks:
  assumes valid: "list_all (list_all utf8_valid) rows" and rows: "list_all (table_row 2) rows"
    and entries: "\<And>u. filter (\<lambda>v. d_uuid v = u) vs =
        (case find (\<lambda>g. g ! 0 = u) (filter shown rows) of
           None \<Rightarrow> []
         | Some g \<Rightarrow>
             let ds = disks_of u (List.map_filter disk_groups fs)
             in if ds = [] then [vm_entry g None] else map (\<lambda>d. vm_entry g (Some d)) ds)"
    and v: "v \<in> set vs"
  shows "readable_disk v"
proof -
  let ?ds = "disks_of (d_uuid v) (List.map_filter disk_groups fs)"
  have mem: "v \<in> set (filter (\<lambda>x. d_uuid x = d_uuid v) vs)" using v by simp
  then obtain g where g: "find (\<lambda>g. g ! 0 = d_uuid v) (filter shown rows) = Some g"
    unfolding entries by (cases "find (\<lambda>g. g ! 0 = d_uuid v) (filter shown rows)") auto
  have "\<exists>x. v = vm_entry g x \<and> (x = None \<or> (\<exists>d. x = Some d \<and> d \<in> set ?ds))"
    using mem unfolding entries g by (cases "?ds = []") (auto simp: Let_def)
  then obtain x where x: "v = vm_entry g x" "x = None \<or> (\<exists>d. x = Some d \<and> d \<in> set ?ds)"
    by blast
  from g have "g \<in> set rows"
    by (auto simp: find_Some_iff dest: nth_mem)
  then have "list_all utf8_valid g" "length g = 4"
    using valid rows by (auto simp: list_all_iff table_row_def)
  then have "utf8_valid (g ! 0)" "utf8_valid (g ! 2)"
    using row_nth [of g] by simp_all
  moreover have "utf8_valid d" if "x = Some d" for d
    using x(2) that by (auto simp: disks_of_def List.map_filter_def intro: disk_groups_valid)
  ultimately show ?thesis
    by (simp add: readable_disk_def x(1) del: utf8_valid.simps split: option.split)
qed

text \<open>C22. Disk discovery assigns every disk to its machine: when \<open>vmadm\<close> prints a table of uuid, type,
  alias and state with distinct uuids, the script prints, for any directory listing, one text, which
  decodes to a list in which each machine that runs and is no zone of type \<open>OS\<close> has one entry per disk of
  its own, in the order of the listing, or one entry without a disk if it has none, always with its
  alias; no other machine has an entry.\<close>

theorem vm_disk_discovery_reports:
  assumes rows: "list_all (table_row 2) rows" and valid: "list_all (list_all utf8_valid) rows"
    and uuids: "distinct (map (\<lambda>g. g ! 0) (filter shown rows))"
    and dir: "ds_chdir env (files w, host w) = (Ret (), s1)" "ds_glob env ''*-disk*'' s1 = (Ret l1, s2)"
      "ds_glob env ''*-*-*/*disk*'' s2 = (Ret l2, s3)"
    and out: "sh_stdout env ''vmadm list -Hpo uuid,type,alias,state'' s3 = (Ret (table_text rows), s4)"
    and prints: "\<And>j. ds_print env j s4 = (Ret (), s5)" and depth: "3 \<le> d" "3 \<le> e"
  shows "\<exists>w' j vs. vm_disk_discovery (json_discenv e rep env) w = (Ret (), w') \<and> calls w' = calls w @
     [LibCall ''chdir'' [PStr ''/dev/zvol/dsk/zones''], LibCall ''glob'' [PStr ''*-disk*''],
      LibCall ''glob'' [PStr ''*-*-*/*disk*''],
      Popen [''/bin/sh'', ''-c'', ''vmadm list -Hpo uuid,type,alias,state''], LibCall ''print'' [PStr j]]
     \<and> json_loads d j = Ret (PDict [(''data'', PList (map disk_entry vs))])
     \<and> (\<forall>u. filter (\<lambda>v. d_uuid v = u) vs =
        (case find (\<lambda>g. g ! 0 = u) (filter shown rows) of
           None \<Rightarrow> []
         | Some g \<Rightarrow>
             let ds = disks_of u (List.map_filter disk_groups (filter is_disk (l1 @ l2)))
             in if ds = [] then [vm_entry g None] else map (\<lambda>d. vm_entry g (Some d)) ds))"
proof -
  from vm_disks_assigns [OF rows uuids, of "l1 @ l2"] obtain vs
    where vs: "vm_disks (l1 @ l2) (table_text rows) = Ret vs"
      and entries: "\<And>u. filter (\<lambda>v. d_uuid v = u) vs =
        (case find (\<lambda>g. g ! 0 = u) (filter shown rows) of
           None \<Rightarrow> []
         | Some g \<Rightarrow>
             let ds = disks_of u (List.map_filter disk_groups (filter is_disk (l1 @ l2)))
             in if ds = [] then [vm_entry g None] else map (\<lambda>d. vm_entry g (Some d)) ds)"
    by blast
  have doc: "disk_doc vs = PDict [(''data'', PList (map (\<lambda>v. PDict (disk_fields v)) vs))]"
    by (simp add: disk_doc_def disk_fields_def)
  have fields: "jsonable (PDict (disk_fields v))" "jdepth (PDict (disk_fields v)) \<le> 1"
    "sort_val (PDict (disk_fields v)) = disk_entry v" if "v \<in> set vs" for v
    using disk_fields_ok readable_disks [OF valid rows entries that] by blast+
  have "list_all (\<lambda>v. jsonable (PDict (disk_fields v)) \<and> jdepth (PDict (disk_fields v)) \<le> 1) vs"
    unfolding list_all_iff using fields(1,2) by blast
  note ok = data_doc [OF this, folded doc]
  have s: "sort_val (disk_doc vs) = PDict [(''data'', PList (map disk_entry vs))]"
    unfolding ok(3) using fields(3) by simp
  have le: "jdepth (disk_doc vs) \<le> e" "jdepth (disk_doc vs) \<le> d"
    using ok(2) depth by linarith+
  note dumps = disc_dumps(1) [OF ok(1) le, where rep = rep and env = env]
    disc_dumps(2) [OF ok(1) le, where rep = rep]
  have "\<exists>w'. vm_disk_discovery (json_discenv e rep env) w = (Ret (), w') \<and> calls w' = calls w @
     [LibCall ''chdir'' [PStr ''/dev/zvol/dsk/zones''], LibCall ''glob'' [PStr ''*-disk*''],
      LibCall ''glob'' [PStr ''*-*-*/*disk*''],
      Popen [''/bin/sh'', ''-c'', ''vmadm list -Hpo uuid,type,alias,state''],
      LibCall ''print'' [PStr (json_dumps (disc_style rep) (disk_doc vs))]]"
    using dir out prints vs dumps(1)
    by (simp add: vm_disk_discovery_def sh_run_def print_doc_def io_simps)
  with dumps(2) [unfolded s] entries show ?thesis by blast
qed

section \<open>Network interfaces\<close>

text \<open>The entry for a link, with the alias of its zone if it has one.\<close>

definition link_entry :: "string list list \<Rightarrow> string list \<Rightarrow> pyval" where
  "link_entry vms g = PDict ((case map_of (rev (map (\<lambda>v. (v ! 0, v ! 1)) vms)) (g ! 0) of
       None \<Rightarrow> [] | Some a \<Rightarrow> [(''{#ALIAS}'', PStr a)])
     @ [(''{#NETIF}'', PStr (g ! 1)), (''{#UUID}'', PStr (g ! 0))])"

definition link_fields :: "string list list \<Rightarrow> string list \<Rightarrow> pydict" where
  "link_fields vms g = [(''{#UUID}'', PStr (g ! 0)), (''{#NETIF}'', PStr (g ! 1))]
     @ (case map_of (rev (map (\<lambda>v. (v ! 0, v ! 1)) vms)) (g ! 0) of
          None \<Rightarrow> [] | Some a \<Rightarrow> [(''{#ALIAS}'', PStr a)])"

lemma link_fields_ok:
  assumes g: "list_all utf8_valid g" "table_row 0 g"
    and vms: "list_all (table_row 0) vms" "list_all (list_all utf8_valid) vms"
  shows "jsonable (PDict (link_fields vms g))" "jdepth (PDict (link_fields vms g)) \<le> 1"
    "sort_val (PDict (link_fields vms g)) = link_entry vms g"
proof -
  let ?al = "map_of (rev (map (\<lambda>v. (v ! 0, v ! 1)) vms)) (g ! 0)"
  have al: "utf8_valid a" if "?al = Some a" for a
  proof -
    from map_of_SomeD [OF that] obtain v where "v \<in> set vms" "a = v ! 1" by auto
    moreover from this have "list_all utf8_valid v" "length v = 2"
      using vms by (auto simp: list_all_iff table_row_def)
    ultimately show ?thesis using row_nth [of v 1] by simp
  qed
  have "length g = 2" using g(2) by (simp add: table_row_def)
  then have "jsonable (PDict (link_fields vms g)) \<and> jdepth (PDict (link_fields vms g)) \<le> 1"
    using row_nth [OF g(1)] disc_keys_valid al
    by (cases ?al) (simp_all add: link_fields_def disc_keys_def dict_keys_def del: utf8_valid.simps)
  then show "jsonable (PDict (link_fields vms g))" "jdepth (PDict (link_fields vms g)) \<le> 1" by simp_all
  show "sort_val (PDict (link_fields vms g)) = link_entry vms g"
    by (cases ?al) (simp_all add: link_fields_def link_entry_def)
qed

text \<open>C28. Interface discovery: from the tables of zones and links and of uuids and aliases the
  script prints one text, which decodes to a document with one entry per link, in order, which carries
  the alias of its zone, the last one listed, and none if the zone is not in the second table.\<close>

theorem vm_netif_discovery_reports:
  assumes links: "list_all (table_row 0) links" and vms: "list_all (table_row 0) vms"
    and valid: "list_all (list_all utf8_valid) links" "list_all (list_all utf8_valid) vms"
    and out: "sh_stdout env ''dladm show-vnic -po zone,link'' (files w, host w) = (Ret (table_text links), s1)"
      "sh_stdout env ''vmadm list -Hpo uuid,alias'' s1 = (Ret (table_text vms), s2)"
    and prints: "\<And>j. ds_print env j s2 = (Ret (), s3)" and depth: "3 \<le> d" "3 \<le> e"
  shows "\<exists>w' j. vm_netif_discovery (json_discenv e rep env) w = (Ret (), w') \<and> calls w' = calls w @
     [Popen [''/bin/sh'', ''-c'', ''dladm show-vnic -po zone,link''],
      Popen [''/bin/sh'', ''-c'', ''vmadm list -Hpo uuid,alias''], LibCall ''print'' [PStr j]]
     \<and> json_loads d j = Ret (PDict [(''data'', PList (map (link_entry vms) links))])"
proof -
  let ?al = "\<lambda>g. map_of (rev (map (\<lambda>v. (v ! 0, v ! 1)) vms)) (g ! 0)"
  let ?vs = "map (\<lambda>g. \<lparr>n_uuid = g ! 0, n_netif = g ! 1, n_alias = ?al g\<rparr>) links"
  have doc: "netif_doc ?vs = PDict [(''data'', PList (map (\<lambda>g. PDict (link_fields vms g)) links))]"
    by (simp add: netif_doc_def comp_def link_fields_def)
  have fields: "jsonable (PDict (link_fields vms g))" "jdepth (PDict (link_fields vms g)) \<le> 1"
    "sort_val (PDict (link_fields vms g)) = link_entry vms g" if "g \<in> set links" for g
    using link_fields_ok [OF _ _ vms valid(2), of g] links valid(1) that by (simp_all add: list_all_iff)
  have "list_all (\<lambda>g. jsonable (PDict (link_fields vms g)) \<and> jdepth (PDict (link_fields vms g)) \<le> 1) links"
    unfolding list_all_iff using fields(1,2) by blast
  note ok = data_doc [OF this, folded doc]
  have s: "sort_val (netif_doc ?vs) = PDict [(''data'', PList (map (link_entry vms) links))]"
    unfolding ok(3) using fields(3) by simp
  have le: "jdepth (netif_doc ?vs) \<le> e" "jdepth (netif_doc ?vs) \<le> d"
    using ok(2) depth by linarith+
  note dumps = disc_dumps(1) [OF ok(1) le, where rep = rep and env = env]
    disc_dumps(2) [OF ok(1) le, where rep = rep]
  obtain array where array: "vm_netifs (table_text links) = Ret array"
    "set_aliases array (stripped_lines (table_text vms)) = Ret ?vs"
    using vm_netifs_aliases [OF links vms] by (auto simp: res_bind_Ret_iff)
  let ?j = "json_dumps (disc_style rep) (netif_doc ?vs)"
  have "\<exists>w'. vm_netif_discovery (json_discenv e rep env) w = (Ret (), w') \<and> calls w' = calls w @
     [Popen [''/bin/sh'', ''-c'', ''dladm show-vnic -po zone,link''],
      Popen [''/bin/sh'', ''-c'', ''vmadm list -Hpo uuid,alias''], LibCall ''print'' [PStr ?j]]"
    using out prints array dumps(1)
    by (simp add: vm_netif_discovery_def sh_run_def print_doc_def io_simps del: One_nat_def)
  with dumps(2) [unfolded s] show ?thesis by blast
qed

section \<open>Witnesses\<close>

abbreviation sample_disc3 :: "unit discenv" where
  "sample_disc3 \<equiv> json_discenv 9 (\<lambda>v. []) sample_discenv"

theorem vm_discovery_reports_witness:
  "\<exists>w' j. vm_discovery sample_disc3 sample_disc_world = (Ret (), w') \<and> calls w' = calls sample_disc_world @
     [Popen [''/bin/sh'', ''-c'', ''vmadm list -Hpo uuid,type,alias''], LibCall ''print'' [PStr j]]
     \<and> json_loads 9 j = Ret (PDict [(''data'', PList (map zone_entry (map (take 3) sample_rows)))])"
proof (rule vm_discovery_reports)
  show "list_all (list_all utf8_valid) (map (take 3) sample_rows)" by code_simp
qed (simp_all add: sample_disc_defs table_row_def is_space_def)

abbreviation sample_disk_env :: "unit discenv" where
  "sample_disk_env \<equiv> sample_discenv\<lparr>sh_stdout := (\<lambda>c s. (Ret (table_text sample_rows), s)),
     ds_glob := (\<lambda>p s. (Ret (if p = ''*-disk*'' then sample_listing else []), s))\<rparr>"

theorem vm_disk_discovery_reports_witness:
  "\<exists>w' j vs. vm_disk_discovery (json_discenv 9 (\<lambda>v. []) sample_disk_env) sample_disc_world = (Ret (), w')
     \<and> last (calls w') = LibCall ''print'' [PStr j]
     \<and> json_loads 9 j = Ret (PDict [(''data'', PList (map disk_entry vs))])
     \<and> filter (\<lambda>v. d_uuid v = ''a-1'') vs =
         [\<lparr>d_uuid = ''a-1'', d_alias = ''web'', d_disk = Some ''disk0''\<rparr>,
          \<lparr>d_uuid = ''a-1'', d_alias = ''web'', d_disk = Some ''disk1''\<rparr>]
     \<and> filter (\<lambda>v. d_uuid v = ''c-3'') vs = []"
proof -
  let ?s = "(files sample_disc_world, host sample_disc_world)"
  have rows: "list_all (table_row 2) sample_rows" "distinct (map (\<lambda>g. g ! 0) (filter shown sample_rows))"
    by (simp_all add: sample_rows_def table_row_def is_space_def shown_def)
  have valid: "list_all (list_all utf8_valid) sample_rows" by code_simp
  have d: "List.map_filter disk_groups (filter is_disk (sample_listing @ []))
      = [(''a-1'', ''disk0''), (''c-3'', ''disk0''), (''a-1'', ''disk1'')]"
    by code_simp
  obtain w' j vs where run:
    "vm_disk_discovery (json_discenv 9 (\<lambda>v. []) sample_disk_env) sample_disc_world = (Ret (), w')"
    "calls w' = calls sample_disc_world @
     [LibCall ''chdir'' [PStr ''/dev/zvol/dsk/zones''], LibCall ''glob'' [PStr ''*-disk*''],
      LibCall ''glob'' [PStr ''*-*-*/*disk*''],
      Popen [''/bin/sh'', ''-c'', ''vmadm list -Hpo uuid,type,alias,state''], LibCall ''print'' [PStr j]]"
    "json_loads 9 j = Ret (PDict [(''data'', PList (map disk_entry vs))])"
    and vs: "\<forall>u. filter (\<lambda>v. d_uuid v = u) vs =
        (case find (\<lambda>g. g ! 0 = u) (filter shown sample_rows) of
           None \<Rightarrow> []
         | Some g \<Rightarrow>
             let ds = disks_of u (List.map_filter disk_groups (filter is_disk (sample_listing @ [])))
             in if ds = [] then [vm_entry g None] else map (\<lambda>d. vm_entry g (Some d)) ds)"
    using vm_disk_discovery_reports [OF rows(1) valid rows(2), of sample_disk_env sample_disc_world ?s
        sample_listing ?s "[]" ?s ?s ?s 9 9 "\<lambda>v. []"]
    by (auto simp: sample_discenv_def)
  have "last (calls w') = LibCall ''print'' [PStr j]" unfolding run(2) by simp
  with run vs [unfolded d] show ?thesis
    by (intro exI conjI) (assumption | simp add: sample_rows_def shown_def disks_of_def)+
qed

definition sample_links :: "string list list" where
  "sample_links = [[''a-1'', ''net0''], [''global'', ''net1'']]"

theorem vm_netif_discovery_reports_witness:
  "let env = sample_discenv\<lparr>sh_stdout := (\<lambda>c s. (Ret (table_text
       (if c = ''vmadm list -Hpo uuid,alias'' then [[''a-1'', ''web'']] else sample_links)), s))\<rparr> in
   \<exists>w' j. vm_netif_discovery (json_discenv 9 (\<lambda>v. []) env) sample_disc_world = (Ret (), w')
     \<and> calls w' = calls sample_disc_world @
     [Popen [''/bin/sh'', ''-c'', ''dladm show-vnic -po zone,link''],
      Popen [''/bin/sh'', ''-c'', ''vmadm list -Hpo uuid,alias''], LibCall ''print'' [PStr j]]
     \<and> json_loads 9 j = Ret (PDict [(''data'', PList (map (link_entry [[''a-1'', ''web'']]) sample_links))])"
  unfolding Let_def
proof (rule vm_netif_discovery_reports)
  show "list_all (list_all utf8_valid) sample_links" "list_all (list_all utf8_valid) [[''a-1'', ''web'']]"
    by code_simp+
qed (simp_all add: sample_disc_defs sample_links_def table_row_def is_space_def)

end
