(* ===== verification/ZabbixConfig.thy ===== *)
theory ZabbixConfig
  imports Zabbix JsonResults
begin

text \<open>
  The script \<open>es-zabbix-config.py\<close> (template \<open>ansible/roles/esdc-mon/templates/es-zabbix-config.py.j2\<close>),
  which performs one Zabbix API call from the command line: parameters are read as JSON from a file or
  from standard input, and the result is printed as JSON.

  \<open>argparse\<close> has split the command line: \<open>zc_args\<close> holds the texts of the options that were given.
  What the script adds to it is modelled: the conversion of \<open>--data\<close>, its default \<open>-\<close>, and the
  exit with status 2 when the conversion fails. The values the template is filled with are the record
  \<open>zc_defaults\<close>. Standard input, the streams and the JSON library are the record \<open>zcenv\<close>, the Zabbix
  client is \<open>zabbix_client\<close>.
\<close>

section \<open>The command line\<close>

text \<open>\<open>-d\<close> is absent, given without a value, or names a file.\<close>

datatype data_arg = NoData | DataFlag | DataFile string

record zc_args =
  zc_server :: "string option"
  zc_username :: "string option"
  zc_password :: "string option"
  zc_data :: data_arg
  zc_method :: string

record zc_defaults =
  zabbix_url :: string
  login_user :: string
  login_password :: string

record 'h zcenv =
  zc_tty :: bool
  zc_stdin :: "('h, string) outside"
  zc_loads :: "string \<Rightarrow> pyval res"
  zc_dumps :: "pyval \<Rightarrow> string res"
  zc_print :: "string \<Rightarrow> ('h, unit) outside"
  zc_error :: "string \<Rightarrow> ('h, unit) outside"

definition arg_or :: "string option \<Rightarrow> string \<Rightarrow> pyval" where
  "arg_or a d = PStr (case a of None \<Rightarrow> d | Some s \<Rightarrow> s)"

section \<open>Reading the parameters\<close>

text \<open>\<open>argparse.FileType()\<close>: \<open>-\<close> is standard input, everything else is opened for reading. An
  \<open>ArgumentTypeError\<close> is an \<open>OtherException\<close>.\<close>

datatype fp = Stdin | Opened string

abbreviation argument_type_error :: "string \<Rightarrow> exn" where
  "argument_type_error s \<equiv> OtherException s"

definition open_arg :: "string \<Rightarrow> ('h world, fp) io" where
  "open_arg filename =
     (if filename = ''-'' then ret Stdin
      else try_except (bnd (read_file filename) (\<lambda>s. ret (Opened s))) is_IOError
             (\<lambda>e. raise (argument_type_error (''can't open '' @ quoted filename @ '': '' @ exn_str e))))"

definition fp_isatty :: "'h zcenv \<Rightarrow> fp \<Rightarrow> bool" where
  "fp_isatty env fp = (case fp of Stdin \<Rightarrow> zc_tty env | Opened s \<Rightarrow> False)"

definition fp_read :: "'h zcenv \<Rightarrow> fp \<Rightarrow> ('h world, string) io" where
  "fp_read env fp = (case fp of Stdin \<Rightarrow> ext (LibCall ''stdin.read'' []) (zc_stdin env) | Opened s \<Rightarrow> ret s)"

text \<open>\<open>JSONFileType.__call__\<close>. The second handler is a bare \<open>except\<close>.\<close>

definition json_file_type :: "'h zcenv \<Rightarrow> string \<Rightarrow> ('h world, pyval) io" where
  "json_file_type env filename =
     bnd (open_arg filename) (\<lambda>fp.
       if fp_isatty env fp then ret (PDict [])
       else try_except (bnd (fp_read env fp) (\<lambda>s. lift_res (zc_loads env s))) (\<lambda>_. True)
              (\<lambda>e. raise (argument_type_error
                 (if is_IOError e then ''Could not read file'' else ''Invalid json''))))"

text \<open>\<open>parser.parse_args()\<close> for \<open>--data\<close>: an \<open>ArgumentTypeError\<close> becomes a usage error.\<close>

definition convert_data :: "'h zcenv \<Rightarrow> string \<Rightarrow> ('h world, pyval) io" where
  "convert_data env filename =
     try_except (json_file_type env filename) (\<lambda>_. True)
       (\<lambda>e. let msg = ''argument -d/--data: '' @ exn_str e in
             sq (ext (LibCall ''error'' [PStr msg]) (zc_error env msg)) (raise (SystemExit 2)))"

definition parse_data :: "'h zcenv \<Rightarrow> data_arg \<Rightarrow> ('h world, pyval) io" where
  "parse_data env a =
     (case a of NoData \<Rightarrow> convert_data env ''-'' | DataFlag \<Rightarrow> ret PNone
      | DataFile f \<Rightarrow> convert_data env f)"

section \<open>The call\<close>

definition zapi ::
  "'h zabbix_client \<Rightarrow> pyval \<Rightarrow> pyval \<Rightarrow> pyval \<Rightarrow> pyval \<Rightarrow> pyval \<Rightarrow> ('h world, unit) io" where
  "zapi z server_url user password timeout ssl_verify =
     sq (ext (LibCall ''ZabbixAPI'' [server_url, timeout, ssl_verify]) (za_connect z server_url timeout ssl_verify))
        (ext (LibCall ''login'' [user, password]) (za_login z user password))"

definition zconfig_main ::
  "'h zcenv \<Rightarrow> 'h zabbix_client \<Rightarrow> zc_defaults \<Rightarrow> zc_args \<Rightarrow> ('h world, unit) io" where
  "zconfig_main env z defs a =
     bnd (parse_data env (zc_data a)) (\<lambda>data.
     sq (zapi z (arg_or (zc_server a) (zabbix_url defs)) (arg_or (zc_username a) (login_user defs))
           (arg_or (zc_password a) (login_password defs)) (PInt 30) (PBool False))
     (bnd (ext (LibCall ''call'' [PStr (zc_method a), data]) (za_call z (PStr (zc_method a)) data)) (\<lambda>res.
      bnd (lift_res (zc_dumps env res)) (\<lambda>s.
      sq (ext (LibCall ''print'' [PStr s]) (zc_print env s)) (raise (SystemExit 0))))))"

text \<open>The environment with the JSON library: \<open>json.loads\<close> of text and \<open>json.dumps(res, indent=4)\<close>. The
  separator of items is \<open>', '\<close> under Python 2 and \<open>','\<close> under Python 3, the argument \<open>item\<close>.\<close>

definition json_zcenv :: "nat \<Rightarrow> nat \<Rightarrow> (pyval \<Rightarrow> string) \<Rightarrow> string \<Rightarrow> 'h zcenv \<Rightarrow> 'h zcenv" where
  "json_zcenv d e rep item env = env\<lparr>zc_loads := json_loads d,
     zc_dumps := json_dumps_limited e ((pretty_style rep)\<lparr>st_item := item\<rparr>)\<rparr>"

section \<open>Properties\<close>

abbreviation zconfig_calls :: "zc_defaults \<Rightarrow> zc_args \<Rightarrow> pyval \<Rightarrow> call list" where
  "zconfig_calls defs a data \<equiv>
     [LibCall ''ZabbixAPI'' [arg_or (zc_server a) (zabbix_url defs), PInt 30, PBool False],
      LibCall ''login'' [arg_or (zc_username a) (login_user defs), arg_or (zc_password a) (login_password defs)],
      LibCall ''call'' [PStr (zc_method a), data]]"

lemma parse_data_file:
  assumes "files w f = Some (RegularFile s)" "f \<noteq> ''-''" "zc_loads env s = Ret v"
  shows "parse_data env (DataFile f) w = (Ret v, w)"
  using assms
  by (simp add: parse_data_def convert_data_def json_file_type_def open_arg_def read_file_def fp_isatty_def
      fp_read_def io_simps)

text \<open>C25. JSON in, JSON out: with a file that holds any JSON encoding of some parameters, the script logs in
  with the options or their configured defaults, calls the method once with exactly these parameters,
  and, when the server answers, prints one text that decodes to the answer and exits with status 0.\<close>

theorem zconfig_calls_and_prints:
  assumes src: "zc_data a = DataFile f" "f \<noteq> ''-''" "files w f = Some (RegularFile (json_dumps st v))"
    and v: "style_ok st" "\<not> st_sort st" "jsonable v" "jdepth v \<le> d"
    and login: "za_connect z (arg_or (zc_server a) (zabbix_url defs)) (PInt 30) (PBool False)
        (files w, host w) = (Ret (), s1)"
      "za_login z (arg_or (zc_username a) (login_user defs)) (arg_or (zc_password a) (login_password defs)) s1
        = (Ret (), s2)"
    and ans: "za_call z (PStr (zc_method a)) v s2 = (Ret res, s3)" "jsonable res" "jdepth res \<le> d" "jdepth res \<le> e"
    and item: "item = '','' \<or> item = '', ''" and prints: "\<And>j. zc_print env j s3 = (Ret (), s4)"
  shows "\<exists>w' j. zconfig_main (json_zcenv d e rep item env) z defs a w = (Exc (SystemExit 0), w')
     \<and> calls w' = calls w @ zconfig_calls defs a v @ [LibCall ''print'' [PStr j]]
     \<and> json_loads d j = Ret res"
proof -
  let ?env = "json_zcenv d e rep item env"
  let ?st = "(pretty_style rep)\<lparr>st_item := item\<rparr>"
  have "json_loads d (json_dumps st v) = Ret v"
    using json_text.decodes [of st d v] v by (simp add: admissible_def key_order_def)
  then have "parse_data ?env (zc_data a) w = (Ret v, w)"
    unfolding src(1) by (intro parse_data_file [OF src(3,2)]) (simp add: json_zcenv_def)
  moreover have "style_ok ?st"
    using item by (auto simp: style_ok_def separator_def pretty_style_def)
  then have "json_loads d (json_dumps ?st res) = Ret res"
    using json_text.decodes [of ?st d res] ans(2,3) by (simp add: admissible_def key_order_def pretty_style_def)
  moreover have "zc_dumps ?env res = Ret (json_dumps ?st res)" "zc_print ?env = zc_print env"
    using json_dumps_limited_jsonable [OF ans(2,4)] by (simp_all add: json_zcenv_def)
  ultimately show ?thesis
    using login ans(1) prints
    by (intro exI [of _ "json_dumps ?st res"] exI conjI) (simp_all add: zconfig_main_def zapi_def io_simps, simp)
qed

text \<open>Unusable parameters are refused before anything is sent: when the file does not exist, cannot be
  read or is no JSON, the script reports a usage error, exits with status 2 and never contacts Zabbix.\<close>

lemma zconfig_bad_data_exits_2:
  assumes src: "zc_data a = DataFile f" "f \<noteq> ''-''"
    and bad: "case files w f of Some (RegularFile s) \<Rightarrow> \<exists>e. zc_loads env s = Exc e | _ \<Rightarrow> True"
    and err: "\<And>msg. \<exists>s. zc_error env msg (files w, host w) = (Ret (), s)"
  shows "\<exists>w' msg. zconfig_main env z defs a w = (Exc (SystemExit 2), w')
     \<and> calls w' = calls w @ [LibCall ''error'' [PStr (''argument -d/--data: '' @ msg)]]"
proof -
  have "\<exists>msg. json_file_type env f w = (Exc (argument_type_error msg), w)"
    using src(2) bad
    by (auto simp: json_file_type_def open_arg_def read_file_def fp_isatty_def fp_read_def io_simps
        split: option.splits fnode.splits)
  then obtain msg where msg: "json_file_type env f w = (Exc (argument_type_error msg), w)"
    by blast
  obtain s where "zc_error env (''argument -d/--data: '' @ msg) (files w, host w) = (Ret (), s)"
    using err by blast
  with msg show ?thesis
    by (simp add: zconfig_main_def parse_data_def src(1) convert_data_def io_simps Let_def)
qed

section \<open>Witnesses\<close>

definition sample_zc_client :: "unit zabbix_client" where
  "sample_zc_client = \<lparr>za_available = True, za_connect = (\<lambda>u t v s. (Ret (), s)),
     za_login = (\<lambda>u p s. (Ret (), s)),
     za_call = (\<lambda>meth params s. (Ret (PList [PDict [(''hostid'', PStr ''10084'')]]), s)),
     za_method = (\<lambda>path arg s. (Ret PNone, s))\<rparr>"

definition sample_zcenv :: "unit zcenv" where
  "sample_zcenv = \<lparr>zc_tty = False, zc_stdin = (\<lambda>s. (Ret [], s)), zc_loads = (\<lambda>s. Exc (ValueError [])),
     zc_dumps = (\<lambda>v. Ret []), zc_print = (\<lambda>j s. (Ret (), s)), zc_error = (\<lambda>m s. (Ret (), s))\<rparr>"

definition sample_zc_defaults :: zc_defaults where
  "sample_zc_defaults = \<lparr>zabbix_url = ''http://zbx'', login_user = ''u'', login_password = ''p''\<rparr>"

definition sample_zc_args :: zc_args where
  "sample_zc_args = \<lparr>zc_server = None, zc_username = Some ''admin'', zc_password = None,
     zc_data = DataFile ''q'', zc_method = ''host.get''\<rparr>"

definition sample_query :: pyval where
  "sample_query = PDict [(''output'', PList [PStr ''hostid'']), (''limit'', PInt (-1))]"

definition sample_zc_world :: "unit world" where
  "sample_zc_world = \<lparr>files = [''q'' \<mapsto> RegularFile (json_dumps (default_style (\<lambda>v. [])) sample_query)],
     host = (), calls = []\<rparr>"

lemmas sample_zc_defs = sample_zc_client_def sample_zcenv_def sample_zc_defaults_def sample_zc_args_def
  sample_zc_world_def

theorem zconfig_calls_and_prints_witness:
  "\<exists>w' j. zconfig_main (json_zcenv 9 9 (\<lambda>v. []) '','' sample_zcenv) sample_zc_client sample_zc_defaults
       sample_zc_args sample_zc_world = (Exc (SystemExit 0), w')
     \<and> calls w' = calls sample_zc_world @ zconfig_calls sample_zc_defaults sample_zc_args sample_query
         @ [LibCall ''print'' [PStr j]]
     \<and> json_loads 9 j = Ret (PList [PDict [(''hostid'', PStr ''10084'')]])"
proof (rule zconfig_calls_and_prints [where st = "default_style (\<lambda>v. [])" and f = "''q''"])
  show "jsonable sample_query" "jdepth sample_query \<le> 9" by code_simp+
  show "jsonable (PList [PDict [(''hostid'', PStr ''10084'')]])" by code_simp
qed (simp_all add: sample_zc_defs)

end
