(* ===== verification/ZbxPartitions.thy ===== *)
theory ZbxPartitions
  imports PyIO Complex_Main
begin

text \<open>
  The Zabbix partitioning helper \<open>zbx_partitions.py\<close> (template
  \<open>ansible/roles/zabbix-server-partitioning/templates/zbx_partitions.py.j2\<close>), which cron runs daily: it
  provides partitions for the coming days and months and drops the old ones, in one transaction.

  The database driver, the settings, the clock and standard output are the record \<open>pgenv\<close>. A \<open>datetime\<close> is the
  number of its microseconds. The value of \<open>365/12\<close> depends on the interpreter: the argument
  \<open>py3\<close>. Iterating over the dictionary \<open>tables\<close> is the list \<open>items\<close> of its items in some order.
\<close>

section \<open>Configuration\<close>

type_synonym table = "string \<times> string \<times> nat"

definition tables :: "table list" where
  "tables = [(''history'', ''day'', 7), (''history_uint'', ''day'', 7), (''history_str'', ''day'', 7),
     (''history_log'', ''day'', 7), (''history_text'', ''day'', 7), (''trends'', ''month'', 12),
     (''trends_uint'', ''month'', 12)]"

record 'h pgenv =
  db_user :: string
  db_pw :: string
  db_name :: string
  db_host :: string
  pg_connect :: "('h, unit) outside"
  pg_cursor :: "('h, unit) outside"
  pg_execute :: "string \<Rightarrow> pyval list \<Rightarrow> ('h, unit) outside"
  pg_notices :: "('h, string list) outside"
  pg_commit :: "('h, unit) outside"
  pg_close :: "string \<Rightarrow> ('h, unit) outside"
  pg_now :: "('h, int) outside"
  pg_print :: "string \<Rightarrow> ('h, unit) outside"
  pg_fmt :: "string \<Rightarrow> pyval list \<Rightarrow> string"

definition debug_flag :: "string list \<Rightarrow> bool" where
  "debug_flag argv = (last argv \<in> set [''-d'', ''-v'', ''--debug'', ''--verbose''])"

definition init_flag :: "string list \<Rightarrow> bool" where
  "init_flag argv = (1 < length argv \<and> argv ! 1 = ''init'')"

section \<open>Operations\<close>

fun for_each :: "('a \<Rightarrow> ('h world, unit) io) \<Rightarrow> 'a list \<Rightarrow> ('h world, unit) io" where
  "for_each f [] = ret ()"
| "for_each f (x # xs) = sq (f x) (for_each f xs)"

definition py_print :: "'h pgenv \<Rightarrow> string \<Rightarrow> ('h world, unit) io" where
  "py_print env s = ext (LibCall ''print'' [PStr s]) (pg_print env s)"

definition execute_sql :: "'h pgenv \<Rightarrow> bool \<Rightarrow> string \<Rightarrow> pyval list \<Rightarrow> ('h world, unit) io" where
  "execute_sql env debug query params =
     sq (if_then debug (py_print env (''* Running: '' @ pg_fmt env query params)))
     (sq (ext (LibCall ''execute'' (PStr query # params)) (pg_execute env query params))
         (if_then debug
            (bnd (ext (LibCall ''notices'' []) (pg_notices env)) (\<lambda>notices.
             sq (for_each (\<lambda>notice. py_print env (py_strip notice)) notices)
             (sq (ext (LibCall ''del notices'' []) (\<lambda>s. (Ret (), s))) (py_print env ''***''))))))"

definition get_days :: "bool \<Rightarrow> string \<Rightarrow> rat res" where
  "get_days py3 partition_by =
     (if partition_by = ''month'' then Ret (if py3 then 365 / 12 else of_int (365 div 12))
      else if partition_by = ''year'' then Ret 365
      else if partition_by = ''day'' then Ret 1
      else Exc (ValueError (''Invalid partitioning schema: '' @ partition_by)))"

text \<open>\<open>now - timedelta(days=days)\<close>.\<close>

definition cutoff :: "int \<Rightarrow> rat \<Rightarrow> int" where
  "cutoff now days = now - round (days * 86400000000)"

definition provision_query :: string where
  "provision_query = ''SELECT zbx_provision_partitions(%s, %s, %s)''"

definition enable_query :: string where
  "enable_query = ''SELECT zbx_enable_partitions(%s, %s)''"

definition drop_query :: string where
  "drop_query = ''SELECT zbx_drop_old_partitions(%s, %s)''"

definition provision :: "'h pgenv \<Rightarrow> bool \<Rightarrow> table \<Rightarrow> ('h world, unit) io" where
  "provision env debug t = (case t of (name, by, keep) \<Rightarrow>
     execute_sql env debug provision_query [PStr name, PStr by, PInt (int keep)])"

definition enable :: "'h pgenv \<Rightarrow> bool \<Rightarrow> table \<Rightarrow> ('h world, unit) io" where
  "enable env debug t = (case t of (name, by, keep) \<Rightarrow>
     execute_sql env debug enable_query [PStr name, PStr by])"

definition drop_old :: "'h pgenv \<Rightarrow> bool \<Rightarrow> bool \<Rightarrow> int \<Rightarrow> table \<Rightarrow> ('h world, unit) io" where
  "drop_old env py3 debug now t = (case t of (name, by, keep) \<Rightarrow>
     bnd (lift_res (get_days py3 by)) (\<lambda>days.
       execute_sql env debug drop_query [PStr name, PInt (cutoff now (days * of_nat keep))]))"

text \<open>The statements of the second loop.\<close>

definition second_loop :: "'h pgenv \<Rightarrow> bool \<Rightarrow> string list \<Rightarrow> table list \<Rightarrow> ('h world, unit) io" where
  "second_loop env py3 argv items =
     (if init_flag argv then for_each (enable env (debug_flag argv)) items
      else bnd (ext (LibCall ''now'' []) (pg_now env)) (\<lambda>now.
           for_each (drop_old env py3 (debug_flag argv) now) items))"

abbreviation connect_call :: "'h pgenv \<Rightarrow> call" where
  "connect_call env \<equiv> LibCall ''connect'' [PStr (db_name env), PStr (db_user env), PStr (db_pw env), PStr (db_host env)]"

definition partitions_main :: "'h pgenv \<Rightarrow> bool \<Rightarrow> string list \<Rightarrow> table list \<Rightarrow> ('h world, unit) io" where
  "partitions_main env py3 argv items =
     sq (ext (connect_call env) (pg_connect env))
     (sq (ext (LibCall ''cursor'' []) (pg_cursor env))
     (sq (for_each (provision env (debug_flag argv)) items)
     (sq (second_loop env py3 argv items)
     (sq (ext (LibCall ''commit'' []) (pg_commit env))
     (sq (ext (LibCall ''close'' [PStr ''cursor'']) (pg_close env ''cursor''))
         (ext (LibCall ''close'' [PStr ''connection'']) (pg_close env ''connection'')))))))"

section \<open>The statements of a run\<close>

text \<open>What is executed for a table.\<close>

definition provision_call :: "table \<Rightarrow> call" where
  "provision_call t = (case t of (name, by, keep) \<Rightarrow>
     LibCall ''execute'' [PStr ''SELECT zbx_provision_partitions(%s, %s, %s)'', PStr name, PStr by, PInt (int keep)])"

definition enable_call :: "table \<Rightarrow> call" where
  "enable_call t = (case t of (name, by, keep) \<Rightarrow> LibCall ''execute'' [PStr ''SELECT zbx_enable_partitions(%s, %s)'', PStr name, PStr by])"

text \<open>The days of data that are kept: seven, and for the monthly tables twelve months, which the code
  takes for \<open>365/12\<close> days each.\<close>

definition kept_days :: "bool \<Rightarrow> table \<Rightarrow> int" where
  "kept_days py3 t = (if fst (snd t) = ''month'' then (if py3 then 365 else 360) else 7)"

definition drop_call :: "bool \<Rightarrow> int \<Rightarrow> table \<Rightarrow> call" where
  "drop_call py3 now t =
     LibCall ''execute'' [PStr ''SELECT zbx_drop_old_partitions(%s, %s)'', PStr (fst t), PInt (now - kept_days py3 t * 86400000000)]"

fun is_statement :: "call \<Rightarrow> bool" where
  "is_statement (LibCall f args) = (f = ''execute'')"
| "is_statement _ = False"

abbreviation commit_call :: call where
  "commit_call \<equiv> LibCall ''commit'' []"

text \<open>\<open>executes f cs\<close>: when \<open>f\<close> returns, it has executed exactly the statements \<open>cs\<close>.\<close>

definition executes :: "('h world, 'a) io \<Rightarrow> call list \<Rightarrow> bool" where
  "executes f cs = (\<forall>w x w'. f w = (Ret x, w') \<longrightarrow>
     filter is_statement (calls w') = filter is_statement (calls w) @ cs)"

lemma executes_ext: "executes (ext c f) (if is_statement c then [c] else [])"
  by (auto simp: executes_def ext_app)

lemma executes_sq: "executes f cs \<Longrightarrow> executes g ds \<Longrightarrow> executes (sq f g) (cs @ ds)"
  unfolding executes_def sq_app by (auto split: prod.splits res.splits)

lemma executes_ret: "executes (ret x) []"
  by (simp add: executes_def ret_app)

lemma executes_bnd: "executes f cs \<Longrightarrow> (\<And>x. executes (g x) ds) \<Longrightarrow> executes (bnd f g) (cs @ ds)"
  unfolding executes_def bnd_app by (fastforce split: prod.splits res.splits)

lemma executes_if_then: "executes f [] \<Longrightarrow> executes (if_then b f) []"
  by (simp add: if_then_def executes_ret)

lemma executes_for_each:
  "(\<And>x. x \<in> set xs \<Longrightarrow> executes (f x) [c x]) \<Longrightarrow> executes (for_each f xs) (map c xs)"
proof (induction xs)
  case (Cons x xs)
  then show ?case using executes_sq [of "f x" "[c x]" "for_each f xs" "map c xs"] by simp
qed (simp add: executes_ret)

lemma executes_none: "(\<And>x. executes (f x) []) \<Longrightarrow> executes (for_each f xs) []"
proof (induction xs)
  case (Cons x xs)
  then show ?case using executes_sq [of "f x" "[]" "for_each f xs" "[]"] by simp
qed (simp add: executes_ret)

lemma executes_print: "executes (py_print env s) []"
  unfolding py_print_def using executes_ext [of "LibCall ''print'' [PStr s]"] by simp

lemma executes_quiet: "\<not> is_statement c \<Longrightarrow> executes (ext c f) []"
  using executes_ext [of c f] by simp

lemma executes_sql: "executes (execute_sql env debug q ps) [LibCall ''execute'' (PStr q # ps)]"
proof -
  have notices: "executes (bnd (ext (LibCall ''notices'' []) (pg_notices env)) (\<lambda>notices.
      sq (for_each (\<lambda>n. py_print env (py_strip n)) notices)
        (sq (ext (LibCall ''del notices'' []) (\<lambda>s. (Ret (), s))) (py_print env ''***'')))) ([] @ [] @ [] @ [])"
    by (intro executes_bnd executes_sq executes_none executes_print executes_quiet) simp_all
  have "executes (execute_sql env debug q ps) ([] @ [LibCall ''execute'' (PStr q # ps)] @ [])"
    unfolding execute_sql_def
    using executes_ext [of "LibCall ''execute'' (PStr q # ps)"] notices
    by (intro executes_sq executes_if_then executes_print) simp_all
  then show ?thesis by simp
qed

lemma executes_provision: "executes (for_each (provision env debug) items) (map provision_call items)"
  by (rule executes_for_each) (auto simp: provision_def provision_call_def provision_query_def executes_sql)

lemma executes_enable: "executes (for_each (enable env debug) items) (map enable_call items)"
  by (rule executes_for_each) (auto simp: enable_def enable_call_def enable_query_def executes_sql)

lemma drop_old_table:
  assumes "t \<in> set tables"
  shows "drop_old env py3 debug now t = execute_sql env debug drop_query
     [PStr (fst t), PInt (now - kept_days py3 t * 86400000000)]"
proof -
  have "round (7 * 86400000000 :: rat) = 604800000000" "round (365 / 12 * 12 * 86400000000 :: rat) = 31536000000000"
    "round (of_int (365 div 12) * 12 * 86400000000 :: rat) = 31104000000000"
    by simp_all
  then show ?thesis
    using assms by (auto simp: tables_def drop_old_def get_days_def cutoff_def kept_days_def lift_res_def bnd_def)
qed

lemma executes_drop:
  assumes "set items \<subseteq> set tables"
  shows "executes (for_each (drop_old env py3 debug now) items) (map (drop_call py3 now) items)"
proof (rule executes_for_each)
  fix t assume "t \<in> set items"
  then have "t \<in> set tables" using assms by blast
  from drop_old_table [OF this, of env] show "executes (drop_old env py3 debug now t) [drop_call py3 now t]"
    by (simp add: drop_call_def drop_query_def executes_sql)
qed

section \<open>Commit comes last\<close>

lemma emits_for_each [emits_intros]: "(\<And>x. emits P (f x)) \<Longrightarrow> emits P (for_each f xs)"
  by (induction xs) (auto intro: emits_intros)

lemma emits_execute_sql:
  "(\<And>s. P (LibCall ''print'' [PStr s])) \<Longrightarrow> P (LibCall ''execute'' (PStr q # ps)) \<Longrightarrow>
   P (LibCall ''notices'' []) \<Longrightarrow> P (LibCall ''del notices'' []) \<Longrightarrow> emits P (execute_sql env debug q ps)"
  unfolding execute_sql_def py_print_def by (intro emits_intros) auto

text \<open>The part before the commit.\<close>

definition statements_part :: "'h pgenv \<Rightarrow> bool \<Rightarrow> string list \<Rightarrow> table list \<Rightarrow> ('h world, unit) io" where
  "statements_part env py3 argv items =
     sq (ext (connect_call env) (pg_connect env))
     (sq (ext (LibCall ''cursor'' []) (pg_cursor env))
     (sq (for_each (provision env (debug_flag argv)) items) (second_loop env py3 argv items)))"

definition closing_part :: "'h pgenv \<Rightarrow> ('h world, unit) io" where
  "closing_part env =
     sq (ext (LibCall ''close'' [PStr ''cursor'']) (pg_close env ''cursor''))
        (ext (LibCall ''close'' [PStr ''connection'']) (pg_close env ''connection''))"

lemma partitions_main_parts:
  "partitions_main env py3 argv items =
     sq (statements_part env py3 argv items) (sq (ext commit_call (pg_commit env)) (closing_part env))"
  by (simp add: partitions_main_def statements_part_def closing_part_def sq_def bnd_assoc)

lemma no_commit_before: "emits (\<lambda>c. c \<noteq> commit_call) (statements_part env py3 argv items)"
  unfolding statements_part_def second_loop_def provision_def enable_def drop_old_def
  by (auto intro!: emits_intros emits_execute_sql split: prod.splits)

lemma no_commit_after: "emits (\<lambda>c. c \<noteq> commit_call \<and> \<not> is_statement c) (closing_part env)"
  unfolding closing_part_def by (intro emits_intros) auto

text \<open>The statements a complete run executes, given the time.\<close>

definition run_statements :: "bool \<Rightarrow> string list \<Rightarrow> int \<Rightarrow> table list \<Rightarrow> call list" where
  "run_statements py3 argv now items =
     map provision_call items @ (if init_flag argv then map enable_call items else map (drop_call py3 now) items)"

lemma statements_part_Ret:
  assumes "set items \<subseteq> set tables" and "statements_part env py3 argv items w = (Ret (), w')"
  shows "\<exists>now. filter is_statement (calls w') = filter is_statement (calls w) @ run_statements py3 argv now items"
proof -
  obtain w1 where w1: "sq (ext (connect_call env) (pg_connect env)) (sq (ext (LibCall ''cursor'' [])
      (pg_cursor env)) (for_each (provision env (debug_flag argv)) items)) w = (Ret (), w1)"
    "second_loop env py3 argv items w1 = (Ret (), w')"
    using assms(2) by (auto simp: statements_part_def sq_app split: prod.splits res.splits)
  have "executes (sq (ext (connect_call env) (pg_connect env)) (sq (ext (LibCall ''cursor'' [])
      (pg_cursor env)) (for_each (provision env (debug_flag argv)) items))) ([] @ [] @ map provision_call items)"
    by (intro executes_sq executes_quiet executes_provision) simp_all
  then have 1: "filter is_statement (calls w1) = filter is_statement (calls w) @ map provision_call items"
    using w1(1) by (auto simp: executes_def)
  have "\<exists>now. filter is_statement (calls w') = filter is_statement (calls w1)
      @ (if init_flag argv then map enable_call items else map (drop_call py3 now) items)"
  proof (cases "init_flag argv")
    case True
    then show ?thesis
      using w1(2) executes_enable [of env "debug_flag argv" items] by (auto simp: second_loop_def executes_def)
  next
    case False
    then obtain now w2 where "ext (LibCall ''now'' []) (pg_now env) w1 = (Ret now, w2)"
      "for_each (drop_old env py3 (debug_flag argv) now) items w2 = (Ret (), w')"
      using w1(2) by (auto simp: second_loop_def bnd_app split: prod.splits res.splits)
    then show ?thesis
      using False executes_drop [OF assms(1), of env py3 "debug_flag argv" now]
      by (auto simp: executes_def ext_app)
  qed
  with 1 show ?thesis by (simp add: run_statements_def)
qed

lemma commit_then_close:
  "\<exists>post. calls (snd (sq (ext commit_call (pg_commit env)) (closing_part env) w)) = calls w @ [commit_call] @ post
     \<and> commit_call \<notin> set post \<and> filter is_statement post = []"
proof (cases "ext commit_call (pg_commit env) w")
  case c: (Pair r w1)
  then have w1: "calls w1 = calls w @ [commit_call]" by (auto simp: ext_app)
  show ?thesis
  proof (cases r)
    case (Exc e)
    then show ?thesis using w1 c by (auto simp: sq_app)
  next
    case (Ret u)
    obtain r2 w2 where w2: "closing_part env w1 = (r2, w2)" by (cases "closing_part env w1")
    obtain post where "calls w2 = calls w1 @ post" "\<forall>c \<in> set post. c \<noteq> commit_call \<and> \<not> is_statement c"
      using emitsD [OF no_commit_after w2] by blast
    then show ?thesis using w1 w2 c Ret by (auto simp: sq_app filter_empty_conv)
  qed
qed

text \<open>C18. The changes are all or nothing. Whatever the database, the clock and the terminal do, with or without
  debugging output, a run either never commits or commits once, and then it has executed before exactly
  the statements of the run: a provision for every table, followed, for every table, by the
  installation of the trigger (\<open>init\<close>) or the removal of the partitions older than the data to keep.
  After the commit nothing is executed.\<close>

theorem partitions_commit_last:
  assumes "set items \<subseteq> set tables"
  shows "\<exists>cs. calls (snd (partitions_main env py3 argv items w)) = calls w @ cs \<and>
     (commit_call \<notin> set cs \<or>
      (\<exists>pre post now. cs = pre @ [commit_call] @ post \<and> commit_call \<notin> set pre \<union> set post
         \<and> filter is_statement pre = run_statements py3 argv now items \<and> filter is_statement post = []))"
proof (cases "statements_part env py3 argv items w")
  case (Pair r1 w1)
  obtain pre where pre: "calls w1 = calls w @ pre" "\<forall>c \<in> set pre. c \<noteq> commit_call"
    using emitsD [OF no_commit_before Pair] by blast
  show ?thesis
  proof (cases r1)
    case (Exc e)
    then show ?thesis
      using pre Pair by (intro exI [of _ pre]) (auto simp: partitions_main_parts sq_app)
  next
    case (Ret u)
    then have returns: "statements_part env py3 argv items w = (Ret (), w1)" using Pair by simp
    from statements_part_Ret [OF assms returns] obtain now
      where stm: "filter is_statement pre = run_statements py3 argv now items"
      by (auto simp: pre(1))
    let ?finish = "sq (ext commit_call (pg_commit env)) (closing_part env)"
    obtain post where post: "calls (snd (?finish w1)) = calls w1 @ [commit_call] @ post"
      "commit_call \<notin> set post" "filter is_statement post = []"
      using commit_then_close [of env w1] by blast
    have "calls (snd (partitions_main env py3 argv items w)) = calls w @ (pre @ [commit_call] @ post)"
      using Pair Ret pre(1) post(1) by (simp add: partitions_main_parts sq_app [where f = "statements_part env py3 argv items"])
    moreover have "commit_call \<notin> set pre \<union> set post"
      using pre(2) post(2) by auto
    ultimately show ?thesis using stm post(3) by blast
  qed
qed

section \<open>The daily run\<close>

text \<open>A database that accepts everything, and a clock.\<close>

definition pg_works :: "'h pgenv \<Rightarrow> int \<Rightarrow> bool" where
  "pg_works env now = (\<forall>s. fst (pg_connect env s) = Ret () \<and> fst (pg_cursor env s) = Ret ()
     \<and> (\<forall>q ps. fst (pg_execute env q ps s) = Ret ()) \<and> fst (pg_commit env s) = Ret ()
     \<and> (\<forall>x. fst (pg_close env x s) = Ret ()) \<and> fst (pg_now env s) = Ret now)"

lemma pg_worksD:
  assumes "pg_works env now"
  shows "fst (pg_connect env s) = Ret ()" "fst (pg_cursor env s) = Ret ()" "fst (pg_execute env q ps s) = Ret ()"
    "fst (pg_commit env s) = Ret ()" "fst (pg_close env x s) = Ret ()" "fst (pg_now env s) = Ret now"
  using assms unfolding pg_works_def by blast+

text \<open>\<open>performs f cs\<close>: \<open>f\<close> returns and performs exactly the calls \<open>cs\<close>.\<close>

definition performs :: "('h world, unit) io \<Rightarrow> call list \<Rightarrow> bool" where
  "performs f cs = (\<forall>w. \<exists>w'. f w = (Ret (), w') \<and> calls w' = calls w @ cs)"

lemma performs_ext: "(\<And>s. fst (f s) = Ret ()) \<Longrightarrow> performs (ext c f) [c]"
  by (simp add: performs_def ext_app)

lemma performs_sq: "performs f cs \<Longrightarrow> performs g ds \<Longrightarrow> performs (sq f g) (cs @ ds)"
  unfolding performs_def sq_app by (metis (no_types, lifting) append_assoc case_prod_conv res.case(1))

lemma performs_for_each: "(\<And>x. x \<in> set xs \<Longrightarrow> performs (f x) [c x]) \<Longrightarrow> performs (for_each f xs) (map c xs)"
proof (induction xs)
  case (Cons x xs)
  then show ?case using performs_sq [of "f x" "[c x]" "for_each f xs" "map c xs"] by simp
qed (simp add: performs_def ret_app)

lemma performs_sql: "pg_works env now \<Longrightarrow> performs (execute_sql env False q ps) [LibCall ''execute'' (PStr q # ps)]"
  by (simp add: performs_def execute_sql_def io_simps pg_worksD)

text \<open>C29. The daily run: when the database accepts everything, a run without arguments provides the
  partitions of the tables, in the order \<open>items\<close> of the dictionary, then reads the clock once, drops
  what is older than seven days of history and twelve months of trends, commits and closes. Twelve months
  are 365 days under Python 3 but 360 under Python 2, which the script is written for: \<open>365/12\<close> is 30
  there, and the partitions of the oldest days go early.\<close>

theorem partitions_daily_run:
  fixes env :: "'h pgenv"
  assumes works: "pg_works env now" and items: "set items \<subseteq> set tables"
    and argv: "\<not> init_flag argv" "\<not> debug_flag argv"
  shows "\<exists>w'. partitions_main env py3 argv items w = (Ret (), w')
     \<and> calls w' = calls w @ [connect_call env, LibCall ''cursor'' []] @ map provision_call items
        @ [LibCall ''now'' []]
        @ map (\<lambda>t. LibCall ''execute'' [PStr ''SELECT zbx_drop_old_partitions(%s, %s)'', PStr (fst t),
             PInt (now - (if fst (snd t) = ''month'' then (if py3 then 365 else 360) else 7) * 86400000000)]) items
        @ [commit_call, LibCall ''close'' [PStr ''cursor''], LibCall ''close'' [PStr ''connection'']]"
proof -
  have drops: "performs (for_each (drop_old env py3 False now) items) (map (drop_call py3 now) items)"
  proof (rule performs_for_each)
    fix t assume "t \<in> set items"
    then have "t \<in> set tables" using items by blast
    from drop_old_table [OF this, of env] show "performs (drop_old env py3 False now t) [drop_call py3 now t]"
      using performs_sql [OF works] by (simp add: drop_call_def drop_query_def)
  qed
  have "performs (second_loop env py3 argv items) (LibCall ''now'' [] # map (drop_call py3 now) items)"
    unfolding performs_def
  proof
    fix w :: "'h world"
    let ?w = "after_call w (LibCall ''now'' []) (snd (pg_now env (files w, host w)))"
    have "second_loop env py3 argv items w = for_each (drop_old env py3 False now) items ?w"
      using works argv by (simp add: second_loop_def io_simps pg_worksD)
    then show "\<exists>w'. second_loop env py3 argv items w = (Ret (), w')
        \<and> calls w' = calls w @ LibCall ''now'' [] # map (drop_call py3 now) items"
      using drops [unfolded performs_def, rule_format, of ?w] by simp
  qed
  moreover have "performs (for_each (provision env False) items) (map provision_call items)"
    using performs_sql [OF works]
    by (intro performs_for_each) (auto simp: provision_def provision_call_def provision_query_def)
  ultimately have "performs (partitions_main env py3 argv items) ([connect_call env] @ [LibCall ''cursor'' []]
      @ map provision_call items @ (LibCall ''now'' [] # map (drop_call py3 now) items) @ [commit_call]
      @ [LibCall ''close'' [PStr ''cursor'']] @ [LibCall ''close'' [PStr ''connection'']])"
    unfolding partitions_main_def using works argv
    by (intro performs_sq performs_ext) (simp_all add: pg_worksD)
  then show ?thesis
    by (simp add: performs_def drop_call_def [abs_def] kept_days_def drop_query_def)
qed

section \<open>Witnesses\<close>

definition sample_pg :: "unit pgenv" where
  "sample_pg = \<lparr>db_user = ''u'', db_pw = ''p'', db_name = ''d'', db_host = ''h'',
     pg_connect = (\<lambda>s. (Ret (), s)), pg_cursor = (\<lambda>s. (Ret (), s)),
     pg_execute = (\<lambda>q ps s. (Ret (), s)), pg_notices = (\<lambda>s. (Ret [''NOTICE''], s)),
     pg_commit = (\<lambda>s. (Ret (), s)), pg_close = (\<lambda>x s. (Ret (), s)), pg_now = (\<lambda>s. (Ret 31536000000000, s)),
     pg_print = (\<lambda>l s. (Ret (), s)), pg_fmt = (\<lambda>q ps. q)\<rparr>"

definition sample_pg_world :: "unit world" where
  "sample_pg_world = \<lparr>files = Map.empty, host = (), calls = []\<rparr>"

theorem partitions_commit_last_witness:
  "\<exists>cs. calls (snd (partitions_main sample_pg False [''zbx'', ''-v''] tables sample_pg_world))
       = calls sample_pg_world @ cs \<and>
     (commit_call \<notin> set cs \<or>
      (\<exists>pre post now. cs = pre @ [commit_call] @ post \<and> commit_call \<notin> set pre \<union> set post
         \<and> filter is_statement pre = run_statements False [''zbx'', ''-v''] now tables
         \<and> filter is_statement post = []))"
  by (rule partitions_commit_last) simp

theorem partitions_daily_run_witness:
  "\<exists>w'. partitions_main sample_pg False [''zbx''] [(''trends'', ''month'', 12)] sample_pg_world = (Ret (), w')
     \<and> calls w' = [connect_call sample_pg, LibCall ''cursor'' [],
        LibCall ''execute'' [PStr provision_query, PStr ''trends'', PStr ''month'', PInt 12],
        LibCall ''now'' [],
        LibCall ''execute'' [PStr drop_query, PStr ''trends'', PInt (5 * 86400000000)],
        commit_call, LibCall ''close'' [PStr ''cursor''], LibCall ''close'' [PStr ''connection'']]"
proof -
  have "pg_works sample_pg 31536000000000"
    by (simp add: pg_works_def sample_pg_def)
  from partitions_daily_run [OF this, of "[(''trends'', ''month'', 12)]" "[''zbx'']" False sample_pg_world]
  show ?thesis
    by (simp add: tables_def init_flag_def debug_flag_def provision_call_def provision_query_def drop_query_def
        sample_pg_world_def)
qed

end
