(* ===== verification/Spec2Isabelle.thy ===== *)
theory Spec2Isabelle
  imports VmadmPlay TemplatePlay ImgadmPlay Selinux CfgdbSystem ZabbixTemplateJson Hqsms DiscoveryJson
    ZabbixConfig ZbxPartitions
begin

text \<open>
  A model of the Python programs of the esdc-factory repository, which builds and configures Danube
  Cloud appliances on SmartOS and CentOS, with the theorems that make them correct.

  \<^bold>\<open>The programs.\<close> The repository is mostly declarative (Ansible playbooks,
  roles and Jinja templates). Its own logic is in programs that Ansible, Zabbix or the service
  manager runs:
  \<^item> the Ansible modules \<open>ansible/library/vmadm.py\<close> and \<open>imgadm.py\<close>
    (virtual machines and images of a compute node),
    \<open>ansible/roles/selinux/library/selinux_permissive.py\<close>, and \<open>zabbix.py\<close>
    and \<open>zabbix_template.py\<close> in \<open>ansible/roles/esdc-mon/library\<close>;
  \<^item> the configuration database services in \<open>ansible/roles/esdc-cfgdb/files\<close>: the
    REST service over ZooKeeper \<open>cfgdb_zk_rest_server.py\<close> and the UDP discovery service
    \<open>cfgdb_disco_server.py\<close>, with the client of the latter, the C program
    \<open>ansible/files/sources/cfgdb_discovery.c\<close>;
  \<^item> monitoring scripts: \<open>ansible/roles/esdc-mon/files/alertscripts/hqsms.py\<close> and
    the discovery scripts \<open>vm-discovery\<close>, \<open>vm-disk-discovery\<close> and
    \<open>vm-netif-discovery\<close> in
    \<open>ansible/files/archives/monitoring/opt/zabbix/etc/scripts\<close>;
  \<^item> two programs that Ansible renders from templates without logic of their own: the command
    line tool \<open>es-zabbix-config.py.j2\<close> in
    \<open>ansible/roles/esdc-mon/templates\<close> and the daily partitioning of Zabbix's tables,
    \<open>zbx_partitions.py.j2\<close> in
    \<open>ansible/roles/zabbix-server-partitioning/templates\<close>.

  The modules are independent processes: they share no memory and meet only through the systems they
  drive. Within a process the interesting interfaces are the one between a module and
  \<open>AnsibleModule\<close>, and the one between the request dispatch of the REST service and the
  method \<open>handle_request\<close> of its handler classes; each is a locale, interpreted on
  every implementation; a third, \<open>play\<close>, is the one between a module and its plays.
  Where two programs do communicate it is by JSON documents, so the JSON library is modelled too,
  with a fourth locale, \<open>codec\<close>, for what its clients rely on.

  \<^bold>\<open>The theories.\<close>
  \<^item> \<open>Prelude\<close>: Python's string methods and their laws, the collections of facts.
  \<^item> \<open>PyValues\<close>: values, exceptions with the class tests of \<open>except\<close>
    clauses, results that may be an exception, subscripts, printing, UTF-8. Text is kept in its
    UTF-8 bytes.
  \<^item> \<open>PyIO\<close>: statements as functions on a world (files, an arbitrary outside
    state, the list of calls made to code outside the repository); sequencing, \<open>try\<close>,
    files; \<open>emits\<close> bounds the calls.
  \<^item> \<open>Json\<close>: the encoder and decoder of Python's \<open>json\<close>;
    \<open>JsonString\<close> and \<open>JsonRoundTrip\<close> prove that the decoder inverts the
    encoder, \<open>JsonResults\<close> has the locale \<open>codec\<close> with its interpretations
    on text and on bytes, and what every decoded value satisfies.
  \<^item> \<open>Ansible\<close>: argument specifications, the module object, reporting discipline,
    the locale \<open>ansible_program\<close>.
  \<^item> \<open>Vmadm\<close>, \<open>Imgadm\<close>, \<open>Selinux\<close>,
    \<open>Zabbix\<close>, \<open>ZabbixTemplate\<close>: one module each, one definition per
    function or branch of \<open>main\<close>, in the order of the code. \<open>XmlIndent\<close>:
    the pretty printer \<open>indent\<close> of \<open>zabbix_template.py\<close>.
    \<open>AnsiblePlay\<close> has the locale \<open>play\<close> for runs of one module after the
    other: what is shown of a run against a specification of tasks holds for plays.
    \<open>VmadmPlay\<close> and \<open>TemplatePlay\<close> interpret it for
    \<open>vmadm.py\<close> on a hypervisor (the contract \<open>hypervisor\<close>) and
    \<open>zabbix_template.py\<close> on a server (\<open>zabbix_server\<close>), and
    \<open>ImgadmPlay\<close> for \<open>imgadm.py\<close> on the images of a node
    (\<open>image_store\<close>).
  \<^item> \<open>Url\<close>: the parts of \<open>urllib.parse\<close> in use.
    \<open>RestHandler\<close>: the generic handler classes, the locale \<open>rest_handler\<close>.
    \<open>CfgdbRest\<close>: the ZooKeeper handlers. \<open>CfgdbServer\<close>: the server process
    (\<open>run_server\<close> and \<open>main\<close>). \<open>CfgdbService\<close> composes server
    and handlers: \<open>serve_requests\<close> is what \<open>serve_forever\<close> does with a
    sequence of requests. \<open>CfgdbStore\<close> has the abstract specification of the service, a
    tree of nodes under the operations of the four methods, and the contract
    \<open>zk_client\<close> of the client program. \<open>CfgdbDisco\<close>: the discovery service
    as a step function with an inductive set of reachable states. \<open>CfgdbClient\<close>: the C
    program, its buffer a list of bytes. \<open>CfgdbSystem\<close> puts the two services on one
    tree, and the client on one network with its service.
  \<^item> \<open>Hqsms\<close>, \<open>Discovery\<close>: the monitoring scripts.
  \<^item> \<open>CfgdbJson\<close>, \<open>ZabbixTemplateJson\<close>,
    \<open>DiscoveryJson\<close>: these programs with the JSON library put in for their parameter,
    where the theorems are about documents that travel.
  \<^item> \<open>ZabbixConfig\<close>, \<open>ZbxPartitions\<close>: the templated programs.

  \<^bold>\<open>What is shown.\<close> For the modules: that each run ends, reports at most once
  and exits with the status of its report, whatever the other side answers
  (\<open>modules_report_once\<close> below); which commands or API methods each state may use;
  idempotence and convergence of the states that promise it; and the error branches. For the REST
  service: that every request gets exactly one answer, that it starts at most one process, and only
  known commands on nodes whose names start with \<open>/esdc\<close> (also on neighbours of the
  tree, \<open>esdc_guard_admits_neighbours\<close>) with bounded arguments are ever executed, and
  the status of every class of requests; that the process answers request after request until a
  signal; and that it implements the abstract tree: answers and effects of any sequence of requests
  are those of the specification. The same on the side of the modules: the runs of
  \<open>vmadm.py\<close>, \<open>zabbix_template.py\<close> and \<open>imgadm.py\<close> that a
  play makes implement its tasks on machines, templates, images and sources. For the discovery
  service: the invariant of its reachable states, the answers to any sequence of datagrams, and that
  it refines an automaton with two phases. For both services together: the name of the data centre
  that a client stores is what a discovery service started afterwards announces, in Python's
  notation of bytes. For the C program: which of the datagrams it takes for an answer, and that it
  finds the service, both as long as no datagram is shorter than the mark of an answer. For the
  pretty printer: that it keeps content, lays out and is idempotent. For the discovery scripts: that
  their regular expressions split at the last colons, and that every machine, disk (of machines not
  of type \<open>OS\<close>) and interface is listed where it belongs. For the JSON library: every
  value of JSON survives encoding and decoding, in every layout in use, and the decoder ends and
  yields well-formed values on every text. From this: data of the REST service are handed on
  verbatim and its answers can be read, exported templates can be imported again, the discovery
  scripts print documents that decode to what they found, and the configuration tool calls the API
  with the decoded arguments and prints a document that decodes to the result. For the partitioning:
  the statements of a run in their order, and that it commits all of them or none.

  \<^bold>\<open>Parameters.\<close> Everything outside the repository is an argument: the
  hypervisor's commands, the Zabbix client, \<open>seobject\<close>, sockets, HTTP, the XML library,
  digests, the database. Programs take the two JSON functions as an argument as well; the theories
  named after \<open>Json\<close> instantiate it. They are arbitrary functions on the outside state,
  so that a theorem holds for every behaviour of theirs, except where a named hypothesis says what
  is relied on: \<open>ansible_contract\<close> (\<open>fail_json\<close> and
  \<open>exit_json\<close> end the process), \<open>conforms\<close> (parameters match their
  specification), \<open>permissive_store\<close>, \<open>hypervisor\<close> (what
  \<open>vmadm\<close> does on machines), \<open>zabbix_server\<close> (what the API does on
  templates), \<open>image_store\<close> (what the commands of \<open>imgadm\<close> do and print),
  \<open>zk_client\<close> and \<open>reads_tree\<close> (what the ZooKeeper client and the script
  \<open>query_cfgdb\<close> around it do on nodes), \<open>socket_works\<close>,
  \<open>stays_alive\<close> (the outside does not end the process), \<open>outside_spares
  is_interrupt\<close> (no signal in a run of the client program), and the answers a theorem names.
  Every such theorem has a witness on concrete functions.

  \<^bold>\<open>Bounds.\<close> The JSON decoder is the one definition with a counter:
  \<open>json_loads\<close> starts it at \<open>2 * length s + 1\<close>, each call takes one off
  and two calls read at least a character, so it never runs out (\<open>json_total\<close>). The
  limit of Python's recursion is an argument of decoder and encoder; beyond it both raise
  \<open>RecursionError\<close>. The printing of floats is an argument too; the round trips are
  about values without floats, whose numbers are integers. Other loops are recursions on lists or
  have a measure (\<open>py_replace\<close>, \<open>py_split\<close>, \<open>utf8_valid\<close>,
  \<open>ulstrip\<close> consume their text). The service loops run on any finite sequence of
  datagrams or requests, one at a time; the REST service is stopped by a signal after any number of
  requests or while the client program of one runs. The loop of the C program counts its attempts
  down and ends by itself. Integers are Python's, hence unbounded; those of the C program stay far
  below the range of \<open>int\<close>.

  \<^bold>\<open>Not modelled.\<close> Log output; a signal that arrives in a request outside the
  run of the client program; reads beyond a C array (they do not occur); DNS, TCP and HTTP framing
  (\<open>http.server\<close> hands over a parsed request); the limit of newer Python versions on
  the digits of an integer; the database semantics, and more of ZooKeeper, Zabbix and the hypervisor
  than the contracts say; \<open>imgadm update\<close> in plays (its output is not documented);
  playbooks, roles, other templates (configuration files), shell scripts and the constant table in
  \<open>opnsense/j2filters.py\<close>.
\<close>

section \<open>All modules\<close>

text \<open>The main functions of the Ansible modules of the repository.\<close>

definition module_mains ::
  "pyrt \<Rightarrow> pyval list \<Rightarrow> 'h seobject \<Rightarrow> 'h zabbix_client \<Rightarrow> tmplrt
   \<Rightarrow> ('h ansible_module \<Rightarrow> ('h world, unit) io) list" where
  "module_mains rt booleans_true se z T =
     [vmadm_main rt, imgadm_main rt booleans_true, selinux_script se, zabbix_main z, template_main T z]"

text \<open>C19. Every module of the repository keeps the protocol of Ansible, whatever the systems it
  drives answer: a run ends; it reports at most once; the report is its last call to the outside, and
  the exit status is 0 for \<open>exit_json\<close> and 1 for \<open>fail_json\<close>. A run without a report was ended by
  an exception.\<close>

theorem modules_report_once:
  assumes "ansible_contract m" and "main \<in> set (module_mains rt bt se z T)"
  shows "\<exists>e cs. fst (main m w) = Exc e \<and> calls (snd (main m w)) = calls w @ cs \<and>
     (filter is_report cs = [] \<or>
      (\<exists>pre c. cs = pre @ [c] \<and> filter is_report pre = [] \<and> is_report c
             \<and> e = SystemExit (report_status c)))"
proof -
  note outcomes = vmadm_prog.main_outcome imgadm_prog.main_outcome selinux_prog.main_outcome
    zabbix_prog.main_outcome template_prog.main_outcome
  from assms(2) have "main = vmadm_main rt \<or> main = imgadm_main rt bt \<or> main = selinux_script se
      \<or> main = zabbix_main z \<or> main = template_main T z"
    by (simp add: module_mains_def)
  then show ?thesis
    by (elim disjE) (simp_all only: outcomes [OF assms(1)])
qed

theorem modules_report_once_witness:
  "\<exists>e cs. fst (selinux_script (sample_seobject True) sample_se_module sample_se_world) = Exc e
     \<and> calls (snd (selinux_script (sample_seobject True) sample_se_module sample_se_world))
        = calls sample_se_world @ cs \<and>
     (filter is_report cs = [] \<or>
      (\<exists>pre c. cs = pre @ [c] \<and> filter is_report pre = [] \<and> is_report c
             \<and> e = SystemExit (report_status c)))"
proof (rule modules_report_once)
  show "ansible_contract sample_se_module"
    by (simp add: ansible_contract_def sample_se_module_def)
  show "selinux_script (sample_seobject True)
      \<in> set (module_mains sample_img_rt [] (sample_seobject True) sample_zabbix sample_tmplrt)"
    by (simp add: module_mains_def)
qed

end
